theory Spec2Isabelle
  imports Main "HOL-Library.AList"
begin

section \<open>Values, objects and the heap\<close>

text \<open>
  The values \<^verbatim>\<open>lib/datasource.js\<close> handles. An object lives on a heap and is named by
  its address, so that two references to one object (the \<^verbatim>\<open>settings\<close> of a type
  and of its copy in a transaction) are seen as such. A DataSource or a transaction
  context lives in a store of its own, as a record of its fields. Functions the module
  creates itself are the constructors of \<open>callback\<close> (their bodies are \<open>call_fn\<close>
  below); a function of the caller is opaque (\<open>UserFn\<close>), and so is one of the platform
  or of a library that is not part of this file (\<open>VBuiltin\<close>, for instance
  \<^verbatim>\<open>Number\<close>). Numbers are integers here: no claim depends on a fraction or on NaN.
\<close>

datatype val =
    VUndefined
  | VNull
  | VBool bool
  | VNum int
  | VStr string
  | VRef nat
  | VSource nat
  | VBuiltin string
  | VFun callback
and callback =
    UserFn nat
  | InitializeDone nat
  | ConnectDone nat val
  | ForeignKeyDone nat string string

datatype error =
    TypeError string
  | Error string
  | Thrown val

text \<open>What \<^verbatim>\<open>if (v)\<close>, \<^verbatim>\<open>!v\<close> and \<^verbatim>\<open>v || w\<close> test.\<close>

fun truthy :: "val \<Rightarrow> bool" where
  "truthy VUndefined = False"
| "truthy VNull = False"
| "truthy (VBool b) = b"
| "truthy (VNum n) = (n \<noteq> 0)"
| "truthy (VStr s) = (s \<noteq> [])"
| "truthy (VRef a) = True"
| "truthy (VSource s) = True"
| "truthy (VBuiltin n) = True"
| "truthy (VFun f) = True"

fun callable :: "val \<Rightarrow> bool" where
  "callable (VBuiltin n) = True"
| "callable (VFun f) = True"
| "callable v = False"

text \<open>
  A data property with its attributes, as \<^verbatim>\<open>Object.defineProperty\<close> sets them; a
  property created by an assignment or an object literal has all three attributes true.
\<close>

record pdesc =
  pvalue :: val
  writable :: bool
  enumerable :: bool
  configurable :: bool

definition plain :: "val \<Rightarrow> pdesc" where
  "plain v = \<lparr>pvalue = v, writable = True, enumerable = True, configurable = True\<rparr>"

text \<open>
  The prototype of an object: none, \<^verbatim>\<open>Object.prototype\<close>, \<^verbatim>\<open>Function.prototype\<close>
  (both of the platform, and taken as the platform ships them), or an object of the heap.
\<close>

datatype proto = NoProto | ObjectProto | FunctionProto | ProtoRef nat

text \<open>
  The own properties are an association list in the order a \<^verbatim>\<open>for ... in\<close> visits
  them: the order of creation (an engine visits keys that are array indices first; the
  type names of a registry are identifiers).
\<close>

record jsobj =
  props :: "(string \<times> pdesc) list"
  oproto :: proto

type_synonym heap = "nat \<Rightarrow> jsobj option"

definition object_prototype_keys :: "string list" where
  "object_prototype_keys =
     [''constructor'', ''toString'', ''toLocaleString'', ''valueOf'', ''hasOwnProperty'',
      ''isPrototypeOf'', ''propertyIsEnumerable'', ''__defineGetter__'', ''__defineSetter__'',
      ''__lookupGetter__'', ''__lookupSetter__'']"

definition function_prototype_keys :: "string list" where
  "function_prototype_keys = [''apply'', ''bind'', ''call'', ''length'', ''name'']"

definition builtin_prop :: "string \<Rightarrow> pdesc" where
  "builtin_prop k = \<lparr>pvalue = VBuiltin k, writable = True, enumerable = False, configurable = True\<rparr>"

text \<open>
  What a property lookup finds: nothing, a data property, or the accessor
  \<^verbatim>\<open>__proto__\<close> of \<^verbatim>\<open>Object.prototype\<close> (reading it gives the prototype of the
  object, assigning to it changes the prototype).
\<close>

datatype found = Missing | Data pdesc | ProtoAccessor

definition object_prototype :: "string \<Rightarrow> found" where
  "object_prototype k =
     (if k = ''__proto__'' then ProtoAccessor
      else if k \<in> set object_prototype_keys then Data (builtin_prop k)
      else Missing)"

definition function_prototype :: "string \<Rightarrow> found" where
  "function_prototype k =
     (if k \<in> set function_prototype_keys then Data (builtin_prop k) else object_prototype k)"

text \<open>
  The lookup along the prototype chain. Every prototype link this module creates points
  to an object allocated earlier (a copied type inherits from its master), so the chain
  is followed while the addresses decrease; the platform refuses a cyclic chain.
\<close>

function lookup :: "heap \<Rightarrow> nat \<Rightarrow> string \<Rightarrow> found" where
  "lookup h a k =
     (case h a of
        None \<Rightarrow> Missing
      | Some ob \<Rightarrow>
          (case map_of (props ob) k of
             Some p \<Rightarrow> Data p
           | None \<Rightarrow>
               (case oproto ob of
                  NoProto \<Rightarrow> Missing
                | ObjectProto \<Rightarrow> object_prototype k
                | FunctionProto \<Rightarrow> function_prototype k
                | ProtoRef b \<Rightarrow> if b < a then lookup h b k else Missing)))"
  by pat_completeness auto
termination
  by (relation "measure (\<lambda>(h, a, k). a)") auto

definition proto_val :: "heap \<Rightarrow> nat \<Rightarrow> val" where
  "proto_val h a =
     (case h a of
        None \<Rightarrow> VUndefined
      | Some ob \<Rightarrow>
          (case oproto ob of
             NoProto \<Rightarrow> VNull
           | ObjectProto \<Rightarrow> VBuiltin ''Object.prototype''
           | FunctionProto \<Rightarrow> VBuiltin ''Function.prototype''
           | ProtoRef b \<Rightarrow> VRef b))"

text \<open>\<^verbatim>\<open>o[k]\<close> and \<^verbatim>\<open>k in o\<close> for an object \<open>o\<close> of the heap.\<close>

definition js_get :: "heap \<Rightarrow> nat \<Rightarrow> string \<Rightarrow> val" where
  "js_get h a k =
     (case lookup h a k of
        Missing \<Rightarrow> VUndefined
      | Data p \<Rightarrow> pvalue p
      | ProtoAccessor \<Rightarrow> proto_val h a)"

definition js_has :: "heap \<Rightarrow> nat \<Rightarrow> string \<Rightarrow> bool" where
  "js_has h a k = (lookup h a k \<noteq> Missing)"

text \<open>
  The assignment \<^verbatim>\<open>o[k] = v\<close>. It changes an own writable property, or creates an own
  property when the chain has none or a writable one; a property that is not writable
  (own or inherited) refuses it. Objects are extensible: nothing here freezes one.
\<close>

definition can_put :: "heap \<Rightarrow> nat \<Rightarrow> string \<Rightarrow> bool" where
  "can_put h a k =
     (case lookup h a k of Missing \<Rightarrow> True | Data p \<Rightarrow> writable p | ProtoAccessor \<Rightarrow> True)"

text \<open>
  The prototype a value stands for, where it can be one: an object or \<^verbatim>\<open>null\<close>. A
  function or DataSource that is not on the heap counts as a plain object here.
\<close>

fun proto_of_val :: "val \<Rightarrow> proto option" where
  "proto_of_val (VRef b) = Some (ProtoRef b)"
| "proto_of_val VNull = Some NoProto"
| "proto_of_val (VBuiltin n) =
     Some (if n = ''Function.prototype'' then FunctionProto else ObjectProto)"
| "proto_of_val (VFun f) = Some ObjectProto"
| "proto_of_val (VSource s) = Some ObjectProto"
| "proto_of_val v = None"

definition set_proto :: "jsobj \<Rightarrow> val \<Rightarrow> jsobj" where
  "set_proto ob v = (case proto_of_val v of Some p \<Rightarrow> ob\<lparr>oproto := p\<rparr> | None \<Rightarrow> ob)"

definition put_own :: "jsobj \<Rightarrow> string \<Rightarrow> val \<Rightarrow> jsobj" where
  "put_own ob k v =
     (case map_of (props ob) k of
        Some p \<Rightarrow> ob\<lparr>props := AList.update k (p\<lparr>pvalue := v\<rparr>) (props ob)\<rparr>
      | None \<Rightarrow> ob\<lparr>props := props ob @ [(k, plain v)]\<rparr>)"

definition js_set :: "heap \<Rightarrow> nat \<Rightarrow> string \<Rightarrow> val \<Rightarrow> heap" where
  "js_set h a k v =
     (case h a of
        None \<Rightarrow> h
      | Some ob \<Rightarrow>
          (case lookup h a k of
             Missing \<Rightarrow> h(a \<mapsto> put_own ob k v)
           | Data p \<Rightarrow> if writable p then h(a \<mapsto> put_own ob k v) else h
           | ProtoAccessor \<Rightarrow> h(a \<mapsto> set_proto ob v)))"

text \<open>
  An assignment in sloppy code (this file has no \<^verbatim>\<open>'use strict'\<close>) is silent when it
  is refused; the same assignment in strict code of a caller throws.
\<close>

definition js_assign :: "bool \<Rightarrow> heap \<Rightarrow> nat \<Rightarrow> string \<Rightarrow> val \<Rightarrow> error + heap" where
  "js_assign strict h a k v =
     (if can_put h a k then Inr (js_set h a k v)
      else if strict then Inl (TypeError ''Cannot assign to read only property'')
      else Inr h)"

text \<open>\<^verbatim>\<open>Object.defineProperty(o, k, d)\<close> with a data descriptor \<open>d\<close>.\<close>

definition define_property :: "heap \<Rightarrow> nat \<Rightarrow> string \<Rightarrow> pdesc \<Rightarrow> error + heap" where
  "define_property h a k d =
     (case h a of
        None \<Rightarrow> Inl (TypeError ''Object.defineProperty called on non-object'')
      | Some ob \<Rightarrow>
          (case map_of (props ob) k of
             None \<Rightarrow> Inr (h(a \<mapsto> ob\<lparr>props := props ob @ [(k, d)]\<rparr>))
           | Some p \<Rightarrow>
               if configurable p then Inr (h(a \<mapsto> ob\<lparr>props := AList.update k d (props ob)\<rparr>))
               else if configurable d \<or> enumerable d \<noteq> enumerable p
                 then Inl (TypeError ''Cannot redefine property'')
               else if \<not> writable p \<and> (writable d \<or> pvalue d \<noteq> pvalue p)
                 then Inl (TypeError ''Cannot redefine property'')
               else Inr (h(a \<mapsto> ob\<lparr>props := AList.update k d (props ob)\<rparr>))))"

text \<open>
  The keys a \<^verbatim>\<open>for (k in o)\<close> visits: the own enumerable ones, then those of the
  prototype chain that no own property (enumerable or not) shadows. The platform's
  prototypes have no enumerable property.
\<close>

function for_in :: "heap \<Rightarrow> nat \<Rightarrow> string list" where
  "for_in h a =
     (case h a of
        None \<Rightarrow> []
      | Some ob \<Rightarrow>
          map fst (filter (\<lambda>(k, p). enumerable p) (props ob)) @
          (case oproto ob of
             ProtoRef b \<Rightarrow>
               if b < a then filter (\<lambda>k. k \<notin> fst ` set (props ob)) (for_in h b) else []
           | _ \<Rightarrow> []))"
  by pat_completeness auto
termination
  by (relation "measure (\<lambda>(h, a). a)") auto

section \<open>Adapters, DataSources and the state\<close>

text \<open>
  An adapter is code outside this module. The model keeps what the module asks of it:
  which operations it has (\<open>ops\<close>: the names of its function members), the number of
  parameters its \<^verbatim>\<open>defineForeignKey\<close> declares (\<open>fk_arity\<close>), and, for an operation
  that calls its completion before it returns, the arguments it passes (\<open>replies\<close>).
  An operation without a reply completes later or never: its completion is then run by
  \<open>call_fn\<close> as a step of its own. Adapter operations are taken not to throw and not
  to touch the registry themselves.
\<close>

record adapter =
  ops :: "string list"
  fk_arity :: nat
  replies :: "(string \<times> val list) list"

text \<open>
  A module that \<^verbatim>\<open>require\<close> loads, or a handle the caller passes: its \<^verbatim>\<open>name\<close>, the
  adapter its \<^verbatim>\<open>initialize\<close> stores in \<^verbatim>\<open>dataSource.adapter\<close> (\<open>None\<close>: it stores
  none), and whether \<^verbatim>\<open>initialize\<close> calls its completion before it returns.
\<close>

record backend_module =
  mname :: val
  installs :: "adapter option"
  init_sync :: bool

text \<open>The first argument of the constructor: absent, a handle, or a string.\<close>

datatype backend = Unnamed | Handle backend_module | Named string

text \<open>
  What \<^verbatim>\<open>require\<close> and \<^verbatim>\<open>existsSync\<close> find: modules by absolute path, the built-in
  adapters under \<^verbatim>\<open>lib/adapters/\<close>, and the installed packages \<^verbatim>\<open>jugglingdb-NAME\<close>,
  each by the string the constructor receives.
\<close>

record loader =
  absolute :: "(string \<times> backend_module) list"
  builtin :: "(string \<times> backend_module) list"
  foreign :: "(string \<times> backend_module) list"

text \<open>
  The members \<^verbatim>\<open>DataAccessObject\<close> (\<^verbatim>\<open>lib/dao.js\<close>) and its prototype show to a
  \<^verbatim>\<open>for ... in\<close>, with their values.
\<close>

record dao =
  dao_static :: "(string \<times> val) list"
  dao_proto :: "(string \<times> val) list"

text \<open>
  A DataSource or a transaction context. \<open>has_connect\<close> says whether the member
  \<^verbatim>\<open>connect\<close> was installed (\<^verbatim>\<open>setup\<close> installs it last; a transaction takes its
  parent's).
\<close>

record source =
  sname :: val
  settings :: val
  connected :: bool
  connecting :: bool
  adapter :: "adapter option"
  models :: nat
  definitions :: nat
  isTransaction :: bool
  origin :: "nat option"
  has_connect :: bool

text \<open>
  What the module does to the outside, in order: a warning on the console, an event of
  the emitter, a call of an adapter operation (of the adapter of the given DataSource),
  a call of an opaque function.
\<close>

datatype event =
    Warning string
  | Emit nat string "val list"
  | AdapterCall nat string "val list"
  | Invoke val "val list"

text \<open>
  The state: the heap of objects and the store of DataSources, each with its next free
  address, the events so far, and the callbacks \<^verbatim>\<open>process.nextTick\<close> has queued.
\<close>

record state =
  objs :: heap
  onext :: nat
  srcs :: "nat \<Rightarrow> source option"
  snext :: nat
  trace :: "event list"
  ticks :: "val list"

definition bnd :: "error + 'a \<Rightarrow> ('a \<Rightarrow> error + 'b) \<Rightarrow> error + 'b" where
  "bnd m f = (case m of Inl e \<Rightarrow> Inl e | Inr x \<Rightarrow> f x)"

definition log_event :: "event \<Rightarrow> state \<Rightarrow> state" where
  "log_event e st = st\<lparr>trace := trace st @ [e]\<rparr>"

definition alloc :: "jsobj \<Rightarrow> state \<Rightarrow> nat \<times> state" where
  "alloc ob st = (onext st, st\<lparr>objs := (objs st)(onext st \<mapsto> ob), onext := Suc (onext st)\<rparr>)"

text \<open>An object literal \<^verbatim>\<open>{k1: v1, ...}\<close>.\<close>

definition new_object :: "(string \<times> val) list \<Rightarrow> state \<Rightarrow> nat \<times> state" where
  "new_object kvs st = alloc \<lparr>props = map (\<lambda>(k, v). (k, plain v)) kvs, oproto = ObjectProto\<rparr> st"

text \<open>
  A function expression \<^verbatim>\<open>function NAME() { ... }\<close>: the function object with its own
  \<^verbatim>\<open>length\<close>, \<^verbatim>\<open>name\<close> and \<^verbatim>\<open>prototype\<close>, and the fresh prototype object whose
  \<^verbatim>\<open>constructor\<close> it is.
\<close>

definition new_function :: "string \<Rightarrow> state \<Rightarrow> nat \<times> state" where
  "new_function nm st =
     (let (p, st1) =
            alloc \<lparr>props = [(''constructor'',
                     \<lparr>pvalue = VRef (Suc (onext st)), writable = True, enumerable = False,
                      configurable = True\<rparr>)],
                   oproto = ObjectProto\<rparr> st
      in alloc \<lparr>props =
                  [(''length'', \<lparr>pvalue = VNum 0, writable = False, enumerable = False,
                      configurable = True\<rparr>),
                   (''name'', \<lparr>pvalue = VStr nm, writable = False, enumerable = False,
                      configurable = True\<rparr>),
                   (''prototype'', \<lparr>pvalue = VRef p, writable = True, enumerable = False,
                      configurable = False\<rparr>)],
                oproto = FunctionProto\<rparr> st1)"

definition upd_source :: "nat \<Rightarrow> (source \<Rightarrow> source) \<Rightarrow> state \<Rightarrow> state" where
  "upd_source s f st =
     (case srcs st s of None \<Rightarrow> st | Some sc \<Rightarrow> st\<lparr>srcs := (srcs st)(s \<mapsto> f sc)\<rparr>)"

text \<open>
  The data fields of a DataSource read as properties. Its methods are not values of the
  model: a DataSource is used here as \<^verbatim>\<open>this\<close> and as the \<^verbatim>\<open>schema\<close> of a type.
\<close>

definition source_field :: "source \<Rightarrow> string \<Rightarrow> val" where
  "source_field sc k =
     (if k = ''name'' then sname sc
      else if k = ''settings'' then settings sc
      else if k = ''connected'' then VBool (connected sc)
      else if k = ''connecting'' then VBool (connecting sc)
      else if k = ''models'' then VRef (models sc)
      else if k = ''definitions'' then VRef (definitions sc)
      else if k = ''isTransaction'' then (if isTransaction sc then VBool True else VUndefined)
      else if k = ''origin'' then (case origin sc of None \<Rightarrow> VUndefined | Some p \<Rightarrow> VSource p)
      else VUndefined)"

text \<open>
  \<^verbatim>\<open>v[k]\<close> for any value: reading a property of \<^verbatim>\<open>undefined\<close> or \<^verbatim>\<open>null\<close> throws;
  the members of a primitive or of an opaque function are not modelled and read as
  \<^verbatim>\<open>undefined\<close>.
\<close>

definition member :: "state \<Rightarrow> val \<Rightarrow> string \<Rightarrow> error + val" where
  "member st v k =
     (case v of
        VUndefined \<Rightarrow> Inl (TypeError ''Cannot read property of undefined'')
      | VNull \<Rightarrow> Inl (TypeError ''Cannot read property of null'')
      | VRef a \<Rightarrow> Inr (js_get (objs st) a k)
      | VSource s \<Rightarrow>
          (case srcs st s of None \<Rightarrow> Inr VUndefined | Some sc \<Rightarrow> Inr (source_field sc k))
      | _ \<Rightarrow> Inr VUndefined)"

text \<open>
  \<^verbatim>\<open>v[k] = w\<close> in this file's (sloppy) code: it throws on \<^verbatim>\<open>undefined\<close> and
  \<^verbatim>\<open>null\<close>, is lost on a primitive, and on an object of the heap is \<open>js_set\<close>.
\<close>

definition assign :: "state \<Rightarrow> val \<Rightarrow> string \<Rightarrow> val \<Rightarrow> error + state" where
  "assign st v k w =
     (case v of
        VUndefined \<Rightarrow> Inl (TypeError ''Cannot set property of undefined'')
      | VNull \<Rightarrow> Inl (TypeError ''Cannot set property of null'')
      | VRef a \<Rightarrow> Inr (st\<lparr>objs := js_set (objs st) a k w\<rparr>)
      | _ \<Rightarrow> Inr st)"

text \<open>The string a value becomes as a property key.\<close>

function dec :: "nat \<Rightarrow> string" where
  "dec n = (if n < 10 then [char_of (48 + n)] else dec (n div 10) @ [char_of (48 + n mod 10)])"
  by pat_completeness auto
termination
  by (relation "measure (\<lambda>n. n)") auto

fun to_key :: "val \<Rightarrow> string" where
  "to_key (VStr s) = s"
| "to_key VUndefined = ''undefined''"
| "to_key VNull = ''null''"
| "to_key (VBool b) = (if b then ''true'' else ''false'')"
| "to_key (VNum n) = (if n < 0 then CHR ''-'' # dec (nat (- n)) else dec (nat n))"
| "to_key v = ''[object Object]''"

definition arg :: "nat \<Rightarrow> val list \<Rightarrow> val" where
  "arg i args = (if i < length args then args ! i else VUndefined)"


section \<open>The closures of the module\<close>

text \<open>
  \<^verbatim>\<open>this.definitions[className].properties[key] = {type: keyType}\<close>, the statement
  \<^verbatim>\<open>defineForeignKey\<close> has twice: in its completion and for an adapter without
  key-type resolution.
\<close>

definition set_key_type :: "nat \<Rightarrow> string \<Rightarrow> string \<Rightarrow> val \<Rightarrow> state \<Rightarrow> error + state" where
  "set_key_type s className key keyType st =
     (case srcs st s of
        None \<Rightarrow> Inl (TypeError ''Cannot read property of undefined'')
      | Some sc \<Rightarrow>
          bnd (member st (js_get (objs st) (definitions sc) className) ''properties'') (\<lambda>ps.
            let (a, st1) = new_object [(''type'', keyType)] st
            in assign st1 ps key (VRef a)))"

text \<open>
  Calling a value. An opaque function is recorded with its arguments. The three closures:
  \<^item> \<open>InitializeDone s\<close>: the completion \<^verbatim>\<open>setup\<close> passes to \<^verbatim>\<open>adapter.initialize\<close>
    (lines 104-126), bound to the DataSource \<open>s\<close>;
  \<^item> \<open>ConnectDone s cb\<close>: the completion \<^verbatim>\<open>schema.connect\<close> passes to
    \<^verbatim>\<open>adapter.connect\<close> (lines 133-142);
  \<^item> \<open>ForeignKeyDone s className key\<close>: the completion \<^verbatim>\<open>defineForeignKey\<close> passes to
    \<^verbatim>\<open>adapter.defineForeignKey\<close> (lines 394-397).
\<close>

fun call_fn :: "val \<Rightarrow> val list \<Rightarrow> state \<Rightarrow> error + state" where
  "call_fn (VFun (UserFn n)) args st = Inr (log_event (Invoke (VFun (UserFn n)) args) st)"
| "call_fn (VBuiltin n) args st = Inr (log_event (Invoke (VBuiltin n) args) st)"
| "call_fn (VFun (InitializeDone s)) args st =
     (case srcs st s of
        None \<Rightarrow> Inl (TypeError ''Cannot read property of undefined'')
      | Some sc \<Rightarrow>
          (case adapter sc of
             None \<Rightarrow> Inl (Error ''Adapter is not defined correctly'')
           | Some a \<Rightarrow>
               Inr (log_event (Emit s ''connected'' [])
                 (upd_source s (\<lambda>sc. sc\<lparr>adapter :=
                      Some (a\<lparr>ops := ops a @ filter (\<lambda>k. k \<notin> set (ops a)) [''log'', ''logger'']\<rparr>),
                    connected := True\<rparr>) st))))"
| "call_fn (VFun (ConnectDone s cb)) args st =
     (let err = arg 0 args;
          st1 = (if \<not> truthy err
                 then log_event (Emit s ''connected'' [])
                        (upd_source s (\<lambda>sc. sc\<lparr>connected := True, connecting := False\<rparr>) st)
                 else st)
      in if truthy cb then call_fn cb [err] st1 else Inr st1)"
| "call_fn (VFun (ForeignKeyDone s className key)) args st =
     (if truthy (arg 0 args) then Inl (Thrown (arg 0 args))
      else set_key_type s className key (arg 1 args) st)"
| "call_fn v args st = Inl (TypeError ''is not a function'')"

text \<open>
  A call of an adapter operation without a completion, and one whose last argument is
  the completion: when the adapter replies before it returns, the completion runs then.
\<close>

definition adapter_notify :: "nat \<Rightarrow> string \<Rightarrow> val list \<Rightarrow> state \<Rightarrow> state" where
  "adapter_notify s opn args st = log_event (AdapterCall s opn args) st"

definition adapter_request :: "adapter \<Rightarrow> nat \<Rightarrow> string \<Rightarrow> val list \<Rightarrow> state \<Rightarrow> error + state" where
  "adapter_request a s opn args st =
     (let st1 = log_event (AdapterCall s opn args) st;
          cb = arg (length args - 1) args
      in case map_of (replies a) opn of
           None \<Rightarrow> Inr st1
         | Some r \<Rightarrow> if callable cb then call_fn cb r st1 else Inr st1)"

text \<open>\<^verbatim>\<open>process.nextTick(cb)\<close> queues \<open>cb\<close>; a tick runs the first queued callback, with no argument.\<close>

definition next_tick :: "val \<Rightarrow> state \<Rightarrow> state" where
  "next_tick cb st = st\<lparr>ticks := ticks st @ [cb]\<rparr>"

definition run_tick :: "state \<Rightarrow> error + state" where
  "run_tick st =
     (case ticks st of
        [] \<Rightarrow> Inr st
      | cb # rest \<Rightarrow> call_fn cb [] (st\<lparr>ticks := rest\<rparr>))"

section \<open>The parts of the schema compiler the module calls\<close>

definition hiddenProperty :: "nat \<Rightarrow> string \<Rightarrow> val \<Rightarrow> state \<Rightarrow> error + state" where
  "hiddenProperty wh property v st =
     bnd (define_property (objs st) wh property
            \<lparr>pvalue = v, writable = False, enumerable = False, configurable = False\<rparr>)
       (\<lambda>h. Inr (st\<lparr>objs := h\<rparr>))"

definition defineReadonlyProp :: "nat \<Rightarrow> string \<Rightarrow> val \<Rightarrow> state \<Rightarrow> error + state" where
  "defineReadonlyProp obj key v st =
     bnd (define_property (objs st) obj key
            \<lparr>pvalue = v, writable = False, enumerable = True, configurable = True\<rparr>)
       (\<lambda>h. Inr (st\<lparr>objs := h\<rparr>))"

text \<open>
  Modelled from the spec: the constructor \<^verbatim>\<open>ADL\<close> of \<^verbatim>\<open>lib/adl.js\<close>, which is not
  among the sources. The spec gives a DataSource a \<^verbatim>\<open>models\<close> mapping and a
  \<^verbatim>\<open>definitions\<close> mapping of its own, empty until a type is declared (section 3).
\<close>

definition ADL :: "state \<Rightarrow> nat \<times> state" where
  "ADL st =
     (let (m, st1) = new_object [] st;
          (d, st2) = new_object [] st1;
          s = snext st2
      in (s, st2\<lparr>srcs := (srcs st2)(s \<mapsto>
                 \<lparr>sname = VUndefined, settings = VUndefined, connected = False,
                  connecting = False, adapter = None, models = m, definitions = d,
                  isTransaction = False, origin = None, has_connect = False\<rparr>),
               snext := Suc s\<rparr>))"

text \<open>
  Modelled from the spec: \<^verbatim>\<open>ADL.prototype.define\<close> of \<^verbatim>\<open>lib/adl.js\<close>, which is not
  among the sources. By the spec (sections 3, 4.3 and 8) it produces a constructible
  type that carries its \<^verbatim>\<open>schema\<close>, \<^verbatim>\<open>modelName\<close> and \<^verbatim>\<open>relations\<close> and can register
  a property, stores it in \<^verbatim>\<open>models\<close> under the type name and the descriptor
  \<^verbatim>\<open>{properties, settings}\<close> in \<^verbatim>\<open>definitions\<close> under the same name, a second
  declaration of a name replacing the first. The compilation of the field descriptors
  inside \<^verbatim>\<open>properties\<close> is left out.
\<close>

definition adl_define :: "nat \<Rightarrow> string \<Rightarrow> val \<Rightarrow> val \<Rightarrow> state \<Rightarrow> error + (nat \<times> state)" where
  "adl_define s className properties stgs st =
     (case srcs st s of
        None \<Rightarrow> Inl (TypeError ''Cannot read property of undefined'')
      | Some sc \<Rightarrow>
          (let (cls, st1) = new_function ''ModelConstructor'' st;
               (rel, st2) = new_object [] st1
           in bnd (hiddenProperty cls ''schema'' (VSource s) st2) (\<lambda>st3.
              bnd (hiddenProperty cls ''modelName'' (VStr className) st3) (\<lambda>st4.
              bnd (hiddenProperty cls ''relations'' (VRef rel) st4) (\<lambda>st5.
              bnd (assign st5 (VRef cls) ''registerProperty'' (VBuiltin ''registerProperty'')) (\<lambda>st6.
              bnd (assign st6 (VRef (models sc)) className (VRef cls)) (\<lambda>st7.
                let (d, st8) = new_object [(''properties'', properties), (''settings'', stgs)] st7
                in bnd (assign st8 (VRef (definitions sc)) className (VRef d)) (\<lambda>st9.
                   Inr (cls, st9)))))))))"

text \<open>
  Modelled from the spec: \<^verbatim>\<open>ADL.prototype.defineProperty\<close> of \<^verbatim>\<open>lib/adl.js\<close>, which
  is not among the sources: it updates the descriptor of the type in place (section 4.3).
\<close>

definition adl_defineProperty :: "nat \<Rightarrow> string \<Rightarrow> string \<Rightarrow> val \<Rightarrow> state \<Rightarrow> error + state" where
  "adl_defineProperty s model prp params st =
     (case srcs st s of
        None \<Rightarrow> Inl (TypeError ''Cannot read property of undefined'')
      | Some sc \<Rightarrow>
          bnd (member st (js_get (objs st) (definitions sc) model) ''properties'') (\<lambda>ps.
            assign st ps prp params))"

text \<open>
  \<^verbatim>\<open>util.inherits(ctor, superCtor)\<close> of the platform, as the Node of the module's time
  has it: \<^verbatim>\<open>ctor.super_ = superCtor\<close>, then \<^verbatim>\<open>ctor.prototype\<close> becomes a fresh object
  whose prototype is \<^verbatim>\<open>superCtor.prototype\<close> and whose hidden \<^verbatim>\<open>constructor\<close> is
  \<open>ctor\<close>; \<^verbatim>\<open>Object.create\<close> throws unless that prototype is an object or \<^verbatim>\<open>null\<close>.
\<close>

definition inherits :: "nat \<Rightarrow> val \<Rightarrow> state \<Rightarrow> error + state" where
  "inherits ctor superCtor st =
     bnd (assign st (VRef ctor) ''super_'' superCtor) (\<lambda>st1.
     bnd (member st1 superCtor ''prototype'') (\<lambda>sp.
       case proto_of_val sp of
         None \<Rightarrow> Inl (TypeError ''Object prototype may only be an Object or null'')
       | Some pr \<Rightarrow>
           (let (p, st2) =
                  alloc \<lparr>props = [(''constructor'',
                           \<lparr>pvalue = VRef ctor, writable = True, enumerable = False,
                            configurable = True\<rparr>)],
                         oproto = pr\<rparr> st1
            in assign st2 (VRef ctor) ''prototype'' (VRef p))))"


section \<open>The DataSource\<close>

text \<open>
  \<^verbatim>\<open>DataSource.prototype.setup\<close> (lines 68-149). The name that resolves to no adapter
  leaves through \<^verbatim>\<open>return console.log(...)\<close>: the adapter stays undefined and the
  member \<^verbatim>\<open>connect\<close> is not installed. A missing module at an absolute path is the
  error \<^verbatim>\<open>require\<close> throws.
\<close>

definition initialize :: "backend_module \<Rightarrow> nat \<Rightarrow> state \<Rightarrow> error + state" where
  "initialize m s st =
     (let st1 = log_event (AdapterCall s ''initialize'' [VSource s, VFun (InitializeDone s)]) st;
          st2 = (case installs m of
                   None \<Rightarrow> st1
                 | Some a \<Rightarrow> upd_source s (\<lambda>sc. sc\<lparr>adapter := Some a\<rparr>) st1)
      in if init_sync m then call_fn (VFun (InitializeDone s)) [] st2 else Inr st2)"

definition install_connect :: "nat \<Rightarrow> state \<Rightarrow> state" where
  "install_connect s st = upd_source s (\<lambda>sc. sc\<lparr>has_connect := True\<rparr>) st"

definition setup' :: "loader \<Rightarrow> nat \<Rightarrow> backend \<Rightarrow> val \<Rightarrow> state \<Rightarrow> error + state" where
  "setup' ld s nm stgs st =
     (let st1 = upd_source s (\<lambda>sc. sc\<lparr>sname :=
                    (case nm of Unnamed \<Rightarrow> VUndefined | Handle m \<Rightarrow> mname m | Named n \<Rightarrow> VStr n),
                  settings := stgs, connected := False, connecting := False\<rparr>) st
      in case nm of
           Unnamed \<Rightarrow> Inr (install_connect s st1)
         | Handle m \<Rightarrow> bnd (initialize m s st1) (\<lambda>st2. Inr (install_connect s st2))
         | Named n \<Rightarrow>
             if n = [] then Inr (install_connect s st1)
             else if hd n = CHR ''/'' then
               (case map_of (absolute ld) n of
                  None \<Rightarrow> Inl (Error ''Cannot find module'')
                | Some m \<Rightarrow> bnd (initialize m s st1) (\<lambda>st2. Inr (install_connect s st2)))
             else
               (case map_of (builtin ld) n of
                  Some m \<Rightarrow> bnd (initialize m s st1) (\<lambda>st2. Inr (install_connect s st2))
                | None \<Rightarrow>
                    (case map_of (foreign ld) n of
                       None \<Rightarrow> Inr (log_event (Warning n) st1)
                     | Some m \<Rightarrow> bnd (initialize m s st1) (\<lambda>st2. Inr (install_connect s st2)))))"

text \<open>\<^verbatim>\<open>new DataSource(name, settings)\<close> (lines 51-57).\<close>

definition DataSource :: "loader \<Rightarrow> backend \<Rightarrow> val \<Rightarrow> state \<Rightarrow> error + (nat \<times> state)" where
  "DataSource ld nm stgs st =
     (let (s, st1) = ADL st
      in bnd (setup' ld s nm stgs st1) (\<lambda>st2. Inr (s, st2)))"

text \<open>
  \<^verbatim>\<open>schema.connect\<close> (lines 129-148), the member \<^verbatim>\<open>setup\<close> installs; a DataSource
  without it has nothing to call.
\<close>

definition connect :: "nat \<Rightarrow> val \<Rightarrow> state \<Rightarrow> error + state" where
  "connect s cb st =
     (case srcs st s of
        None \<Rightarrow> Inl (TypeError ''Cannot read property of undefined'')
      | Some sc \<Rightarrow>
          if \<not> has_connect sc then Inl (TypeError ''connect is not a function'')
          else
            (let st1 = upd_source s (\<lambda>sc. sc\<lparr>connecting := True\<rparr>) st
             in case adapter sc of
                  None \<Rightarrow> Inl (TypeError ''Cannot read property connect of undefined'')
                | Some a \<Rightarrow>
                    if ''connect'' \<in> set (ops a)
                    then adapter_request a s ''connect'' [VFun (ConnectDone s cb)] st1
                    else if truthy cb then Inr (next_tick cb st1)
                    else Inr st1))"

text \<open>\<^verbatim>\<open>DataSource.prototype.define\<close> (lines 182-213).\<close>

fun mixin_static :: "val \<Rightarrow> (string \<times> val) list \<Rightarrow> state \<Rightarrow> error + state" where
  "mixin_static cls [] st = Inr st"
| "mixin_static cls ((m, v) # ms) st = bnd (assign st cls m v) (mixin_static cls ms)"

fun mixin_proto :: "val \<Rightarrow> (string \<times> val) list \<Rightarrow> state \<Rightarrow> error + state" where
  "mixin_proto cls [] st = Inr st"
| "mixin_proto cls ((n, v) # ns) st =
     bnd (member st cls ''prototype'') (\<lambda>p.
     bnd (assign st p n v) (mixin_proto cls ns))"

definition define' :: "dao \<Rightarrow> nat \<Rightarrow> string \<Rightarrow> val \<Rightarrow> val \<Rightarrow> state \<Rightarrow> error + (val \<times> state)" where
  "define' da s className properties stgs st =
     (if className = [] then Inl (Error ''Class name required'')
      else
        (let (properties, st1) =
               (if truthy properties then (properties, st)
                else (let (a, st') = new_object [] st in (VRef a, st')));
             (stgs, st2) =
               (if truthy stgs then (stgs, st1)
                else (let (a, st') = new_object [] st1 in (VRef a, st')))
         in bnd (adl_define s className properties stgs st2) (\<lambda>(NewClass, st3).
            bnd (mixin_static (VRef NewClass) (dao_static da) st3) (\<lambda>st4.
            bnd (mixin_proto (VRef NewClass) (dao_proto da) st4) (\<lambda>st5.
              case srcs st5 s of
                None \<Rightarrow> Inl (TypeError ''Cannot read property of undefined'')
              | Some sc \<Rightarrow>
                  (case adapter sc of
                     None \<Rightarrow> Inr (VRef NewClass, st5)
                   | Some a \<Rightarrow>
                       if ''define'' \<in> set (ops a)
                       then Inr (VRef NewClass,
                              adapter_notify s ''define'' [VRef NewClass, properties, stgs] st5)
                       else Inl (TypeError ''adapter.define is not a function'')))))))"

text \<open>\<^verbatim>\<open>DataSource.prototype.defineProperty\<close> (lines 222-228).\<close>

definition defineProperty :: "nat \<Rightarrow> string \<Rightarrow> string \<Rightarrow> val \<Rightarrow> state \<Rightarrow> error + state" where
  "defineProperty s model prp params st =
     bnd (adl_defineProperty s model prp params st) (\<lambda>st1.
       case srcs st1 s of
         None \<Rightarrow> Inl (TypeError ''Cannot read property of undefined'')
       | Some sc \<Rightarrow>
           (case adapter sc of
              None \<Rightarrow> Inl (TypeError ''Cannot read property defineProperty of undefined'')
            | Some a \<Rightarrow>
                if ''defineProperty'' \<in> set (ops a)
                then Inr (adapter_notify s ''defineProperty'' [VStr model, VStr prp, params] st1)
                else Inr st1))"

text \<open>\<^verbatim>\<open>DataSource.prototype.freeze\<close> (lines 370-374).\<close>

definition freeze :: "nat \<Rightarrow> state \<Rightarrow> error + state" where
  "freeze s st =
     (case srcs st s of
        None \<Rightarrow> Inl (TypeError ''Cannot read property of undefined'')
      | Some sc \<Rightarrow>
          (case adapter sc of
             None \<Rightarrow> Inl (TypeError ''Cannot read property freezeSchema of undefined'')
           | Some a \<Rightarrow>
               if ''freezeSchema'' \<in> set (ops a)
               then Inr (adapter_notify s ''freezeSchema'' [] st)
               else Inr st))"

text \<open>
  The migration and discovery operations (lines 236-355). After \<^verbatim>\<open>this.freeze()\<close> the
  adapter is there, or \<open>freeze\<close> has thrown.
\<close>

definition automigrate :: "nat \<Rightarrow> val \<Rightarrow> state \<Rightarrow> error + state" where
  "automigrate s cb st =
     bnd (freeze s st) (\<lambda>st1.
       case Option.bind (srcs st1 s) adapter of
         None \<Rightarrow> Inl (TypeError ''Cannot read property automigrate of undefined'')
       | Some a \<Rightarrow>
           if ''automigrate'' \<in> set (ops a) then adapter_request a s ''automigrate'' [cb] st1
           else if truthy cb then call_fn cb [] st1
           else Inr st1)"

definition autoupdate :: "nat \<Rightarrow> val \<Rightarrow> state \<Rightarrow> error + state" where
  "autoupdate s cb st =
     bnd (freeze s st) (\<lambda>st1.
       case Option.bind (srcs st1 s) adapter of
         None \<Rightarrow> Inl (TypeError ''Cannot read property autoupdate of undefined'')
       | Some a \<Rightarrow>
           if ''autoupdate'' \<in> set (ops a) then adapter_request a s ''autoupdate'' [cb] st1
           else if truthy cb then call_fn cb [] st1
           else Inr st1)"

definition discoverModels :: "nat \<Rightarrow> val \<Rightarrow> val \<Rightarrow> state \<Rightarrow> error + state" where
  "discoverModels s options cb st =
     bnd (freeze s st) (\<lambda>st1.
       case Option.bind (srcs st1 s) adapter of
         None \<Rightarrow> Inl (TypeError ''Cannot read property discoverModels of undefined'')
       | Some a \<Rightarrow>
           if ''discoverModels'' \<in> set (ops a)
           then adapter_request a s ''discoverModels'' [options, cb] st1
           else if truthy cb then call_fn cb [] st1
           else Inr st1)"

definition discoverModelProperties :: "nat \<Rightarrow> val \<Rightarrow> val \<Rightarrow> state \<Rightarrow> error + state" where
  "discoverModelProperties s options cb st =
     bnd (freeze s st) (\<lambda>st1.
       case Option.bind (srcs st1 s) adapter of
         None \<Rightarrow> Inl (TypeError ''Cannot read property discoverModelProperties of undefined'')
       | Some a \<Rightarrow>
           if ''discoverModelProperties'' \<in> set (ops a)
           then adapter_request a s ''discoverModelProperties'' [options, cb] st1
           else if truthy cb then call_fn cb [] st1
           else Inr st1)"

definition discoverPrimaryKeys :: "nat \<Rightarrow> val \<Rightarrow> val \<Rightarrow> val \<Rightarrow> state \<Rightarrow> error + state" where
  "discoverPrimaryKeys s owner table cb st =
     bnd (freeze s st) (\<lambda>st1.
       case Option.bind (srcs st1 s) adapter of
         None \<Rightarrow> Inl (TypeError ''Cannot read property discoverPrimaryKeys of undefined'')
       | Some a \<Rightarrow>
           if ''discoverPrimaryKeys'' \<in> set (ops a)
           then adapter_request a s ''discoverPrimaryKeys'' [owner, table, cb] st1
           else if truthy cb then call_fn cb [] st1
           else Inr st1)"

definition discoverForeignKeys :: "nat \<Rightarrow> val \<Rightarrow> val \<Rightarrow> val \<Rightarrow> state \<Rightarrow> error + state" where
  "discoverForeignKeys s owner table cb st =
     bnd (freeze s st) (\<lambda>st1.
       case Option.bind (srcs st1 s) adapter of
         None \<Rightarrow> Inl (TypeError ''Cannot read property discoverForeignKeys of undefined'')
       | Some a \<Rightarrow>
           if ''discoverForeignKeys'' \<in> set (ops a)
           then adapter_request a s ''discoverForeignKeys'' [owner, table, cb] st1
           else if truthy cb then call_fn cb [] st1
           else Inr st1)"

definition isActual :: "nat \<Rightarrow> val \<Rightarrow> state \<Rightarrow> error + state" where
  "isActual s cb st =
     bnd (freeze s st) (\<lambda>st1.
       case Option.bind (srcs st1 s) adapter of
         None \<Rightarrow> Inl (TypeError ''Cannot read property isActual of undefined'')
       | Some a \<Rightarrow>
           if ''isActual'' \<in> set (ops a) then adapter_request a s ''isActual'' [cb] st1
           else if truthy cb then call_fn cb [VNull, VBool True] st1
           else Inr st1)"

text \<open>\<^verbatim>\<open>DataSource.prototype.log\<close> (lines 363-365).\<close>

definition log :: "nat \<Rightarrow> val \<Rightarrow> val \<Rightarrow> state \<Rightarrow> state" where
  "log s sql t st = log_event (Emit s ''log'' [sql, t]) st"

text \<open>\<^verbatim>\<open>DataSource.prototype.tableName\<close> (lines 380-382).\<close>

definition tableName :: "nat \<Rightarrow> string \<Rightarrow> state \<Rightarrow> error + (val \<times> state)" where
  "tableName s modelName st =
     (case srcs st s of
        None \<Rightarrow> Inl (TypeError ''Cannot read property of undefined'')
      | Some sc \<Rightarrow>
          bnd (member st (js_get (objs st) (definitions sc) modelName) ''settings'') (\<lambda>stgs.
          bnd (member st stgs ''table'') (\<lambda>table.
            let v = (if truthy table then table else VStr modelName)
            in bnd (assign st stgs ''table'' v) (\<lambda>st1. Inr (v, st1)))))"

text \<open>\<^verbatim>\<open>DataSource.prototype.defineForeignKey\<close> (lines 389-411).\<close>

definition registerProperty :: "nat \<Rightarrow> string \<Rightarrow> string \<Rightarrow> state \<Rightarrow> error + state" where
  "registerProperty s className key st =
     (case srcs st s of
        None \<Rightarrow> Inl (TypeError ''Cannot read property of undefined'')
      | Some sc \<Rightarrow>
          bnd (member st (js_get (objs st) (models sc) className) ''registerProperty'') (\<lambda>f.
            call_fn f [VStr key] st))"

definition defineForeignKey :: "nat \<Rightarrow> string \<Rightarrow> string \<Rightarrow> val \<Rightarrow> state \<Rightarrow> error + state" where
  "defineForeignKey s className key foreignClassName st =
     (case srcs st s of
        None \<Rightarrow> Inl (TypeError ''Cannot read property of undefined'')
      | Some sc \<Rightarrow>
          bnd (member st (js_get (objs st) (definitions sc) className) ''properties'') (\<lambda>ps.
          bnd (member st ps key) (\<lambda>existing.
            if truthy existing then Inr st
            else
              (case adapter sc of
                 None \<Rightarrow> Inl (TypeError ''Cannot read property defineForeignKey of undefined'')
               | Some a \<Rightarrow>
                   bnd (if ''defineForeignKey'' \<in> set (ops a)
                        then (let cb = VFun (ForeignKeyDone s className key)
                              in if fk_arity a = 4
                                 then adapter_request a s ''defineForeignKey''
                                        [VStr className, VStr key, foreignClassName, cb] st
                                 else adapter_request a s ''defineForeignKey''
                                        [VStr className, VStr key, cb] st)
                        else set_key_type s className key (VBuiltin ''Number'') st)
                     (registerProperty s className key)))))"

text \<open>\<^verbatim>\<open>DataSource.prototype.disconnect\<close> (lines 416-423).\<close>

definition disconnect :: "nat \<Rightarrow> val \<Rightarrow> state \<Rightarrow> error + state" where
  "disconnect s cb st =
     (case srcs st s of
        None \<Rightarrow> Inl (TypeError ''Cannot read property of undefined'')
      | Some sc \<Rightarrow>
          (case adapter sc of
             None \<Rightarrow> Inl (TypeError ''Cannot read property disconnect of undefined'')
           | Some a \<Rightarrow>
               if ''disconnect'' \<in> set (ops a)
               then adapter_request a s ''disconnect'' [cb]
                      (upd_source s (\<lambda>sc. sc\<lparr>connected := False\<rparr>) st)
               else if truthy cb then call_fn cb [] st
               else Inr st))"


section \<open>The transaction\<close>

text \<open>
  \<^verbatim>\<open>DataSource.prototype.copyModel\<close> (lines 425-462), with \<open>schema\<close> the DataSource or
  transaction context it is called on, in the two parts the source has: the new type
  \<^verbatim>\<open>Slave\<close> with its hidden properties (lines 429-440), and the block that stores it
  when the name is not yet in \<^verbatim>\<open>schema.models\<close> (lines 442-459). \<^verbatim>\<open>md.properties\<close>
  is read only inside that block, so a missing descriptor throws only there.
\<close>

definition copyModel_slave :: "nat \<Rightarrow> val \<Rightarrow> val \<Rightarrow> state \<Rightarrow> error + (nat \<times> state)" where
  "copyModel_slave schema Master className st =
     (let (Slave, st1) = new_function ''SlaveModel'' st
      in bnd (inherits Slave Master st1) (\<lambda>st2.
         bnd (assign st2 (VRef Slave) ''__proto__'' Master) (\<lambda>st3.
         bnd (hiddenProperty Slave ''schema'' (VSource schema) st3) (\<lambda>st4.
         bnd (hiddenProperty Slave ''modelName'' className st4) (\<lambda>st5.
         bnd (member st5 Master ''relations'') (\<lambda>rel.
         bnd (hiddenProperty Slave ''relations'' rel st5) (\<lambda>st6.
           Inr (Slave, st6))))))))"

definition copyModel_store :: "nat \<Rightarrow> nat \<Rightarrow> val \<Rightarrow> val \<Rightarrow> state \<Rightarrow> error + state" where
  "copyModel_store schema Slave className md st =
     (case srcs st schema of
        None \<Rightarrow> Inl (TypeError ''Cannot read property of undefined'')
      | Some sc \<Rightarrow>
          if js_has (objs st) (models sc) (to_key className) then Inr st
          else
            bnd (assign st (VRef (models sc)) (to_key className) (VRef Slave)) (\<lambda>st7.
            bnd (member st7 md ''properties'') (\<lambda>ps.
            bnd (member st7 md ''settings'') (\<lambda>stgs.
              let (d, st8) = new_object [(''properties'', ps), (''settings'', stgs)] st7
              in bnd (assign st8 (VRef (definitions sc)) (to_key className) (VRef d)) (\<lambda>st9.
                   if isTransaction sc then Inr st9
                   else
                     (case adapter sc of
                        None \<Rightarrow> Inl (TypeError ''Cannot read property define of undefined'')
                      | Some a \<Rightarrow>
                          if ''define'' \<in> set (ops a)
                          then Inr (adapter_notify schema ''define'' [VRef Slave, ps, stgs] st9)
                          else Inl (TypeError ''adapter.define is not a function'')))))))"

definition copyModel :: "nat \<Rightarrow> val \<Rightarrow> state \<Rightarrow> error + (nat \<times> state)" where
  "copyModel schema Master st =
     bnd (member st Master ''modelName'') (\<lambda>className.
     bnd (member st Master ''schema'') (\<lambda>mschema.
     bnd (member st mschema ''definitions'') (\<lambda>defs.
     bnd (member st defs (to_key className)) (\<lambda>md.
     bnd (copyModel_slave schema Master className st) (\<lambda>(Slave, st6).
     bnd (copyModel_store schema Slave className md st6) (\<lambda>st9.
       Inr (Slave, st9)))))))"

text \<open>
  \<^verbatim>\<open>DataSource.prototype.transaction\<close> (lines 464-490). \<open>txa\<close> is what the adapter's
  \<^verbatim>\<open>transaction()\<close> returns. The loop reads \<^verbatim>\<open>schema.models[i]\<close> for the keys a
  \<^verbatim>\<open>for ... in\<close> over the parent's \<^verbatim>\<open>models\<close> visits.
\<close>

fun transaction_loop :: "nat \<Rightarrow> nat \<Rightarrow> string list \<Rightarrow> state \<Rightarrow> error + state" where
  "transaction_loop t pm [] st = Inr st"
| "transaction_loop t pm (i # is) st =
     bnd (copyModel t (js_get (objs st) pm i) st) (\<lambda>(Slave, st1). transaction_loop t pm is st1)"

definition transaction :: "nat \<Rightarrow> adapter option \<Rightarrow> state \<Rightarrow> error + (nat \<times> state)" where
  "transaction schema txa st =
     (case srcs st schema of
        None \<Rightarrow> Inl (TypeError ''Cannot read property of undefined'')
      | Some sc \<Rightarrow>
          (case adapter sc of
             None \<Rightarrow> Inl (TypeError ''Cannot read property transaction of undefined'')
           | Some a \<Rightarrow>
               if ''transaction'' \<notin> set (ops a)
               then Inl (TypeError ''adapter.transaction is not a function'')
               else
                 (let st1 = adapter_notify schema ''transaction'' [] st;
                      (m, st2) = new_object [] st1;
                      (d, st3) = new_object [] st2;
                      t = snext st3;
                      st4 = st3\<lparr>srcs := (srcs st3)(t \<mapsto>
                               \<lparr>sname = sname sc, settings = settings sc, connected = False,
                                connecting = False, adapter = txa, models = m, definitions = d,
                                isTransaction = True, origin = Some schema,
                                has_connect = False\<rparr>),
                             snext := Suc t\<rparr>
                  in bnd (transaction_loop t (models sc) (for_in (objs st4) (models sc)) st4)
                       (\<lambda>st5. Inr (t, upd_source t (\<lambda>tx. tx\<lparr>has_connect := has_connect sc\<rparr>) st5)))))"

text \<open>\<^verbatim>\<open>transaction.exec\<close> (lines 485-487), the member of a transaction context.\<close>

definition exec :: "nat \<Rightarrow> val \<Rightarrow> state \<Rightarrow> error + state" where
  "exec t cb st =
     (case Option.bind (srcs st t) adapter of
        None \<Rightarrow> Inl (TypeError ''Cannot read property exec of undefined'')
      | Some a \<Rightarrow>
          if ''exec'' \<in> set (ops a) then adapter_request a t ''exec'' [cb] st
          else Inl (TypeError ''adapter.exec is not a function''))"


text \<open>
  A call \<^verbatim>\<open>x.define(className, properties, settings)\<close> on a DataSource or a transaction
  context \<open>x\<close>. A DataSource finds \<^verbatim>\<open>define\<close> on \<^verbatim>\<open>DataSource.prototype\<close> (line 182).
  A transaction context is \<^verbatim>\<open>new EventEmitter\<close> (line 466) with the members that lines
  467-487 assign, \<^verbatim>\<open>connect\<close> and \<^verbatim>\<open>exec\<close> the only functions among them: it has no
  \<^verbatim>\<open>define\<close>, and the call throws.
\<close>

definition call_define :: "dao \<Rightarrow> nat \<Rightarrow> string \<Rightarrow> val \<Rightarrow> val \<Rightarrow> state \<Rightarrow> error + (val \<times> state)" where
  "call_define da x className ps sg st =
     (case srcs st x of
        None \<Rightarrow> Inl (TypeError ''Cannot read property of undefined'')
      | Some sc \<Rightarrow>
          if isTransaction sc then Inl (TypeError ''transaction.define is not a function'')
          else define' da x className ps sg st)"


section \<open>The discovery pattern in the spec's words\<close>

text \<open>
  Section 4.4 of the spec as a list of events: the schema is frozen first (the adapter's
  hook is called when it has one), then the request goes to the adapter's operation of
  the same name when it has one (and the adapter may answer at once), else the
  completion is called with the default arguments.
\<close>

definition freeze_events :: "adapter \<Rightarrow> nat \<Rightarrow> event list" where
  "freeze_events a s =
     (if ''freezeSchema'' \<in> set (ops a) then [AdapterCall s ''freezeSchema'' []] else [])"

definition reply_events :: "adapter \<Rightarrow> string \<Rightarrow> val \<Rightarrow> event list" where
  "reply_events a opn cb =
     (case map_of (replies a) opn of None \<Rightarrow> [] | Some r \<Rightarrow> [Invoke cb r])"

definition delegate_events ::
    "adapter \<Rightarrow> nat \<Rightarrow> string \<Rightarrow> val list \<Rightarrow> val list \<Rightarrow> val \<Rightarrow> event list" where
  "delegate_events a s opn args dflt cb =
     freeze_events a s @
     (if opn \<in> set (ops a) then AdapterCall s opn (args @ [cb]) # reply_events a opn cb
      else [Invoke cb dflt])"

section \<open>The objects and predicates of the statements\<close>

text \<open>
  The objects that the constructors of the module build, written out, and what the theorems
  say about a registry: its own keys, the descriptor of an own property, the objects on a
  prototype chain, and the relation between a registry and the registry of a transaction.
\<close>

text \<open>
  The function object that \<^verbatim>\<open>copyModel\<close> leaves for \<^verbatim>\<open>Slave\<close> (lines 429-440): the
  three members of a new function, \<^verbatim>\<open>super_\<close> from \<^verbatim>\<open>util.inherits\<close>, the three hidden
  properties, and \<open>Master\<close> as its prototype.
\<close>

definition slave_object :: "nat \<Rightarrow> nat \<Rightarrow> val \<Rightarrow> nat \<Rightarrow> val \<Rightarrow> jsobj" where
  "slave_object schema M className p rel =
     \<lparr>props =
        [(''length'', \<lparr>pvalue = VNum 0, writable = False, enumerable = False, configurable = True\<rparr>),
         (''name'', \<lparr>pvalue = VStr ''SlaveModel'', writable = False, enumerable = False,
            configurable = True\<rparr>),
         (''prototype'', \<lparr>pvalue = VRef p, writable = True, enumerable = False,
            configurable = False\<rparr>),
         (''super_'', plain (VRef M)),
         (''schema'', \<lparr>pvalue = VSource schema, writable = False, enumerable = False,
            configurable = False\<rparr>),
         (''modelName'', \<lparr>pvalue = className, writable = False, enumerable = False,
            configurable = False\<rparr>),
         (''relations'', \<lparr>pvalue = rel, writable = False, enumerable = False,
            configurable = False\<rparr>)],
      oproto = ProtoRef M\<rparr>"

text \<open>
  The \<^verbatim>\<open>prototype\<close> object of a function \<open>f\<close>, and the object literal
  \<^verbatim>\<open>{properties: ps, settings: sg}\<close> of a descriptor.
\<close>

definition constructor_object :: "nat \<Rightarrow> proto \<Rightarrow> jsobj" where
  "constructor_object f pr =
     \<lparr>props = [(''constructor'',
         \<lparr>pvalue = VRef f, writable = True, enumerable = False, configurable = True\<rparr>)],
      oproto = pr\<rparr>"

definition descriptor_object :: "val \<Rightarrow> val \<Rightarrow> jsobj" where
  "descriptor_object ps sg =
     \<lparr>props = [(''properties'', plain ps), (''settings'', plain sg)], oproto = ObjectProto\<rparr>"

text \<open>
  The invariant of the loop of \<^verbatim>\<open>transaction\<close>, after the names \<open>ds\<close> have been copied:
  \<open>H\<close> is the heap before the call and \<open>N\<close> its size, \<open>pdefs\<close> the parent's
  \<^verbatim>\<open>definitions\<close>, \<open>m\<close> and \<open>d\<close> the context's \<^verbatim>\<open>models\<close> and \<^verbatim>\<open>definitions\<close>. The
  old objects are as they were, the two mappings have the own keys \<open>ds\<close>, and each name
  with a descriptor \<open>pd\<close> in the parent has a new descriptor \<open>D\<close> with the values of the
  members of \<open>pd\<close>. \<open>reg_in\<close> is what the loop needs of a name it has yet to copy.
\<close>

definition tx_inv :: "heap \<Rightarrow> nat \<Rightarrow> nat \<Rightarrow> nat \<Rightarrow> nat \<Rightarrow> string list \<Rightarrow> state \<Rightarrow> bool" where
  "tx_inv H N pdefs m d ds st \<longleftrightarrow>
     m < onext st \<and> d < onext st \<and> (\<forall>a<N. objs st a = H a) \<and>
     (\<exists>mob. objs st m = Some mob \<and> oproto mob = ObjectProto \<and> map fst (props mob) = ds) \<and>
     (\<exists>dob. objs st d = Some dob \<and> oproto dob = ObjectProto \<and> map fst (props dob) = ds \<and>
        (\<forall>k\<in>set ds. \<forall>pd. js_get H pdefs k = VRef pd \<longrightarrow>
           (\<exists>D. map_of (props dob) k = Some (plain (VRef D)) \<and> N \<le> D \<and> D \<noteq> m \<and> D \<noteq> d \<and>
                D < onext st \<and>
                objs st D = Some (descriptor_object (js_get H pd ''properties'')
                                    (js_get H pd ''settings'')))))"

definition reg_in :: "heap \<Rightarrow> nat \<Rightarrow> nat \<Rightarrow> nat \<Rightarrow> nat \<Rightarrow> string \<Rightarrow> bool" where
  "reg_in H N p pm pdefs k \<longleftrightarrow>
     (\<exists>M pr pd. js_get H pm k = VRef M \<and> M < N \<and> js_get H M ''modelName'' = VStr k \<and>
        js_get H M ''schema'' = VSource p \<and>
        proto_of_val (js_get H M ''prototype'') = Some pr \<and>
        js_get H pdefs k = VRef pd \<and> pd < N \<and> object_prototype k = Missing)"

text \<open>
  The own keys of an object, in insertion order. A name \<open>k\<close> is registered in the
  DataSource \<open>p\<close> when \<^verbatim>\<open>models[k]\<close> is a type with that \<^verbatim>\<open>modelName\<close>, that
  \<^verbatim>\<open>schema\<close> and a \<^verbatim>\<open>prototype\<close>, and \<^verbatim>\<open>definitions[k]\<close> is an object. A registry
  is well formed when it is as calls of \<^verbatim>\<open>define\<close> leave it: \<^verbatim>\<open>models\<close> is a plain
  object whose own properties are enumerable and registered, and no name is the name of a
  member of \<^verbatim>\<open>Object.prototype\<close>.
\<close>

definition own_keys :: "heap \<Rightarrow> nat \<Rightarrow> string list" where
  "own_keys h a = (case h a of None \<Rightarrow> [] | Some ob \<Rightarrow> map fst (props ob))"

definition registered :: "state \<Rightarrow> nat \<Rightarrow> string \<Rightarrow> bool" where
  "registered st p k =
     (case srcs st p of
        None \<Rightarrow> False
      | Some sc \<Rightarrow>
          (case js_get (objs st) (models sc) k of
             VRef M \<Rightarrow>
               M < onext st \<and> js_get (objs st) M ''modelName'' = VStr k \<and>
               js_get (objs st) M ''schema'' = VSource p \<and>
               proto_of_val (js_get (objs st) M ''prototype'') \<noteq> None \<and>
               (case js_get (objs st) (definitions sc) k of
                  VRef pd \<Rightarrow> pd < onext st
                | _ \<Rightarrow> False)
           | _ \<Rightarrow> False))"

definition registry_wf :: "state \<Rightarrow> nat \<Rightarrow> bool" where
  "registry_wf st p =
     (case srcs st p of
        None \<Rightarrow> False
      | Some sc \<Rightarrow>
          p < snext st \<and> models sc < onext st \<and> definitions sc < onext st \<and>
          (case objs st (models sc) of
             None \<Rightarrow> False
           | Some mob \<Rightarrow>
               oproto mob = ObjectProto \<and> distinct (map fst (props mob)) \<and>
               list_all (\<lambda>(k, pd). enumerable pd \<and> object_prototype k = Missing \<and>
                           registered st p k) (props mob)))"

text \<open>
  The descriptor of an own property (\<^verbatim>\<open>Object.getOwnPropertyDescriptor\<close>), and the
  descriptor that \<^verbatim>\<open>hiddenProperty\<close> installs.
\<close>

definition own_desc :: "heap \<Rightarrow> nat \<Rightarrow> string \<Rightarrow> pdesc option" where
  "own_desc h a k = Option.bind (h a) (\<lambda>ob. map_of (props ob) k)"

definition hidden :: "val \<Rightarrow> pdesc" where
  "hidden v = \<lparr>pvalue = v, writable = False, enumerable = False, configurable = False\<rparr>"

text \<open>
  The objects on the prototype chain of \<open>a\<close>, the ones that \<open>lookup\<close> reads.
\<close>

function chain :: "heap \<Rightarrow> nat \<Rightarrow> nat list" where
  "chain h a =
     a # (case h a of
            None \<Rightarrow> []
          | Some ob \<Rightarrow>
              (case oproto ob of
                 ProtoRef b \<Rightarrow> if b < a then chain h b else []
               | _ \<Rightarrow> []))"
  by pat_completeness auto

termination
  by (relation "measure (\<lambda>(h, a). a)") auto

declare chain.simps [simp del]

text \<open>
  A function whose body is not part of the module: calling it is recorded, nothing more.
\<close>

fun opaque :: "val \<Rightarrow> bool" where
  "opaque (VBuiltin n) = True"
| "opaque (VFun (UserFn n)) = True"
| "opaque v = False"



definition fk_args :: "adapter \<Rightarrow> string \<Rightarrow> string \<Rightarrow> val \<Rightarrow> val \<Rightarrow> val list" where
  "fk_args a className key foreignClassName cb =
     (if fk_arity a = 4 then [VStr className, VStr key, foreignClassName, cb]
      else [VStr className, VStr key, cb])"

text \<open>
  The object literal \<^verbatim>\<open>{}\<close>, and the function object that \<^verbatim>\<open>define\<close> leaves for a
  new type when no data access object is mixed in.
\<close>

definition empty_object :: jsobj where
  "empty_object = \<lparr>props = [], oproto = ObjectProto\<rparr>"

definition class_object :: "nat \<Rightarrow> string \<Rightarrow> nat \<Rightarrow> nat \<Rightarrow> jsobj" where
  "class_object s className p rel =
     \<lparr>props =
        [(''length'', \<lparr>pvalue = VNum 0, writable = False, enumerable = False, configurable = True\<rparr>),
         (''name'', \<lparr>pvalue = VStr ''ModelConstructor'', writable = False, enumerable = False,
            configurable = True\<rparr>),
         (''prototype'', \<lparr>pvalue = VRef p, writable = True, enumerable = False,
            configurable = False\<rparr>),
         (''schema'', hidden (VSource s)),
         (''modelName'', hidden (VStr className)),
         (''relations'', hidden (VRef rel)),
         (''registerProperty'', plain (VBuiltin ''registerProperty''))],
      oproto = FunctionProto\<rparr>"

section \<open>Example inputs\<close>

definition init_state :: state where
  "init_state =
     \<lparr>objs = (\<lambda>a. None), onext = 0, srcs = (\<lambda>s. None), snext = 0, trace = [], ticks = []\<rparr>"

definition no_loader :: loader where
  "no_loader = \<lparr>absolute = [], builtin = [], foreign = []\<rparr>"

definition no_dao :: dao where
  "no_dao = \<lparr>dao_static = [], dao_proto = []\<rparr>"

text \<open>The state an operation leaves (the initial state when it throws).\<close>

definition after :: "error + ('a \<times> state) \<Rightarrow> state" where
  "after r = (case r of Inl e \<Rightarrow> init_state | Inr (x, st) \<Rightarrow> st)"

text \<open>\<^verbatim>\<open>new DataSource('nosuch')\<close> where no adapter of that name is installed.\<close>

definition adapterless :: state where
  "adapterless = after (DataSource no_loader (Named ''nosuch'') VUndefined init_state)"

text \<open>\<^verbatim>\<open>define('User', {name: 'string'})\<close> on it: the object literal, then the call.\<close>

definition user_props :: "nat \<times> state" where
  "user_props = new_object [(''name'', VStr ''string'')] adapterless"

definition adapterless_user :: state where
  "adapterless_user =
     after (define' no_dao 0 ''User'' (VRef (fst user_props)) VUndefined (snd user_props))"

text \<open>
  A stub backend that implements only \<^verbatim>\<open>initialize\<close> and \<^verbatim>\<open>define\<close>, passed as a
  handle; \<open>stub_live\<close> is its adapter once \<^verbatim>\<open>setup\<close> has installed the two loggers.
\<close>

definition stub_adapter :: adapter where
  "stub_adapter = \<lparr>ops = [''define''], fk_arity = 0, replies = []\<rparr>"

definition stub_module :: backend_module where
  "stub_module = \<lparr>mname = VStr ''stub'', installs = Some stub_adapter, init_sync = True\<rparr>"

definition stub_live :: adapter where
  "stub_live = \<lparr>ops = [''define'', ''log'', ''logger''], fk_arity = 0, replies = []\<rparr>"

definition stub_source :: source where
  "stub_source =
     \<lparr>sname = VStr ''stub'', settings = VUndefined, connected = True, connecting = False,
      adapter = Some stub_live, models = 0, definitions = 1, isTransaction = False,
      origin = None, has_connect = True\<rparr>"

definition stub_state :: state where
  "stub_state = after (DataSource no_loader (Handle stub_module) VUndefined init_state)"

text \<open>A backend with a \<^verbatim>\<open>connect\<close> that completes later.\<close>

definition net_adapter :: adapter where
  "net_adapter = \<lparr>ops = [''define'', ''connect''], fk_arity = 0, replies = []\<rparr>"

definition net_module :: backend_module where
  "net_module = \<lparr>mname = VStr ''net'', installs = Some net_adapter, init_sync = True\<rparr>"

definition net_live :: adapter where
  "net_live = \<lparr>ops = [''define'', ''connect'', ''log'', ''logger''], fk_arity = 0, replies = []\<rparr>"

definition net_source :: source where
  "net_source =
     \<lparr>sname = VStr ''net'', settings = VUndefined, connected = True, connecting = False,
      adapter = Some net_live, models = 0, definitions = 1, isTransaction = False,
      origin = None, has_connect = True\<rparr>"

definition net_state :: state where
  "net_state = after (DataSource no_loader (Handle net_module) VUndefined init_state)"

text \<open>
  A DataSource over a backend with \<^verbatim>\<open>define\<close>, \<^verbatim>\<open>transaction\<close> and \<^verbatim>\<open>defineForeignKey\<close>, after
  \<^verbatim>\<open>define('A')\<close> and \<^verbatim>\<open>define('B')\<close>: the heap, the source and the state, written out.
\<close>

definition ab_heap :: heap where
  "ab_heap = (\<lambda>a. None)
     (0 \<mapsto> \<lparr>props = [(''A'', plain (VRef 5)), (''B'', plain (VRef 11))], oproto = ObjectProto\<rparr>,
      1 \<mapsto> \<lparr>props = [(''A'', plain (VRef 7)), (''B'', plain (VRef 13))], oproto = ObjectProto\<rparr>,
      2 \<mapsto> empty_object,
      3 \<mapsto> empty_object,
      4 \<mapsto> constructor_object 5 ObjectProto,
      5 \<mapsto> class_object 0 ''A'' 4 6,
      6 \<mapsto> empty_object,
      7 \<mapsto> descriptor_object (VRef 2) (VRef 3),
      8 \<mapsto> empty_object,
      9 \<mapsto> empty_object,
      10 \<mapsto> constructor_object 11 ObjectProto,
      11 \<mapsto> class_object 0 ''B'' 10 12,
      12 \<mapsto> empty_object,
      13 \<mapsto> descriptor_object (VRef 8) (VRef 9))"

definition ab_source :: "adapter \<Rightarrow> source" where
  "ab_source a =
     \<lparr>sname = VStr ''db'', settings = VUndefined, connected = True, connecting = False,
      adapter = Some a, models = 0, definitions = 1, isTransaction = False, origin = None,
      has_connect = True\<rparr>"

definition ab_state :: "adapter \<Rightarrow> state" where
  "ab_state a =
     \<lparr>objs = ab_heap, onext = 14, srcs = (\<lambda>s. None)(0 \<mapsto> ab_source a), snext = 1,
      trace = [AdapterCall 0 ''initialize'' [VSource 0, VFun (InitializeDone 0)],
               Emit 0 ''connected'' [],
               AdapterCall 0 ''define'' [VRef 5, VRef 2, VRef 3],
               AdapterCall 0 ''define'' [VRef 11, VRef 8, VRef 9]],
      ticks = []\<rparr>"

definition db_adapter :: adapter where
  "db_adapter = \<lparr>ops = [''define'', ''transaction'', ''defineForeignKey''], fk_arity = 3, replies = []\<rparr>"

definition db_module :: backend_module where
  "db_module = \<lparr>mname = VStr ''db'', installs = Some db_adapter, init_sync = True\<rparr>"

definition db_live :: adapter where
  "db_live = \<lparr>ops = [''define'', ''transaction'', ''defineForeignKey'', ''log'', ''logger''],
     fk_arity = 3, replies = []\<rparr>"

definition db_base :: state where
  "db_base =
     \<lparr>objs = (\<lambda>a. None)(0 \<mapsto> empty_object, 1 \<mapsto> empty_object), onext = 2,
      srcs = (\<lambda>s. None)(0 \<mapsto> ab_source db_live), snext = 1,
      trace = [AdapterCall 0 ''initialize'' [VSource 0, VFun (InitializeDone 0)],
               Emit 0 ''connected'' []],
      ticks = []\<rparr>"

definition a_state :: state where
  "a_state =
     \<lparr>objs = (\<lambda>a. None)
        (0 \<mapsto> \<lparr>props = [(''A'', plain (VRef 5))], oproto = ObjectProto\<rparr>,
         1 \<mapsto> \<lparr>props = [(''A'', plain (VRef 7))], oproto = ObjectProto\<rparr>,
         2 \<mapsto> empty_object,
         3 \<mapsto> empty_object,
         4 \<mapsto> constructor_object 5 ObjectProto,
         5 \<mapsto> class_object 0 ''A'' 4 6,
         6 \<mapsto> empty_object,
         7 \<mapsto> descriptor_object (VRef 2) (VRef 3)),
      onext = 8, srcs = (\<lambda>s. None)(0 \<mapsto> ab_source db_live), snext = 1,
      trace = [AdapterCall 0 ''initialize'' [VSource 0, VFun (InitializeDone 0)],
               Emit 0 ''connected'' [],
               AdapterCall 0 ''define'' [VRef 5, VRef 2, VRef 3]],
      ticks = []\<rparr>"

text \<open>
  The state after \<^verbatim>\<open>transaction()\<close> on it, with \<open>txa\<close> what the adapter's
  \<^verbatim>\<open>transaction()\<close> returned: the context is source 1, its \<^verbatim>\<open>models\<close> and
  \<^verbatim>\<open>definitions\<close> are the objects 14 and 15, the copied types 17 and 21, and the new
  descriptors 19 and 23.
\<close>

definition ab_tx_heap :: heap where
  "ab_tx_heap = ab_heap
     (14 \<mapsto> \<lparr>props = [(''A'', plain (VRef 17)), (''B'', plain (VRef 21))], oproto = ObjectProto\<rparr>,
      15 \<mapsto> \<lparr>props = [(''A'', plain (VRef 19)), (''B'', plain (VRef 23))], oproto = ObjectProto\<rparr>,
      16 \<mapsto> constructor_object 17 ObjectProto,
      17 \<mapsto> slave_object 1 5 (VStr ''A'') 18 (VRef 6),
      18 \<mapsto> constructor_object 17 (ProtoRef 4),
      19 \<mapsto> descriptor_object (VRef 2) (VRef 3),
      20 \<mapsto> constructor_object 21 ObjectProto,
      21 \<mapsto> slave_object 1 11 (VStr ''B'') 22 (VRef 12),
      22 \<mapsto> constructor_object 21 (ProtoRef 10),
      23 \<mapsto> descriptor_object (VRef 8) (VRef 9))"

definition ab_tx_source :: "adapter option \<Rightarrow> source" where
  "ab_tx_source txa =
     \<lparr>sname = VStr ''db'', settings = VUndefined, connected = False, connecting = False,
      adapter = txa, models = 14, definitions = 15, isTransaction = True, origin = Some 0,
      has_connect = True\<rparr>"

definition ab_tx_state :: "adapter option \<Rightarrow> state" where
  "ab_tx_state txa =
     \<lparr>objs = ab_tx_heap, onext = 24,
      srcs = (\<lambda>s. None)(0 \<mapsto> ab_source db_live, 1 \<mapsto> ab_tx_source txa), snext = 2,
      trace = trace (ab_state db_live) @ [AdapterCall 0 ''transaction'' []],
      ticks = []\<rparr>"

text \<open>
  The state inside that \<^verbatim>\<open>transaction()\<close> when the context has its two empty mappings
  and the loop over the parent's types has not started.
\<close>

definition ab_tx_open :: "adapter option \<Rightarrow> state" where
  "ab_tx_open txa =
     \<lparr>objs = ab_heap(14 \<mapsto> empty_object, 15 \<mapsto> empty_object), onext = 16,
      srcs = (\<lambda>s. None)(0 \<mapsto> ab_source db_live,
                          1 \<mapsto> (ab_tx_source txa)\<lparr>has_connect := False\<rparr>),
      snext = 2,
      trace = trace (ab_state db_live) @ [AdapterCall 0 ''transaction'' []],
      ticks = []\<rparr>"

text \<open>
  An adapter that has every operation and answers each at once, with the error
  \<^verbatim>\<open>'boom'\<close>.
\<close>

definition failing_live :: adapter where
  "failing_live =
     \<lparr>ops = [''define'', ''connect'', ''disconnect'', ''automigrate'', ''autoupdate'', ''isActual'',
             ''discoverModels'', ''discoverModelProperties'', ''discoverPrimaryKeys'',
             ''discoverForeignKeys'', ''exec'', ''defineForeignKey'', ''log'', ''logger''],
      fk_arity = 3,
      replies = map (\<lambda>opn. (opn, [VStr ''boom'']))
                  [''connect'', ''disconnect'', ''automigrate'', ''autoupdate'', ''isActual'',
                   ''discoverModels'', ''discoverModelProperties'', ''discoverPrimaryKeys'',
                   ''discoverForeignKeys'', ''exec'', ''defineForeignKey'']\<rparr>"

section \<open>Basic facts\<close>

declare lookup.simps [simp del] for_in.simps [simp del] dec.simps [simp del]

lemma bnd_Inl [simp]: "bnd (Inl e) f = Inl e"
  by (simp add: bnd_def)

lemma bnd_Inr [simp]: "bnd (Inr x) f = f x"
  by (simp add: bnd_def)

lemma upd_source_Some:
  "srcs st s = Some sc \<Longrightarrow> upd_source s f st = st\<lparr>srcs := (srcs st)(s \<mapsto> f sc)\<rparr>"
  by (simp add: upd_source_def)

lemmas eval_defs = init_state_def no_loader_def no_dao_def stub_adapter_def stub_module_def
  net_adapter_def net_module_def
  after_def DataSource_def ADL_def setup'_def new_object_def alloc_def upd_source_def
  log_event_def install_connect_def initialize_def Let_def

lemmas eval_more = eval_defs define'_def adl_define_def new_function_def hiddenProperty_def
  define_property_def assign_def js_set_def lookup.simps put_own_def object_prototype_def
  function_prototype_def object_prototype_keys_def function_prototype_keys_def

lemma stub_state_eq:
  "DataSource no_loader (Handle stub_module) VUndefined init_state = Inr (0, stub_state)"
  by (simp add: stub_state_def eval_defs)

lemma stub_state_src: "srcs stub_state 0 = Some stub_source"
  by (simp add: stub_state_def stub_source_def stub_live_def eval_defs)

lemma stub_state_rest: "trace stub_state = [AdapterCall 0 ''initialize'' [VSource 0, VFun (InitializeDone 0)], Emit 0 ''connected'' []]
    \<and> ticks stub_state = [] \<and> onext stub_state = 2 \<and> snext stub_state = 1"
  by (simp add: stub_state_def eval_defs)

lemma net_state_eq:
  "DataSource no_loader (Handle net_module) VUndefined init_state = Inr (0, net_state)"
  by (simp add: net_state_def eval_defs)

lemma net_state_src: "srcs net_state 0 = Some net_source"
  by (simp add: net_state_def net_source_def net_live_def eval_defs)

lemma freeze_live:
  "srcs st s = Some sc \<Longrightarrow> adapter sc = Some a \<Longrightarrow>
   freeze s st = Inr (st\<lparr>trace := trace st @ freeze_events a s\<rparr>)"
  by (simp add: freeze_def freeze_events_def adapter_notify_def log_event_def)

lemma request_user:
  "adapter_request a s opn (args @ [VFun (UserFn n)]) st =
   Inr (st\<lparr>trace := trace st @
          AdapterCall s opn (args @ [VFun (UserFn n)]) # reply_events a opn (VFun (UserFn n))\<rparr>)"
  by (simp add: adapter_request_def reply_events_def log_event_def arg_def Let_def
      split: option.splits)

section \<open>Symbolic execution of the primitives\<close>

lemma bnd_eq_Inr: "bnd m f = Inr y \<longleftrightarrow> (\<exists>x. m = Inr x \<and> f x = Inr y)"
  by (cases m) simp_all

lemma lookup_None: "h a = None \<Longrightarrow> lookup h a k = Missing"
  by (simp add: lookup.simps)

lemma lookup_own: "h a = Some ob \<Longrightarrow> map_of (props ob) k = Some p \<Longrightarrow> lookup h a k = Data p"
  by (simp add: lookup.simps)

lemma lookup_obj:
  "h a = Some ob \<Longrightarrow> map_of (props ob) k = None \<Longrightarrow> oproto ob = ObjectProto \<Longrightarrow>
   lookup h a k = object_prototype k"
  by (simp add: lookup.simps)

lemma lookup_fun:
  "h a = Some ob \<Longrightarrow> map_of (props ob) k = None \<Longrightarrow> oproto ob = FunctionProto \<Longrightarrow>
   lookup h a k = function_prototype k"
  by (simp add: lookup.simps)

lemma lookup_frame: "(\<And>b. b \<le> a \<Longrightarrow> h' b = h b) \<Longrightarrow> lookup h' a k = lookup h a k"
proof (induction h a k rule: lookup.induct)
  case (1 h a k)
  have eq: "h' a = h a" using "1.prems" by simp
  show ?case
  proof (cases "h a")
    case None
    then show ?thesis using eq by (simp add: lookup.simps)
  next
    case (Some ob)
    show ?thesis
    proof (cases "map_of (props ob) k")
      case (Some p)
      then show ?thesis using eq \<open>h a = Some ob\<close> by (simp add: lookup.simps)
    next
      case None
      show ?thesis
      proof (cases "oproto ob")
        case (ProtoRef b)
        show ?thesis
        proof (cases "b < a")
          case True
          have "lookup h' b k = lookup h b k"
            using "1.IH" [OF \<open>h a = Some ob\<close> None ProtoRef True] "1.prems" True by simp
          then show ?thesis
            using eq \<open>h a = Some ob\<close> None ProtoRef True
            by (simp add: lookup.simps [of h a k] lookup.simps [of h' a k])
        next
          case False
          then show ?thesis
            using eq \<open>h a = Some ob\<close> None ProtoRef
            by (simp add: lookup.simps [of h a k] lookup.simps [of h' a k])
        qed
      qed (use eq \<open>h a = Some ob\<close> None in \<open>simp_all add: lookup.simps [of h a k] lookup.simps [of h' a k]\<close>)
    qed
  qed
qed

lemma js_get_frame: "(\<And>b. b \<le> a \<Longrightarrow> h' b = h b) \<Longrightarrow> js_get h' a k = js_get h a k"
proof -
  assume fr: "\<And>b. b \<le> a \<Longrightarrow> h' b = h b"
  have "h' a = h a" using fr by simp
  moreover have "lookup h' a k = lookup h a k" using fr by (rule lookup_frame)
  ultimately show ?thesis by (auto simp: js_get_def proto_val_def split: found.splits)
qed

lemma object_prototype_accessor: "object_prototype k = ProtoAccessor \<longleftrightarrow> k = ''__proto__''"
  by (simp add: object_prototype_def)

lemma function_prototype_accessor: "function_prototype k = ProtoAccessor \<longleftrightarrow> k = ''__proto__''"
  by (simp add: function_prototype_def object_prototype_def function_prototype_keys_def)

lemma lookup_accessor: "lookup h a k = ProtoAccessor \<Longrightarrow> k = ''__proto__''"
proof (induction h a k rule: lookup.induct)
  case (1 h a k)
  then show ?case
    by (subst (asm) (2) lookup.simps)
       (auto split: option.splits proto.splits if_splits
          simp: object_prototype_accessor function_prototype_accessor)
qed

lemma assign_ref [simp]: "assign st (VRef a) k v = Inr (st\<lparr>objs := js_set (objs st) a k v\<rparr>)"
  by (simp add: assign_def)

lemma js_set_other [simp]: "b \<noteq> a \<Longrightarrow> js_set h a k v b = h b"
  by (simp add: js_set_def split: option.splits found.splits)

lemma lookup_Missing_own: "h a = Some ob \<Longrightarrow> lookup h a k = Missing \<Longrightarrow> map_of (props ob) k = None"
  by (cases "map_of (props ob) k") (simp_all add: lookup.simps)

lemma js_set_missing:
  "h a = Some ob \<Longrightarrow> lookup h a k = Missing \<Longrightarrow>
   js_set h a k v = h(a \<mapsto> ob\<lparr>props := props ob @ [(k, plain v)]\<rparr>)"
  using lookup_Missing_own [of h a ob k] by (simp add: js_set_def put_own_def)

lemma js_set_own:
  "h a = Some ob \<Longrightarrow> map_of (props ob) k = Some p \<Longrightarrow> writable p \<Longrightarrow>
   js_set h a k v = h(a \<mapsto> ob\<lparr>props := AList.update k (p\<lparr>pvalue := v\<rparr>) (props ob)\<rparr>)"
  by (simp add: js_set_def put_own_def lookup_own)

lemma js_set_accessor:
  "h a = Some ob \<Longrightarrow> lookup h a k = ProtoAccessor \<Longrightarrow> js_set h a k v = h(a \<mapsto> set_proto ob v)"
  by (simp add: js_set_def)

lemma define_property_new:
  "h a = Some ob \<Longrightarrow> map_of (props ob) k = None \<Longrightarrow>
   define_property h a k d = Inr (h(a \<mapsto> ob\<lparr>props := props ob @ [(k, d)]\<rparr>))"
  by (simp add: define_property_def)

lemma member_ref [simp]: "member st (VRef a) k = Inr (js_get (objs st) a k)"
  by (simp add: member_def)

lemma js_set_missing_upd:
  "lookup (h(a \<mapsto> ob)) a k = Missing \<Longrightarrow>
   js_set (h(a \<mapsto> ob)) a k v = h(a \<mapsto> ob\<lparr>props := props ob @ [(k, plain v)]\<rparr>)"
  using js_set_missing [of "h(a \<mapsto> ob)" a ob k v] by simp

lemma js_set_own_upd:
  "map_of (props ob) k = Some p \<Longrightarrow> writable p \<Longrightarrow>
   js_set (h(a \<mapsto> ob)) a k v = h(a \<mapsto> ob\<lparr>props := AList.update k (p\<lparr>pvalue := v\<rparr>) (props ob)\<rparr>)"
  using js_set_own [of "h(a \<mapsto> ob)" a ob k p v] by simp

lemma js_set_accessor_upd:
  "lookup (h(a \<mapsto> ob)) a k = ProtoAccessor \<Longrightarrow>
   js_set (h(a \<mapsto> ob)) a k v = h(a \<mapsto> set_proto ob v)"
  using js_set_accessor [of "h(a \<mapsto> ob)" a ob k v] by simp

lemma define_property_new_upd:
  "map_of (props ob) k = None \<Longrightarrow>
   define_property (h(a \<mapsto> ob)) a k d = Inr (h(a \<mapsto> ob\<lparr>props := props ob @ [(k, d)]\<rparr>))"
  using define_property_new [of "h(a \<mapsto> ob)" a ob k d] by simp

lemma lookup_fun_upd:
  "map_of (props ob) k = None \<Longrightarrow> oproto ob = FunctionProto \<Longrightarrow>
   lookup (h(a \<mapsto> ob)) a k = function_prototype k"
  by (simp add: lookup_fun)

lemma lookup_obj_upd:
  "map_of (props ob) k = None \<Longrightarrow> oproto ob = ObjectProto \<Longrightarrow>
   lookup (h(a \<mapsto> ob)) a k = object_prototype k"
  by (simp add: lookup_obj)

lemma function_prototype_super: "function_prototype ''super_'' = Missing"
  by (simp add: function_prototype_def function_prototype_keys_def object_prototype_def
      object_prototype_keys_def)

lemma function_prototype_proto: "function_prototype ''__proto__'' = ProtoAccessor"
  by (simp add: function_prototype_accessor)

lemma copyModel_slave_eq:
  assumes "M < onext st"
  shows "copyModel_slave schema (VRef M) className st =
     (case proto_of_val (js_get (objs st) M ''prototype'') of
        None \<Rightarrow> Inl (TypeError ''Object prototype may only be an Object or null'')
      | Some pr \<Rightarrow>
          Inr (Suc (onext st),
               st\<lparr>objs := (objs st)
                      (onext st \<mapsto> constructor_object (Suc (onext st)) ObjectProto,
                       Suc (Suc (onext st)) \<mapsto> constructor_object (Suc (onext st)) pr,
                       Suc (onext st) \<mapsto>
                         slave_object schema M className (Suc (Suc (onext st)))
                           (js_get (objs st) M ''relations'')),
                    onext := Suc (Suc (Suc (onext st)))\<rparr>))"
proof -
  define n where "n = onext st"
  define H where "H = objs st"
  define f0 where "f0 = \<lparr>props =
        [(''length'', \<lparr>pvalue = VNum 0, writable = False, enumerable = False, configurable = True\<rparr>),
         (''name'', \<lparr>pvalue = VStr ''SlaveModel'', writable = False, enumerable = False,
            configurable = True\<rparr>),
         (''prototype'', \<lparr>pvalue = VRef n, writable = True, enumerable = False,
            configurable = False\<rparr>)], oproto = FunctionProto\<rparr>"
  define f1 where "f1 = f0\<lparr>props := props f0 @ [(''super_'', plain (VRef M))]\<rparr>"
  define H1 where "H1 = H(n \<mapsto> constructor_object (Suc n) ObjectProto)"
  have Mn: "M < n" using assms by (simp add: n_def)
  have g: "\<And>h k. (\<And>b. b < n \<Longrightarrow> h b = H b) \<Longrightarrow> js_get h M k = js_get H M k"
    using Mn by (intro js_get_frame) simp
  have nf: "new_function ''SlaveModel'' st = (Suc n, st\<lparr>objs := H1(Suc n \<mapsto> f0), onext := Suc (Suc n)\<rparr>)"
    by (simp add: new_function_def alloc_def n_def H_def H1_def f0_def constructor_object_def)
  have s1: "js_set (H1(Suc n \<mapsto> f0)) (Suc n) ''super_'' (VRef M) = H1(Suc n \<mapsto> f1)"
    unfolding f1_def
    by (rule js_set_missing_upd) (simp add: lookup_fun_upd f0_def function_prototype_super)
  have p1: "js_get (H1(Suc n \<mapsto> f1)) M ''prototype'' = js_get H M ''prototype''"
    by (rule g) (simp add: H1_def)
  have inh: "\<And>pr. proto_of_val (js_get H M ''prototype'') = Some pr \<Longrightarrow>
      inherits (Suc n) (VRef M) (st\<lparr>objs := H1(Suc n \<mapsto> f0), onext := Suc (Suc n)\<rparr>) =
      Inr (st\<lparr>objs := H1(Suc (Suc n) \<mapsto> constructor_object (Suc n) pr,
                        Suc n \<mapsto> f1\<lparr>props := AList.update ''prototype''
                           \<lparr>pvalue = VRef (Suc (Suc n)), writable = True, enumerable = False,
                            configurable = False\<rparr> (props f1)\<rparr>),
              onext := Suc (Suc (Suc n))\<rparr>)"
  proof -
    fix pr assume pr: "proto_of_val (js_get H M ''prototype'') = Some pr"
    have tw: "H1(Suc n \<mapsto> f1, Suc (Suc n) \<mapsto> constructor_object (Suc n) pr) =
        H1(Suc (Suc n) \<mapsto> constructor_object (Suc n) pr, Suc n \<mapsto> f1)"
      by (rule fun_upd_twist) simp
    have s2: "js_set (H1(Suc (Suc n) \<mapsto> constructor_object (Suc n) pr, Suc n \<mapsto> f1)) (Suc n)
           ''prototype'' (VRef (Suc (Suc n))) =
        H1(Suc (Suc n) \<mapsto> constructor_object (Suc n) pr,
           Suc n \<mapsto> f1\<lparr>props := AList.update ''prototype''
                           (\<lparr>pvalue = VRef n, writable = True, enumerable = False,
                            configurable = False\<rparr>\<lparr>pvalue := VRef (Suc (Suc n))\<rparr>) (props f1)\<rparr>)"
      by (rule js_set_own_upd) (simp_all add: f1_def f0_def)
    show "inherits (Suc n) (VRef M) (st\<lparr>objs := H1(Suc n \<mapsto> f0), onext := Suc (Suc n)\<rparr>) =
      Inr (st\<lparr>objs := H1(Suc (Suc n) \<mapsto> constructor_object (Suc n) pr,
                        Suc n \<mapsto> f1\<lparr>props := AList.update ''prototype''
                           \<lparr>pvalue = VRef (Suc (Suc n)), writable = True, enumerable = False,
                            configurable = False\<rparr> (props f1)\<rparr>),
              onext := Suc (Suc (Suc n))\<rparr>)"
      using pr by (simp add: inherits_def s1 p1 alloc_def constructor_object_def [symmetric] tw s2)
  qed
  show ?thesis
  proof (cases "proto_of_val (js_get H M ''prototype'')")
    case None
    then show ?thesis
      by (simp add: copyModel_slave_def nf inherits_def s1 p1 H_def [symmetric] n_def [symmetric])
  next
    case (Some pr)
    define f2 where "f2 = f1\<lparr>props := AList.update ''prototype''
                           \<lparr>pvalue = VRef (Suc (Suc n)), writable = True, enumerable = False,
                            configurable = False\<rparr> (props f1)\<rparr>"
    define H2 where "H2 = H1(Suc (Suc n) \<mapsto> constructor_object (Suc n) pr)"
    have f2: "f2 = \<lparr>props =
        [(''length'', \<lparr>pvalue = VNum 0, writable = False, enumerable = False, configurable = True\<rparr>),
         (''name'', \<lparr>pvalue = VStr ''SlaveModel'', writable = False, enumerable = False,
            configurable = True\<rparr>),
         (''prototype'', \<lparr>pvalue = VRef (Suc (Suc n)), writable = True, enumerable = False,
            configurable = False\<rparr>),
         (''super_'', plain (VRef M))], oproto = FunctionProto\<rparr>"
      by (simp add: f2_def f1_def f0_def)
    have s3: "js_set (H2(Suc n \<mapsto> f2)) (Suc n) ''__proto__'' (VRef M) =
        H2(Suc n \<mapsto> f2\<lparr>oproto := ProtoRef M\<rparr>)"
      using js_set_accessor_upd [of H2 "Suc n" f2 "''__proto__''" "VRef M"]
      by (simp add: lookup_fun_upd f2 function_prototype_proto set_proto_def)
    have r1: "\<And>ob. js_get (H2(Suc n \<mapsto> ob)) M ''relations'' = js_get H M ''relations''"
      by (rule g) (simp add: H2_def H1_def)
    show ?thesis
      using Some
      by (simp add: copyModel_slave_def nf inh f2_def [symmetric] H2_def [symmetric] s3 [unfolded f2]
          hiddenProperty_def define_property_new_upd f2 r1 slave_object_def
          H_def [symmetric] n_def [symmetric] H1_def [symmetric])
  qed
qed

lemma js_has_obj:
  "h a = Some ob \<Longrightarrow> map_of (props ob) k = None \<Longrightarrow> oproto ob = ObjectProto \<Longrightarrow>
   object_prototype k = Missing \<Longrightarrow> \<not> js_has h a k"
  by (simp add: js_has_def lookup_obj)

lemma copyModel_store_tx:
  assumes tx: "srcs st t = Some tx" "isTransaction tx" "models tx = m" "definitions tx = d"
    and md: "m \<noteq> d" "m < onext st" "d < onext st" "pd < m"
    and mob: "objs st m = Some mob" "oproto mob = ObjectProto" "map_of (props mob) k = None"
    and dob: "objs st d = Some dob" "oproto dob = ObjectProto" "map_of (props dob) k = None"
    and k: "object_prototype k = Missing"
  shows "copyModel_store t Slave (VStr k) (VRef pd) st =
     Inr (st\<lparr>objs := (objs st)
               (m \<mapsto> mob\<lparr>props := props mob @ [(k, plain (VRef Slave))]\<rparr>,
                onext st \<mapsto> descriptor_object (js_get (objs st) pd ''properties'')
                              (js_get (objs st) pd ''settings''),
                d \<mapsto> dob\<lparr>props := props dob @ [(k, plain (VRef (onext st)))]\<rparr>),
             onext := Suc (onext st)\<rparr>)"
proof -
  let ?h1 = "(objs st)(m \<mapsto> mob\<lparr>props := props mob @ [(k, plain (VRef Slave))]\<rparr>)"
  have nh: "\<not> js_has (objs st) m k"
    using mob k by (simp add: js_has_obj)
  have s1: "js_set (objs st) m k (VRef Slave) = ?h1"
    using mob k by (simp add: js_set_missing lookup_obj)
  have g: "\<And>key. js_get ?h1 pd key = js_get (objs st) pd key"
    using md(4) by (intro js_get_frame) simp
  let ?h2 = "?h1(onext st \<mapsto> descriptor_object (js_get (objs st) pd ''properties'')
                              (js_get (objs st) pd ''settings''))"
  have d2: "?h2 d = Some dob"
    using md dob by simp
  have s2: "js_set ?h2 d k (VRef (onext st)) = ?h2(d \<mapsto> dob\<lparr>props := props dob @ [(k, plain (VRef (onext st)))]\<rparr>)"
    using d2 dob k by (simp add: js_set_missing lookup_obj)
  show ?thesis
    using tx nh
    by (simp add: copyModel_store_def s1 g new_object_def alloc_def Let_def
        descriptor_object_def [symmetric] s2 plain_def [symmetric])
qed

lemma source_field_definitions [simp]: "source_field sc ''definitions'' = VRef (definitions sc)"
  by (simp add: source_field_def)

lemma member_source [simp]:
  "srcs st s = Some sc \<Longrightarrow> member st (VSource s) k = Inr (source_field sc k)"
  by (simp add: member_def)

lemma to_key_str [simp]: "to_key (VStr k) = k"
  by simp

lemma copyModel_tx_step:
  assumes tx: "srcs st t = Some tx" "isTransaction tx" "models tx = m" "definitions tx = d"
    and par: "srcs st p = Some sc" "definitions sc = pdefs"
    and N: "N \<le> m" "N \<le> d" "m \<noteq> d" "m < onext st" "d < onext st" "pdefs < N"
    and old: "\<And>a. a < N \<Longrightarrow> objs st a = H a"
    and reg: "M < N" "js_get H M ''modelName'' = VStr k" "js_get H M ''schema'' = VSource p"
      "proto_of_val (js_get H M ''prototype'') = Some pr" "js_get H pdefs k = VRef pd" "pd < N"
      "object_prototype k = Missing"
    and mob: "objs st m = Some mob" "oproto mob = ObjectProto" "map_of (props mob) k = None"
    and dob: "objs st d = Some dob" "oproto dob = ObjectProto" "map_of (props dob) k = None"
  shows "copyModel t (VRef M) st =
     Inr (Suc (onext st),
          st\<lparr>objs := (objs st)
                 (onext st \<mapsto> constructor_object (Suc (onext st)) ObjectProto,
                  Suc (Suc (onext st)) \<mapsto> constructor_object (Suc (onext st)) pr,
                  Suc (onext st) \<mapsto>
                     slave_object t M (VStr k) (Suc (Suc (onext st))) (js_get H M ''relations''),
                  m \<mapsto> mob\<lparr>props := props mob @ [(k, plain (VRef (Suc (onext st))))]\<rparr>,
                  Suc (Suc (Suc (onext st))) \<mapsto>
                     descriptor_object (js_get H pd ''properties'') (js_get H pd ''settings''),
                  d \<mapsto> dob\<lparr>props := props dob @ [(k, plain (VRef (Suc (Suc (Suc (onext st))))))]\<rparr>),
               onext := Suc (Suc (Suc (Suc (onext st))))\<rparr>)"
proof -
  have g: "\<And>a key. a < N \<Longrightarrow> js_get (objs st) a key = js_get H a key"
    using old by (intro js_get_frame) simp
  have Mn: "M < onext st" using reg(1) N(1,4) by simp
  let ?st6 = "st\<lparr>objs := (objs st)
                      (onext st \<mapsto> constructor_object (Suc (onext st)) ObjectProto,
                       Suc (Suc (onext st)) \<mapsto> constructor_object (Suc (onext st)) pr,
                       Suc (onext st) \<mapsto>
                         slave_object t M (VStr k) (Suc (Suc (onext st)))
                           (js_get H M ''relations'')),
                    onext := Suc (Suc (Suc (onext st)))\<rparr>"
  have sl: "copyModel_slave t (VRef M) (VStr k) st = Inr (Suc (onext st), ?st6)"
    using reg(4) by (simp add: copyModel_slave_eq [OF Mn] g [OF reg(1)])
  have g6: "\<And>key. js_get (objs ?st6) pd key = js_get H pd key"
  proof -
    fix key
    have "js_get (objs ?st6) pd key = js_get (objs st) pd key"
      using reg(6) N(1,4) by (intro js_get_frame) simp
    then show "js_get (objs ?st6) pd key = js_get H pd key"
      using g [OF reg(6)] by simp
  qed
  have store: "copyModel_store t (Suc (onext st)) (VStr k) (VRef pd) ?st6 =
     Inr (?st6\<lparr>objs := (objs ?st6)
               (m \<mapsto> mob\<lparr>props := props mob @ [(k, plain (VRef (Suc (onext st))))]\<rparr>,
                onext ?st6 \<mapsto> descriptor_object (js_get (objs ?st6) pd ''properties'')
                              (js_get (objs ?st6) pd ''settings''),
                d \<mapsto> dob\<lparr>props := props dob @ [(k, plain (VRef (onext ?st6)))]\<rparr>),
             onext := Suc (onext ?st6)\<rparr>)"
    using tx N reg(6) mob dob reg(7)
    by (intro copyModel_store_tx [where tx = tx]) simp_all
  show ?thesis
    using par
    by (simp add: copyModel_def tx g [OF reg(1)] reg(2,3,5) g [OF N(6)] sl store g6 [simplified])
qed

lemma tx_inv_step:
  assumes tx: "srcs st t = Some tx" "isTransaction tx" "models tx = m" "definitions tx = d"
    and par: "srcs st p = Some sc" "definitions sc = pdefs"
    and N: "N \<le> m" "N \<le> d" "m \<noteq> d" "pdefs < N" "pm < N"
    and inv: "tx_inv H N pdefs m d ds st"
    and k: "k \<notin> set ds" "reg_in H N p pm pdefs k"
  shows "\<exists>Slave st'. copyModel t (js_get (objs st) pm k) st = Inr (Slave, st') \<and>
           srcs st' = srcs st \<and> trace st' = trace st \<and> ticks st' = ticks st \<and>
           snext st' = snext st \<and> tx_inv H N pdefs m d (ds @ [k]) st'"
proof -
  from inv have mo: "m < onext st" and "do": "d < onext st"
    and old: "\<And>a. a < N \<Longrightarrow> objs st a = H a"
    by (simp_all add: tx_inv_def)
  from inv obtain mob where mob: "objs st m = Some mob" "oproto mob = ObjectProto"
      "map fst (props mob) = ds"
    by (auto simp: tx_inv_def)
  from inv obtain dob where dob: "objs st d = Some dob" "oproto dob = ObjectProto"
      "map fst (props dob) = ds"
    and dall: "\<And>k' pd'. k' \<in> set ds \<Longrightarrow> js_get H pdefs k' = VRef pd' \<Longrightarrow>
           (\<exists>D. map_of (props dob) k' = Some (plain (VRef D)) \<and> N \<le> D \<and> D \<noteq> m \<and> D \<noteq> d \<and>
                D < onext st \<and>
                objs st D = Some (descriptor_object (js_get H pd' ''properties'')
                                    (js_get H pd' ''settings'')))"
    by (auto simp: tx_inv_def)
  from k(2) obtain M pr pd where reg: "js_get H pm k = VRef M" "M < N"
      "js_get H M ''modelName'' = VStr k" "js_get H M ''schema'' = VSource p"
      "proto_of_val (js_get H M ''prototype'') = Some pr" "js_get H pdefs k = VRef pd" "pd < N"
      "object_prototype k = Missing"
    by (auto simp: reg_in_def)
  have mk: "map_of (props mob) k = None"
    using k(1) mob(3) by (metis map_of_eq_None_iff set_map)
  have dk: "map_of (props dob) k = None"
    using k(1) dob(3) by (metis map_of_eq_None_iff set_map)
  have master: "js_get (objs st) pm k = VRef M"
  proof -
    have "js_get (objs st) pm k = js_get H pm k"
      using old N(5) by (intro js_get_frame) simp
    then show ?thesis using reg(1) by simp
  qed
  let ?n = "onext st"
  let ?dob' = "dob\<lparr>props := props dob @ [(k, plain (VRef (Suc (Suc (Suc ?n)))))]\<rparr>"
  let ?st' = "st\<lparr>objs := (objs st)
                 (?n \<mapsto> constructor_object (Suc ?n) ObjectProto,
                  Suc (Suc ?n) \<mapsto> constructor_object (Suc ?n) pr,
                  Suc ?n \<mapsto>
                     slave_object t M (VStr k) (Suc (Suc ?n)) (js_get H M ''relations''),
                  m \<mapsto> mob\<lparr>props := props mob @ [(k, plain (VRef (Suc ?n)))]\<rparr>,
                  Suc (Suc (Suc ?n)) \<mapsto>
                     descriptor_object (js_get H pd ''properties'') (js_get H pd ''settings''),
                  d \<mapsto> ?dob'),
               onext := Suc (Suc (Suc (Suc ?n)))\<rparr>"
  have step: "copyModel t (VRef M) st = Inr (Suc ?n, ?st')"
    using tx par N(1,2,3) mo "do" N(4) old reg(2-8) mob(1,2) mk dob(1,2) dk
    by (rule copyModel_tx_step)
  have i1: "\<forall>a<N. objs ?st' a = H a"
    using old N(1,2) mo "do" by simp
  have i2: "objs ?st' m = Some (mob\<lparr>props := props mob @ [(k, plain (VRef (Suc ?n)))]\<rparr>)"
    using N(3) mo by simp
  have i3: "objs ?st' d = Some ?dob'"
    by simp
  have i4: "\<exists>D. map_of (props ?dob') k' = Some (plain (VRef D)) \<and> N \<le> D \<and> D \<noteq> m \<and> D \<noteq> d \<and>
                D < onext ?st' \<and>
                objs ?st' D = Some (descriptor_object (js_get H pd' ''properties'')
                                    (js_get H pd' ''settings''))"
    if k': "k' \<in> set (ds @ [k])" and pd': "js_get H pdefs k' = VRef pd'" for k' pd'
  proof (cases "k' = k")
    case True
    then have "pd' = pd" using pd' reg(6) by simp
    then show ?thesis
      using True dk mo "do" N(1,2)
      by (intro exI [of _ "Suc (Suc (Suc ?n))"]) (simp add: map_add_def)
  next
    case False
    then have "k' \<in> set ds" using k' by simp
    from dall [OF this pd'] obtain D where D: "map_of (props dob) k' = Some (plain (VRef D))"
        "N \<le> D" "D \<noteq> m" "D \<noteq> d" "D < ?n"
        "objs st D = Some (descriptor_object (js_get H pd' ''properties'')
                                    (js_get H pd' ''settings''))"
      by blast
    then show ?thesis
      by (intro exI [of _ D]) (simp add: map_add_def)
  qed
  have "tx_inv H N pdefs m d (ds @ [k]) ?st'"
    unfolding tx_inv_def
  proof (intro conjI)
    show "m < onext ?st'" using mo by simp
    show "d < onext ?st'" using "do" by simp
    show "\<forall>a<N. objs ?st' a = H a" by (rule i1)
    show "\<exists>mob. objs ?st' m = Some mob \<and> oproto mob = ObjectProto \<and> map fst (props mob) = ds @ [k]"
      using i2 mob(2,3) by simp
    show "\<exists>dob. objs ?st' d = Some dob \<and> oproto dob = ObjectProto \<and> map fst (props dob) = ds @ [k] \<and>
        (\<forall>k\<in>set (ds @ [k]). \<forall>pd. js_get H pdefs k = VRef pd \<longrightarrow>
           (\<exists>D. map_of (props dob) k = Some (plain (VRef D)) \<and> N \<le> D \<and> D \<noteq> m \<and> D \<noteq> d \<and>
                D < onext ?st' \<and>
                objs ?st' D = Some (descriptor_object (js_get H pd ''properties'')
                                    (js_get H pd ''settings''))))"
      apply (rule exI [of _ ?dob'])
      apply (intro conjI i3)
        apply (simp add: dob(2))
       apply (simp add: dob(3))
      using i4 apply blast
      done
  qed
  then show ?thesis
    using step master by simp
qed

lemma transaction_loop_inv:
  assumes tx: "srcs st t = Some tx" "isTransaction tx" "models tx = m" "definitions tx = d"
    and par: "srcs st p = Some sc" "definitions sc = pdefs"
    and N: "N \<le> m" "N \<le> d" "m \<noteq> d" "pdefs < N" "pm < N"
    and inv: "tx_inv H N pdefs m d ds st"
    and ks: "distinct (ds @ ks)" "\<forall>k\<in>set ks. reg_in H N p pm pdefs k"
  shows "\<exists>st'. transaction_loop t pm ks st = Inr st' \<and>
           srcs st' = srcs st \<and> trace st' = trace st \<and> ticks st' = ticks st \<and>
           snext st' = snext st \<and> tx_inv H N pdefs m d (ds @ ks) st'"
  using tx(1) par(1) inv ks
proof (induction ks arbitrary: ds st)
  case Nil
  then show ?case by simp
next
  case (Cons k ks)
  have k: "k \<notin> set ds" "reg_in H N p pm pdefs k"
    using Cons.prems(4,5) by simp_all
  from tx_inv_step [OF Cons.prems(1) tx(2,3,4) Cons.prems(2) par(2) N Cons.prems(3) k]
  obtain Slave st1 where st1: "copyModel t (js_get (objs st) pm k) st = Inr (Slave, st1)"
      "srcs st1 = srcs st" "trace st1 = trace st" "ticks st1 = ticks st" "snext st1 = snext st"
      "tx_inv H N pdefs m d (ds @ [k]) st1"
    by blast
  have "\<exists>st'. transaction_loop t pm ks st1 = Inr st' \<and>
           srcs st' = srcs st1 \<and> trace st' = trace st1 \<and> ticks st' = ticks st1 \<and>
           snext st' = snext st1 \<and> tx_inv H N pdefs m d ((ds @ [k]) @ ks) st'"
    using Cons.prems st1 by (intro Cons.IH) simp_all
  then show ?case
    using st1 by auto
qed

lemma registered_reg_in:
  assumes "registered st p k" "srcs st p = Some sc" "object_prototype k = Missing"
  shows "reg_in (objs st) (onext st) p (models sc) (definitions sc) k"
  using assms
  by (auto simp: registered_def reg_in_def split: val.splits)

lemma for_in_plain:
  assumes "h a = Some ob" "oproto ob = ObjectProto" "list_all (\<lambda>(k, pd). enumerable pd) (props ob)"
  shows "for_in h a = map fst (props ob)"
proof -
  have "filter (\<lambda>(k, p). enumerable p) (props ob) = props ob"
    using assms(3) by (induction "props ob") (auto simp: list_all_iff filter_id_conv)
  then show ?thesis
    using assms(1,2) by (simp add: for_in.simps)
qed

lemma transaction_result:
  assumes wf: "registry_wf st p" and sc: "srcs st p = Some sc"
    and ad: "adapter sc = Some a" "''transaction'' \<in> set (ops a)"
  shows "\<exists>st'. transaction p txa st = Inr (snext st, st') \<and>
      srcs st' = (srcs st)(snext st \<mapsto>
          \<lparr>sname = sname sc, settings = settings sc, connected = False, connecting = False,
           adapter = txa, models = onext st, definitions = Suc (onext st),
           isTransaction = True, origin = Some p, has_connect = has_connect sc\<rparr>) \<and>
      snext st' = Suc (snext st) \<and>
      trace st' = trace st @ [AdapterCall p ''transaction'' []] \<and> ticks st' = ticks st \<and>
      tx_inv (objs st) (onext st) (definitions sc) (onext st) (Suc (onext st))
        (own_keys (objs st) (models sc)) st'"
proof -
  from wf sc obtain pmob where p: "p < snext st" "models sc < onext st" "definitions sc < onext st"
    and pmob: "objs st (models sc) = Some pmob" "oproto pmob = ObjectProto"
      "distinct (map fst (props pmob))"
      "list_all (\<lambda>(k, pd). enumerable pd \<and> object_prototype k = Missing \<and> registered st p k)
         (props pmob)"
    by (auto simp: registry_wf_def split: option.splits)
  let ?n = "onext st" and ?t = "snext st"
  let ?tx = "\<lparr>sname = sname sc, settings = settings sc, connected = False, connecting = False,
           adapter = txa, models = ?n, definitions = Suc ?n,
           isTransaction = True, origin = Some p, has_connect = False\<rparr>"
  let ?st4 = "st\<lparr>trace := trace st @ [AdapterCall p ''transaction'' []],
      objs := (objs st)(?n \<mapsto> \<lparr>props = [], oproto = ObjectProto\<rparr>,
                        Suc ?n \<mapsto> \<lparr>props = [], oproto = ObjectProto\<rparr>),
      onext := Suc (Suc ?n),
      srcs := (srcs st)(?t \<mapsto> ?tx), snext := Suc ?t\<rparr>"
  let ?ks = "map fst (props pmob)"
  have en: "list_all (\<lambda>(k, pd). enumerable pd) (props pmob)"
    using pmob(4) by (auto simp: list_all_iff)
  have fi: "for_in (objs ?st4) (models sc) = ?ks"
    using pmob(1,2) p(2) en by (intro for_in_plain) simp_all
  have reg: "\<forall>k\<in>set ?ks. reg_in (objs st) ?n p (models sc) (definitions sc) k"
  proof
    fix k assume "k \<in> set ?ks"
    then obtain pd where "(k, pd) \<in> set (props pmob)" by auto
    then have "object_prototype k = Missing" "registered st p k"
      using pmob(4) by (auto simp: list_all_iff)
    then show "reg_in (objs st) ?n p (models sc) (definitions sc) k"
      using sc by (simp add: registered_reg_in)
  qed
  have inv0: "tx_inv (objs st) ?n (definitions sc) ?n (Suc ?n) [] ?st4"
    by (simp add: tx_inv_def)
  have t4: "srcs ?st4 ?t = Some ?tx" by simp
  have p4: "srcs ?st4 p = Some sc" using p(1) sc by simp
  from transaction_loop_inv [OF t4 _ _ _ p4 refl _ _ _ p(3) p(2) inv0, of ?ks] pmob(3) reg
  obtain st5 where st5: "transaction_loop ?t (models sc) ?ks ?st4 = Inr st5"
      "srcs st5 = srcs ?st4" "trace st5 = trace ?st4" "ticks st5 = ticks ?st4"
      "snext st5 = snext ?st4" "tx_inv (objs st) ?n (definitions sc) ?n (Suc ?n) ?ks st5"
    by auto
  have tr: "transaction p txa st =
      Inr (?t, upd_source ?t (\<lambda>tx. tx\<lparr>has_connect := has_connect sc\<rparr>) st5)"
    using sc ad st5(1) fi
    by (simp add: transaction_def adapter_notify_def log_event_def new_object_def alloc_def Let_def)
  have inv': "tx_inv (objs st) ?n (definitions sc) ?n (Suc ?n) ?ks
      (upd_source ?t (\<lambda>tx. tx\<lparr>has_connect := has_connect sc\<rparr>) st5)"
    using st5(6) st5(2) by (simp add: upd_source_def tx_inv_def)
  show ?thesis
    using tr inv' st5(2-5) pmob(1)
    by (simp add: upd_source_def own_keys_def)
qed

lemma assign_objs_other:
  "assign st v k w = Inr st' \<Longrightarrow> v \<noteq> VRef b \<Longrightarrow> objs st' b = objs st b"
  by (cases v) (auto simp: assign_def)

lemma assign_rest:
  "assign st v k w = Inr st' \<Longrightarrow>
   srcs st' = srcs st \<and> onext st' = onext st \<and> snext st' = snext st \<and> trace st' = trace st \<and>
   ticks st' = ticks st"
  by (cases v) (auto simp: assign_def)

lemma copyModel_store_frame:
  assumes "copyModel_store schema Slave className md st = Inr st'" "srcs st schema = Some sc"
    and "b \<noteq> models sc" "b \<noteq> definitions sc" "b \<noteq> onext st"
  shows "objs st' b = objs st b"
  using assms
  by (auto simp: copyModel_store_def bnd_eq_Inr new_object_def alloc_def Let_def
      adapter_notify_def log_event_def split: if_splits option.splits)

lemma copyModel_Slave:
  assumes ok: "copyModel schema (VRef M) st = Inr (Slave, st')" and M: "M < onext st"
    and sc: "srcs st schema = Some sc" "models sc < onext st" "definitions sc < onext st"
  shows "Slave = Suc (onext st) \<and>
     objs st' Slave = Some (slave_object schema M (js_get (objs st) M ''modelName'')
                              (Suc (Suc (onext st))) (js_get (objs st) M ''relations''))"
proof -
  let ?cn = "js_get (objs st) M ''modelName''"
  from ok obtain md st6 where sl: "copyModel_slave schema (VRef M) ?cn st = Inr (Slave, st6)"
    and store: "copyModel_store schema Slave ?cn md st6 = Inr st'"
    by (auto simp: copyModel_def bnd_eq_Inr)
  from sl M obtain pr where S: "Slave = Suc (onext st)"
    and st6: "st6 = st\<lparr>objs := (objs st)
                      (onext st \<mapsto> constructor_object (Suc (onext st)) ObjectProto,
                       Suc (Suc (onext st)) \<mapsto> constructor_object (Suc (onext st)) pr,
                       Suc (onext st) \<mapsto>
                         slave_object schema M ?cn (Suc (Suc (onext st)))
                           (js_get (objs st) M ''relations'')),
                    onext := Suc (Suc (Suc (onext st)))\<rparr>"
    by (auto simp: copyModel_slave_eq split: option.splits)
  have sc6: "srcs st6 schema = Some sc" using sc(1) st6 by simp
  have "objs st' Slave = objs st6 Slave"
    using store sc6 sc(2,3) S st6 by (intro copyModel_store_frame [where sc = sc]) simp_all
  then show ?thesis using S st6 by simp
qed

lemma chain_self: "a \<in> set (chain h a)"
  by (subst chain.simps) simp

lemma lookup_chain_frame:
  "(\<And>b. b \<in> set (chain h a) \<Longrightarrow> h' b = h b) \<Longrightarrow> lookup h' a k = lookup h a k"
proof (induction h a k rule: lookup.induct)
  case (1 h a k)
  have eq: "h' a = h a" using "1.prems" chain_self by simp
  show ?case
  proof (cases "h a")
    case None
    then show ?thesis using eq by (simp add: lookup.simps)
  next
    case (Some ob)
    show ?thesis
    proof (cases "map_of (props ob) k")
      case (Some p)
      then show ?thesis using eq \<open>h a = Some ob\<close> by (simp add: lookup.simps)
    next
      case None
      show ?thesis
      proof (cases "oproto ob")
        case (ProtoRef b)
        show ?thesis
        proof (cases "b < a")
          case True
          have sub: "set (chain h b) \<subseteq> set (chain h a)"
            using \<open>h a = Some ob\<close> ProtoRef True by (subst (2) chain.simps) auto
          have "lookup h' b k = lookup h b k"
            using "1.IH" [OF \<open>h a = Some ob\<close> None ProtoRef True] "1.prems" sub by blast
          then show ?thesis
            using eq \<open>h a = Some ob\<close> None ProtoRef True
            by (simp add: lookup.simps [of h a k] lookup.simps [of h' a k])
        next
          case False
          then show ?thesis
            using eq \<open>h a = Some ob\<close> None ProtoRef
            by (simp add: lookup.simps [of h a k] lookup.simps [of h' a k])
        qed
      qed (use eq \<open>h a = Some ob\<close> None in \<open>simp_all add: lookup.simps [of h a k] lookup.simps [of h' a k]\<close>)
    qed
  qed
qed

lemma js_get_chain_frame:
  assumes "\<And>b. b \<in> set (chain h a) \<Longrightarrow> h' b = h b"
  shows "js_get h' a k = js_get h a k"
proof -
  have "h' a = h a" using assms chain_self by simp
  moreover have "lookup h' a k = lookup h a k" using assms by (rule lookup_chain_frame)
  ultimately show ?thesis by (auto simp: js_get_def proto_val_def split: found.splits)
qed

lemma js_get_js_set_other:
  "g \<notin> set (chain h a) \<Longrightarrow> js_get (js_set h g k v) a k' = js_get h a k'"
  by (rule js_get_chain_frame) (metis js_set_other)

lemma js_set_None: "h a = None \<Longrightarrow> js_set h a k v = h"
  by (simp add: js_set_def)

lemma js_set_refused: "\<not> can_put h a k \<Longrightarrow> js_set h a k v = h"
  by (auto simp: js_set_def can_put_def split: option.splits found.splits)

lemma js_set_put:
  assumes "h a = Some ob" "can_put h a k" "k \<noteq> ''__proto__''"
  shows "js_set h a k v = h(a \<mapsto> put_own ob k v)"
proof -
  have "lookup h a k \<noteq> ProtoAccessor" using assms(3) lookup_accessor by blast
  then show ?thesis
    using assms(1,2) by (auto simp: js_set_def can_put_def split: found.splits)
qed

lemma map_of_put_own: "map_option pvalue (map_of (props (put_own ob k v)) k) = Some v"
  by (auto simp: put_own_def update_conv' map_add_def plain_def split: option.splits)

lemma put_own_same:
  assumes "map_of (props ob) k = Some p" "pvalue p = v"
  shows "put_own ob k v = ob"
proof -
  have "p\<lparr>pvalue := v\<rparr> = p" using assms(2) by simp
  then have "AList.update k (p\<lparr>pvalue := v\<rparr>) (props ob) = props ob"
    using assms(1) by (simp add: update_triv)
  then show ?thesis
    using assms(1) by (simp add: put_own_def)
qed

lemma put_own_idem: "put_own (put_own ob k v) k v = put_own ob k v"
proof -
  obtain p where "map_of (props (put_own ob k v)) k = Some p" "pvalue p = v"
    using map_of_put_own [of ob k v] by auto
  then show ?thesis by (rule put_own_same)
qed

lemma js_get_put:
  assumes "h a = Some ob" "can_put h a k" "k \<noteq> ''__proto__''"
  shows "js_get (js_set h a k v) a k = v"
proof -
  let ?h = "h(a \<mapsto> put_own ob k v)"
  obtain p where p: "map_of (props (put_own ob k v)) k = Some p" "pvalue p = v"
    using map_of_put_own [of ob k v] by auto
  have "lookup ?h a k = Data p"
    using p(1) by (intro lookup_own [where ob = "put_own ob k v"]) simp_all
  then show ?thesis
    using p(2) by (simp add: js_set_put [OF assms] js_get_def)
qed

lemma writable_put_own:
  assumes "map_of (props (put_own ob k v)) k = Some p" "map_of (props ob) k = Some q"
  shows "writable p = writable q"
  using assms by (auto simp: put_own_def update_conv')

lemma js_set_idem:
  assumes "k \<noteq> ''__proto__''"
  shows "js_set (js_set h a k v) a k v = js_set h a k v"
proof (cases "h a")
  case None
  then show ?thesis by (simp add: js_set_None)
next
  case (Some ob)
  show ?thesis
  proof (cases "can_put h a k")
    case False
    then show ?thesis by (simp add: js_set_refused)
  next
    case True
    let ?ob = "put_own ob k v"
    let ?h = "h(a \<mapsto> ?ob)"
    have h1: "js_set h a k v = ?h"
      using Some True assms by (rule js_set_put)
    obtain p where p: "map_of (props ?ob) k = Some p" "pvalue p = v"
      using map_of_put_own [of ob k v] by auto
    have wp: "writable p"
    proof (cases "map_of (props ob) k")
      case None
      then show ?thesis using p(1) by (auto simp: put_own_def map_add_def plain_def)
    next
      case (Some q)
      have "lookup h a k = Data q" using \<open>h a = Some ob\<close> Some by (rule lookup_own)
      then have "writable q" using True by (simp add: can_put_def)
      then show ?thesis using writable_put_own [OF p(1) Some] by simp
    qed
    have lk: "lookup ?h a k = Data p"
      using p(1) by (intro lookup_own [where ob = ?ob]) simp_all
    have cp: "can_put ?h a k" using lk wp by (simp add: can_put_def)
    have "js_set ?h a k v = ?h(a \<mapsto> put_own ?ob k v)"
      using cp assms by (intro js_set_put) simp_all
    then show ?thesis
      by (simp add: h1 put_own_idem)
  qed
qed

lemma js_get_js_set_same:
  assumes "k \<noteq> ''__proto__''"
  shows "js_get (js_set h a k v) a k = (if can_put h a k \<and> h a \<noteq> None then v else js_get h a k)"
proof (cases "can_put h a k \<and> h a \<noteq> None")
  case True
  then obtain ob where "h a = Some ob" by auto
  then show ?thesis using True assms by (simp add: js_get_put)
next
  case False
  then have "js_set h a k v = h"
    by (auto simp: js_set_None js_set_refused)
  then show ?thesis using False by auto
qed

lemma call_opaque: "opaque f \<Longrightarrow> call_fn f args st = Inr (log_event (Invoke f args) st)"
  by (induction f args st rule: call_fn.induct) simp_all






lemma registerProperty_eq:
  assumes "srcs st s = Some sc" "js_get (objs st) (models sc) cn = VRef c"
    "js_get (objs st) c ''registerProperty'' = rp" "opaque rp"
  shows "registerProperty s cn key st = Inr (log_event (Invoke rp [VStr key]) st)"
  using assms by (simp add: registerProperty_def call_opaque)




lemma log_event_fields [simp]:
  "objs (log_event e st) = objs st" "onext (log_event e st) = onext st"
  "srcs (log_event e st) = srcs st" "snext (log_event e st) = snext st"
  "ticks (log_event e st) = ticks st" "trace (log_event e st) = trace st @ [e]"
  by (simp_all add: log_event_def)

lemma adapter_request_reply:
  assumes "map_of (replies a) opn = Some r" "args = xs @ [cb]" "callable cb"
  shows "adapter_request a s opn args st = call_fn cb r (log_event (AdapterCall s opn args) st)"
  using assms by (simp add: adapter_request_def arg_def Let_def nth_append)

lemma adapter_request_later:
  "map_of (replies a) opn = None \<Longrightarrow>
   adapter_request a s opn args st = Inr (log_event (AdapterCall s opn args) st)"
  by (simp add: adapter_request_def Let_def)

lemma fk_args_snoc:
  "fk_args a cn key f cb =
     (if fk_arity a = 4 then [VStr cn, VStr key, f] else [VStr cn, VStr key]) @ [cb]"
  by (simp add: fk_args_def)

lemma function_prototype_registerProperty: "function_prototype ''registerProperty'' = Missing"
  by (simp add: function_prototype_def function_prototype_keys_def object_prototype_def
      object_prototype_keys_def)

lemma adl_define_eq:
  assumes sc: "srcs st s = Some sc" and cn: "object_prototype cn = Missing"
    and m: "objs st (models sc) = Some mob" "oproto mob = ObjectProto" "map_of (props mob) cn = None"
    and d: "objs st (definitions sc) = Some dob" "oproto dob = ObjectProto"
      "map_of (props dob) cn = None"
    and ne: "models sc \<noteq> definitions sc" "models sc < onext st" "definitions sc < onext st"
  shows "adl_define s cn ps sg st =
     Inr (Suc (onext st),
          st\<lparr>objs := (objs st)
                 (onext st \<mapsto> constructor_object (Suc (onext st)) ObjectProto,
                  Suc (Suc (onext st)) \<mapsto> empty_object,
                  Suc (onext st) \<mapsto> class_object s cn (onext st) (Suc (Suc (onext st))),
                  models sc \<mapsto> mob\<lparr>props := props mob @ [(cn, plain (VRef (Suc (onext st))))]\<rparr>,
                  Suc (Suc (Suc (onext st))) \<mapsto> descriptor_object ps sg,
                  definitions sc \<mapsto>
                    dob\<lparr>props := props dob @ [(cn, plain (VRef (Suc (Suc (Suc (onext st))))))]\<rparr>),
               onext := Suc (Suc (Suc (Suc (onext st))))\<rparr>)"
proof -
  define n where "n = onext st"
  define H where "H = objs st"
  let ?f0 = "\<lparr>props =
        [(''length'', \<lparr>pvalue = VNum 0, writable = False, enumerable = False, configurable = True\<rparr>),
         (''name'', \<lparr>pvalue = VStr ''ModelConstructor'', writable = False, enumerable = False,
            configurable = True\<rparr>),
         (''prototype'', \<lparr>pvalue = VRef n, writable = True, enumerable = False,
            configurable = False\<rparr>)], oproto = FunctionProto\<rparr>"
  let ?f3 = "\<lparr>props =
        [(''length'', \<lparr>pvalue = VNum 0, writable = False, enumerable = False, configurable = True\<rparr>),
         (''name'', \<lparr>pvalue = VStr ''ModelConstructor'', writable = False, enumerable = False,
            configurable = True\<rparr>),
         (''prototype'', \<lparr>pvalue = VRef n, writable = True, enumerable = False,
            configurable = False\<rparr>),
         (''schema'', \<lparr>pvalue = VSource s, writable = False, enumerable = False,
            configurable = False\<rparr>),
         (''modelName'', \<lparr>pvalue = VStr cn, writable = False, enumerable = False,
            configurable = False\<rparr>),
         (''relations'', \<lparr>pvalue = VRef (Suc (Suc n)), writable = False, enumerable = False,
            configurable = False\<rparr>)], oproto = FunctionProto\<rparr>"
  let ?H1 = "H(n \<mapsto> constructor_object (Suc n) ObjectProto, Suc (Suc n) \<mapsto> empty_object)"
  have tw: "H(n \<mapsto> constructor_object (Suc n) ObjectProto, Suc n \<mapsto> ?f0, Suc (Suc n) \<mapsto> empty_object)
      = ?H1(Suc n \<mapsto> ?f0)"
    by (rule fun_upd_twist) simp
  have s1: "js_set (?H1(Suc n \<mapsto> ?f3)) (Suc n) ''registerProperty'' (VBuiltin ''registerProperty'') =
      ?H1(Suc n \<mapsto> class_object s cn n (Suc (Suc n)))"
    using js_set_missing_upd [of ?H1 "Suc n" ?f3 "''registerProperty''" "VBuiltin ''registerProperty''"]
    by (simp add: lookup_fun_upd function_prototype_registerProperty class_object_def hidden_def)
  let ?H2 = "?H1(Suc n \<mapsto> class_object s cn n (Suc (Suc n)))"
  have mn: "models sc \<noteq> n" "models sc \<noteq> Suc n" "models sc \<noteq> Suc (Suc n)"
    "definitions sc \<noteq> n" "definitions sc \<noteq> Suc n" "definitions sc \<noteq> Suc (Suc n)"
    "models sc \<noteq> Suc (Suc (Suc n))" "definitions sc \<noteq> Suc (Suc (Suc n))"
    using ne by (simp_all add: n_def)
  have m2: "?H2 (models sc) = Some mob"
    using m(1) mn by (simp add: H_def)
  have s2: "js_set ?H2 (models sc) cn (VRef (Suc n)) =
      ?H2(models sc \<mapsto> mob\<lparr>props := props mob @ [(cn, plain (VRef (Suc n)))]\<rparr>)"
    using m2 m(2,3) cn by (simp add: js_set_missing lookup_obj)
  let ?H3 = "?H2(models sc \<mapsto> mob\<lparr>props := props mob @ [(cn, plain (VRef (Suc n)))]\<rparr>,
      Suc (Suc (Suc n)) \<mapsto> descriptor_object ps sg)"
  have d3: "?H3 (definitions sc) = Some dob"
    using d(1) mn ne(1) by (simp add: H_def)
  have s3: "js_set ?H3 (definitions sc) cn (VRef (Suc (Suc (Suc n)))) =
      ?H3(definitions sc \<mapsto> dob\<lparr>props := props dob @ [(cn, plain (VRef (Suc (Suc (Suc n)))))]\<rparr>)"
    using d3 d(2,3) cn by (simp add: js_set_missing lookup_obj)
  have nf: "new_function ''ModelConstructor'' st =
      (Suc n, st\<lparr>objs := H(n \<mapsto> constructor_object (Suc n) ObjectProto, Suc n \<mapsto> ?f0),
                  onext := Suc (Suc n)\<rparr>)"
    by (simp add: new_function_def alloc_def n_def H_def constructor_object_def)
  show ?thesis
    using sc
    by (simp add: adl_define_def nf new_object_def alloc_def Let_def empty_object_def [symmetric]
        tw hiddenProperty_def define_property_new_upd s1 s2
        descriptor_object_def [symmetric] plain_def [symmetric] s3
        H_def [symmetric] n_def [symmetric])
qed

lemma define'_no_dao_eq:
  assumes sc: "srcs st s = Some sc" and cn: "cn \<noteq> []" "object_prototype cn = Missing"
    and m: "objs st (models sc) = Some mob" "oproto mob = ObjectProto" "map_of (props mob) cn = None"
    and d: "objs st (definitions sc) = Some dob" "oproto dob = ObjectProto"
      "map_of (props dob) cn = None"
    and ne: "models sc \<noteq> definitions sc" "models sc < onext st" "definitions sc < onext st"
    and ad: "adapter sc = Some a" "''define'' \<in> set (ops a)"
    and n: "n = onext st"
  shows "define' no_dao s cn VUndefined VUndefined st =
     Inr (VRef (n + 3),
          st\<lparr>objs := (objs st)
                 (n \<mapsto> empty_object, n + 1 \<mapsto> empty_object,
                  n + 2 \<mapsto> constructor_object (n + 3) ObjectProto,
                  n + 4 \<mapsto> empty_object,
                  n + 3 \<mapsto> class_object s cn (n + 2) (n + 4),
                  models sc \<mapsto> mob\<lparr>props := props mob @ [(cn, plain (VRef (n + 3)))]\<rparr>,
                  n + 5 \<mapsto> descriptor_object (VRef n) (VRef (n + 1)),
                  definitions sc \<mapsto> dob\<lparr>props := props dob @ [(cn, plain (VRef (n + 5)))]\<rparr>),
               onext := n + 6,
               trace := trace st @ [AdapterCall s ''define'' [VRef (n + 3), VRef n, VRef (n + 1)]]\<rparr>)"
proof -
  let ?n = "onext st"
  let ?st2 = "st\<lparr>objs := (objs st)(?n \<mapsto> empty_object, Suc ?n \<mapsto> empty_object),
      onext := Suc (Suc ?n)\<rparr>"
  have adl: "adl_define s cn (VRef ?n) (VRef (Suc ?n)) ?st2 =
     Inr (Suc (onext ?st2),
          ?st2\<lparr>objs := (objs ?st2)
                 (onext ?st2 \<mapsto> constructor_object (Suc (onext ?st2)) ObjectProto,
                  Suc (Suc (onext ?st2)) \<mapsto> empty_object,
                  Suc (onext ?st2) \<mapsto> class_object s cn (onext ?st2) (Suc (Suc (onext ?st2))),
                  models sc \<mapsto> mob\<lparr>props := props mob @ [(cn, plain (VRef (Suc (onext ?st2))))]\<rparr>,
                  Suc (Suc (Suc (onext ?st2))) \<mapsto> descriptor_object (VRef ?n) (VRef (Suc ?n)),
                  definitions sc \<mapsto>
                    dob\<lparr>props := props dob @ [(cn, plain (VRef (Suc (Suc (Suc (onext ?st2))))))]\<rparr>),
               onext := Suc (Suc (Suc (Suc (onext ?st2))))\<rparr>)"
    using sc cn(2) m d ne by (intro adl_define_eq) simp_all
  have nn: "n + 1 = Suc ?n" "n + 2 = Suc (Suc ?n)" "n + 3 = Suc (Suc (Suc ?n))"
    "n + 4 = Suc (Suc (Suc (Suc ?n)))" "n + 5 = Suc (Suc (Suc (Suc (Suc ?n))))"
    "n + 6 = Suc (Suc (Suc (Suc (Suc (Suc ?n)))))"
    using n by simp_all
  show ?thesis
    unfolding nn unfolding n
    using sc cn(1) ad
    by (simp add: define'_def no_dao_def new_object_def alloc_def Let_def
        empty_object_def [symmetric] adl [simplified] adapter_notify_def log_event_def)
qed

lemma object_prototype_A: "object_prototype ''A'' = Missing" "object_prototype ''B'' = Missing"
  by (simp_all add: object_prototype_def object_prototype_keys_def)

lemma db_base_built:
  "DataSource no_loader (Handle db_module) VUndefined init_state = Inr (0, db_base)"
  by (simp add: db_base_def db_module_def db_adapter_def db_live_def ab_source_def
      empty_object_def eval_defs)

lemma a_state_built:
  "define' no_dao 0 ''A'' VUndefined VUndefined db_base = Inr (VRef 5, a_state)"
proof -
  have "define' no_dao 0 ''A'' VUndefined VUndefined db_base =
     Inr (VRef (2 + 3),
          db_base\<lparr>objs := (objs db_base)
                 (2 \<mapsto> empty_object, 2 + 1 \<mapsto> empty_object,
                  2 + 2 \<mapsto> constructor_object (2 + 3) ObjectProto,
                  2 + 4 \<mapsto> empty_object,
                  2 + 3 \<mapsto> class_object 0 ''A'' (2 + 2) (2 + 4),
                  models (ab_source db_live) \<mapsto> empty_object\<lparr>props := props empty_object @ [(''A'', plain (VRef (2 + 3)))]\<rparr>,
                  2 + 5 \<mapsto> descriptor_object (VRef 2) (VRef (2 + 1)),
                  definitions (ab_source db_live) \<mapsto> empty_object\<lparr>props := props empty_object @ [(''A'', plain (VRef (2 + 5)))]\<rparr>),
               onext := 2 + 6,
               trace := trace db_base @ [AdapterCall 0 ''define'' [VRef (2 + 3), VRef 2, VRef (2 + 1)]]\<rparr>)"
    by (rule define'_no_dao_eq [where a = db_live])
       (simp_all add: db_base_def ab_source_def db_live_def object_prototype_A empty_object_def)
  also have "\<dots> = Inr (VRef 5, a_state)"
    by (auto simp: db_base_def a_state_def ab_source_def empty_object_def fun_eq_iff)
  finally show ?thesis .
qed

lemma ab_state_built:
  "define' no_dao 0 ''B'' VUndefined VUndefined a_state = Inr (VRef 11, ab_state db_live)"
proof -
  let ?m = "\<lparr>props = [(''A'', plain (VRef 5))], oproto = ObjectProto\<rparr>"
  let ?d = "\<lparr>props = [(''A'', plain (VRef 7))], oproto = ObjectProto\<rparr>"
  have "define' no_dao 0 ''B'' VUndefined VUndefined a_state =
     Inr (VRef (8 + 3),
          a_state\<lparr>objs := (objs a_state)
                 (8 \<mapsto> empty_object, 8 + 1 \<mapsto> empty_object,
                  8 + 2 \<mapsto> constructor_object (8 + 3) ObjectProto,
                  8 + 4 \<mapsto> empty_object,
                  8 + 3 \<mapsto> class_object 0 ''B'' (8 + 2) (8 + 4),
                  models (ab_source db_live) \<mapsto> ?m\<lparr>props := props ?m @ [(''B'', plain (VRef (8 + 3)))]\<rparr>,
                  8 + 5 \<mapsto> descriptor_object (VRef 8) (VRef (8 + 1)),
                  definitions (ab_source db_live) \<mapsto> ?d\<lparr>props := props ?d @ [(''B'', plain (VRef (8 + 5)))]\<rparr>),
               onext := 8 + 6,
               trace := trace a_state @ [AdapterCall 0 ''define'' [VRef (8 + 3), VRef 8, VRef (8 + 1)]]\<rparr>)"
    by (rule define'_no_dao_eq [where a = db_live])
       (simp_all add: a_state_def ab_source_def db_live_def object_prototype_A)
  also have "\<dots> = Inr (VRef 11, ab_state db_live)"
    by (auto simp: a_state_def ab_state_def ab_heap_def ab_source_def fun_eq_iff)
  finally show ?thesis .
qed

section \<open>The example states\<close>

lemma ab_state_fields [simp]:
  "objs (ab_state a) = ab_heap" "onext (ab_state a) = 14" "snext (ab_state a) = 1"
  "srcs (ab_state a) 0 = Some (ab_source a)" "ticks (ab_state a) = []"
  by (simp_all add: ab_state_def)

lemma ab_source_fields [simp]:
  "models (ab_source a) = 0" "definitions (ab_source a) = 1" "adapter (ab_source a) = Some a"
  "isTransaction (ab_source a) = False" "sname (ab_source a) = VStr ''db''"
  "settings (ab_source a) = VUndefined" "has_connect (ab_source a) = True"
  by (simp_all add: ab_source_def)

lemma ab_heap_at:
  "ab_heap 0 = Some \<lparr>props = [(''A'', plain (VRef 5)), (''B'', plain (VRef 11))], oproto = ObjectProto\<rparr>"
  "ab_heap 1 = Some \<lparr>props = [(''A'', plain (VRef 7)), (''B'', plain (VRef 13))], oproto = ObjectProto\<rparr>"
  "ab_heap 2 = Some empty_object" "ab_heap 3 = Some empty_object"
  "ab_heap 4 = Some (constructor_object 5 ObjectProto)"
  "ab_heap 5 = Some (class_object 0 ''A'' 4 6)"
  "ab_heap 6 = Some empty_object"
  "ab_heap 7 = Some (descriptor_object (VRef 2) (VRef 3))"
  "ab_heap 8 = Some empty_object" "ab_heap 9 = Some empty_object"
  "ab_heap 10 = Some (constructor_object 11 ObjectProto)"
  "ab_heap 11 = Some (class_object 0 ''B'' 10 12)"
  "ab_heap 12 = Some empty_object"
  "ab_heap 13 = Some (descriptor_object (VRef 8) (VRef 9))"
  "ab_heap (Suc 0) = Some \<lparr>props = [(''A'', plain (VRef 7)), (''B'', plain (VRef 13))], oproto = ObjectProto\<rparr>"
  by (simp_all add: ab_heap_def)

lemma ab_heap_get:
  "js_get ab_heap 0 ''A'' = VRef 5" "js_get ab_heap 0 ''B'' = VRef 11"
  "js_get ab_heap 1 ''A'' = VRef 7" "js_get ab_heap 1 ''B'' = VRef 13"
  "js_get ab_heap 7 ''properties'' = VRef 2" "js_get ab_heap 7 ''settings'' = VRef 3"
  "js_get ab_heap 13 ''properties'' = VRef 8" "js_get ab_heap 13 ''settings'' = VRef 9"
  "js_get ab_heap 5 ''modelName'' = VStr ''A''" "js_get ab_heap 5 ''schema'' = VSource 0"
  "js_get ab_heap 5 ''relations'' = VRef 6" "js_get ab_heap 5 ''prototype'' = VRef 4"
  "js_get ab_heap 11 ''modelName'' = VStr ''B''" "js_get ab_heap 11 ''schema'' = VSource 0"
  "js_get ab_heap 11 ''relations'' = VRef 12" "js_get ab_heap 11 ''prototype'' = VRef 10"
  "js_get ab_heap 5 ''registerProperty'' = VBuiltin ''registerProperty''"
  by (simp_all add: js_get_def lookup.simps ab_heap_at descriptor_object_def class_object_def
      plain_def hidden_def)

lemma ab_heap_absent:
  "js_get ab_heap 3 ''table'' = VUndefined" "js_get ab_heap 2 ''userId'' = VUndefined"
  "can_put ab_heap 2 ''userId''" "can_put ab_heap 3 ''table''"
  by (simp_all add: js_get_def can_put_def lookup.simps ab_heap_at empty_object_def
      object_prototype_def object_prototype_keys_def)

lemma ab_heap_chain:
  "chain ab_heap 0 = [0]" "chain ab_heap 1 = [1]" "chain ab_heap 5 = [5]" "chain ab_heap 7 = [7]"
  "chain ab_heap 11 = [11]" "chain ab_heap 13 = [13]"
  by (simp_all add: chain.simps ab_heap_at descriptor_object_def class_object_def)

lemma ab_heap_one:
  "js_get ab_heap (Suc 0) ''A'' = VRef 7" "js_get ab_heap (Suc 0) ''B'' = VRef 13"
  "chain ab_heap (Suc 0) = [Suc 0]"
  using ab_heap_get(3,4) ab_heap_chain(2) by simp_all

lemmas ab_facts = ab_heap_get ab_heap_absent ab_heap_chain ab_heap_one ab_heap_at

lemma defineForeignKey_later:
  assumes sc: "srcs st s = Some sc" and ad: "adapter sc = Some a"
    and d: "js_get (objs st) (definitions sc) cn = VRef d"
    and ps: "js_get (objs st) d ''properties'' = VRef ps"
    and c: "js_get (objs st) (models sc) cn = VRef c"
    and rp: "js_get (objs st) c ''registerProperty'' = rp" "opaque rp"
    and un: "\<not> truthy (js_get (objs st) ps key)" "''defineForeignKey'' \<in> set (ops a)"
      "map_of (replies a) ''defineForeignKey'' = None"
  shows "defineForeignKey s cn key f st =
     Inr (log_event (Invoke rp [VStr key])
            (log_event (AdapterCall s ''defineForeignKey''
               (fk_args a cn key f (VFun (ForeignKeyDone s cn key)))) st))"
proof -
  let ?l = "log_event (AdapterCall s ''defineForeignKey''
                         (fk_args a cn key f (VFun (ForeignKeyDone s cn key)))) st"
  have rq: "adapter_request a s ''defineForeignKey''
      (fk_args a cn key f (VFun (ForeignKeyDone s cn key))) st = Inr ?l"
    using un(3) by (rule adapter_request_later)
  have r: "registerProperty s cn key ?l = Inr (log_event (Invoke rp [VStr key]) ?l)"
    using sc c rp by (intro registerProperty_eq [where sc = sc and c = c]) simp_all
  show ?thesis
    using sc ad d ps un(1,2) r rq
    by (simp add: defineForeignKey_def fk_args_def Let_def split: if_splits)
qed

lemma copyModel_A:
  "copyModel 0 (VRef 5) (ab_state db_live) =
     Inr (15, (ab_state db_live)\<lparr>objs := ab_heap
                 (14 \<mapsto> constructor_object 15 ObjectProto,
                  16 \<mapsto> constructor_object 15 (ProtoRef 4),
                  15 \<mapsto> slave_object 0 5 (VStr ''A'') 16 (VRef 6)),
               onext := 17\<rparr>)"
proof -
  let ?h = "ab_heap(14 \<mapsto> constructor_object 15 ObjectProto,
                  16 \<mapsto> constructor_object 15 (ProtoRef 4),
                  15 \<mapsto> slave_object 0 5 (VStr ''A'') 16 (VRef 6))"
  have sl: "copyModel_slave 0 (VRef 5) (VStr ''A'') (ab_state db_live) =
      Inr (15, (ab_state db_live)\<lparr>objs := ?h, onext := 17\<rparr>)"
    using copyModel_slave_eq [of 5 "ab_state db_live" 0 "VStr ''A''"]
    by (simp add: ab_facts)
  have "lookup ?h 0 ''A'' = lookup ab_heap 0 ''A''"
    by (rule lookup_frame) simp
  then have has: "js_has ?h 0 ''A''"
    by (simp add: js_has_def lookup.simps ab_facts)
  show ?thesis
    using has by (simp add: copyModel_def ab_facts sl copyModel_store_def)
qed

lemma registry_wf_ab: "registry_wf (ab_state a) 0"
  by (simp add: registry_wf_def registered_def ab_facts plain_def object_prototype_def
      object_prototype_keys_def)

lemma transaction_ab: "transaction 0 txa (ab_state db_live) = Inr (1, ab_tx_state txa)"
proof -
  let ?e = "\<lparr>props = [], oproto = ObjectProto\<rparr>"
  let ?tx = "(ab_tx_source txa)\<lparr>has_connect := False\<rparr>"
  let ?srcs = "(\<lambda>s. None)(0 \<mapsto> ab_source db_live, 1 \<mapsto> ?tx)"
  let ?tr = "trace (ab_state db_live) @ [AdapterCall 0 ''transaction'' []]"
  let ?st4 = "\<lparr>objs = ab_heap(14 \<mapsto> ?e, 15 \<mapsto> ?e), onext = 16, srcs = ?srcs, snext = 2,
      trace = ?tr, ticks = []\<rparr>"
  let ?mA = "\<lparr>props = [(''A'', plain (VRef 17))], oproto = ObjectProto\<rparr>"
  let ?dA = "\<lparr>props = [(''A'', plain (VRef 19))], oproto = ObjectProto\<rparr>"
  let ?h5 = "ab_heap(14 \<mapsto> ?mA, 15 \<mapsto> ?dA,
      16 \<mapsto> constructor_object 17 ObjectProto,
      17 \<mapsto> slave_object 1 5 (VStr ''A'') 18 (VRef 6),
      18 \<mapsto> constructor_object 17 (ProtoRef 4),
      19 \<mapsto> descriptor_object (VRef 2) (VRef 3))"
  let ?st5 = "\<lparr>objs = ?h5, onext = 20, srcs = ?srcs, snext = 2, trace = ?tr, ticks = []\<rparr>"
  let ?st6 = "\<lparr>objs = ab_tx_heap, onext = 24, srcs = ?srcs, snext = 2, trace = ?tr, ticks = []\<rparr>"
  have keys: "for_in (ab_heap(14 \<mapsto> ?e, 15 \<mapsto> ?e)) 0 = [''A'', ''B'']"
    by (subst for_in_plain [where ob = "the (ab_heap 0)"]) (simp_all add: ab_facts plain_def)
  have g4: "js_get (ab_heap(14 \<mapsto> ?e, 15 \<mapsto> ?e)) 0 ''A'' = VRef 5"
    by (subst js_get_frame [where h = ab_heap]) (simp_all add: ab_facts)
  have g5: "js_get ?h5 0 ''B'' = VRef 11"
    by (subst js_get_frame [where h = ab_heap]) (simp_all add: ab_facts)
  have c1: "copyModel 1 (VRef 5) ?st4 = Inr (17, ?st5)"
    using copyModel_tx_step [where st = ?st4 and t = 1 and tx = ?tx and m = 14 and d = 15
        and p = 0 and sc = "ab_source db_live" and pdefs = 1 and N = 14 and H = ab_heap
        and M = 5 and k = "''A''" and pr = "ProtoRef 4" and pd = 7 and mob = ?e and dob = ?e]
    by (simp add: ab_facts ab_tx_source_def object_prototype_def object_prototype_keys_def
        fun_eq_iff)
  have c2: "copyModel 1 (VRef 11) ?st5 = Inr (21, ?st6)"
    using copyModel_tx_step [where st = ?st5 and t = 1 and tx = ?tx and m = 14 and d = 15
        and p = 0 and sc = "ab_source db_live" and pdefs = 1 and N = 14 and H = ab_heap
        and M = 11 and k = "''B''" and pr = "ProtoRef 10" and pd = 13 and mob = ?mA and dob = ?dA]
    by (simp add: ab_facts ab_tx_source_def object_prototype_def object_prototype_keys_def
        fun_eq_iff ab_tx_heap_def)
  have loop: "transaction_loop 1 0 [''A'', ''B''] ?st4 = Inr ?st6"
    by (simp only: transaction_loop.simps state.select_convs g4 g5 c1 c2 bnd_Inr prod.case)
  have up: "upd_source 1 (\<lambda>tx. tx\<lparr>has_connect := True\<rparr>) ?st6 = ab_tx_state txa"
    by (simp add: upd_source_def ab_tx_state_def ab_tx_source_def fun_eq_iff)
  let ?S2 = "\<lparr>objs = ab_heap(14 \<mapsto> ?e), onext = 15,
      srcs = (\<lambda>s. None)(0 \<mapsto> ab_source db_live), snext = 1, trace = ?tr, ticks = []\<rparr>"
  let ?S3 = "\<lparr>objs = ab_heap(14 \<mapsto> ?e, 15 \<mapsto> ?e), onext = 16,
      srcs = (\<lambda>s. None)(0 \<mapsto> ab_source db_live), snext = 1, trace = ?tr, ticks = []\<rparr>"
  have a: "srcs (ab_state db_live) 0 = Some (ab_source db_live)"
    "adapter (ab_source db_live) = Some db_live" "''transaction'' \<in> set (ops db_live)"
    by (simp_all add: db_live_def)
  have n1: "new_object [] (adapter_notify 0 ''transaction'' [] (ab_state db_live)) = (14, ?S2)"
    by (simp add: adapter_notify_def log_event_def new_object_def alloc_def ab_state_def)
  have n2: "new_object [] ?S2 = (15, ?S3)"
    by (simp add: new_object_def alloc_def)
  have st4eq: "?S3\<lparr>srcs := (srcs ?S3)(snext ?S3 \<mapsto>
        \<lparr>sname = sname (ab_source db_live), settings = settings (ab_source db_live),
         connected = False, connecting = False, adapter = txa, models = 14, definitions = 15,
         isTransaction = True, origin = Some 0, has_connect = False\<rparr>),
      snext := Suc (snext ?S3)\<rparr> = ?st4"
    by (simp add: ab_tx_source_def fun_eq_iff)
  have keys3: "for_in (objs ?st4) (models (ab_source db_live)) = [''A'', ''B'']"
    using keys by simp
  have t1: "snext ?S3 = 1" "models (ab_source db_live) = 0"
    "has_connect (ab_source db_live) = True"
    by simp_all
  show ?thesis
    unfolding transaction_def
    apply (simp only: a option.case if_False not_True_eq_False not_not if_True Let_def n1 n2
        prod.case)
    apply (simp only: st4eq keys3)
    apply (simp only: t1 loop bnd_Inr up)
    done
qed

lemma ab_tx_state_fields [simp]:
  "objs (ab_tx_state txa) = ab_tx_heap" "onext (ab_tx_state txa) = 24"
  "snext (ab_tx_state txa) = 2"
  "srcs (ab_tx_state txa) = (\<lambda>s. None)(0 \<mapsto> ab_source db_live, 1 \<mapsto> ab_tx_source txa)"
  by (simp_all add: ab_tx_state_def)

lemma ab_tx_old: "b < 14 \<Longrightarrow> ab_tx_heap b = ab_heap b"
  by (simp add: ab_tx_heap_def)

lemma ab_tx_heap_at:
  "ab_tx_heap 14 = Some \<lparr>props = [(''A'', plain (VRef 17)), (''B'', plain (VRef 21))], oproto = ObjectProto\<rparr>"
  "ab_tx_heap 15 = Some \<lparr>props = [(''A'', plain (VRef 19)), (''B'', plain (VRef 23))], oproto = ObjectProto\<rparr>"
  "ab_tx_heap 19 = Some (descriptor_object (VRef 2) (VRef 3))"
  "ab_tx_heap 23 = Some (descriptor_object (VRef 8) (VRef 9))"
  by (simp_all add: ab_tx_heap_def)

lemma ab_tx_heap_get:
  "js_get ab_tx_heap 15 ''A'' = VRef 19" "js_get ab_tx_heap 19 ''settings'' = VRef 3"
  "js_get ab_tx_heap 19 ''properties'' = VRef 2"
  "js_get ab_tx_heap 1 ''A'' = VRef 7" "js_get ab_tx_heap 7 ''settings'' = VRef 3"
  "js_get ab_tx_heap 3 ''table'' = VUndefined" "can_put ab_tx_heap 3 ''table''"
  by (simp_all add: js_get_def can_put_def lookup.simps ab_tx_heap_at ab_tx_old ab_facts
      descriptor_object_def plain_def empty_object_def object_prototype_def
      object_prototype_keys_def)

lemma ab_tx_keys:
  "own_keys ab_tx_heap 14 = [''A'', ''B'']" "own_keys ab_tx_heap 15 = [''A'', ''B'']"
  "own_keys ab_heap 0 = [''A'', ''B'']"
  by (simp_all add: own_keys_def ab_tx_heap_at ab_facts)

lemma db_live_source:
  "srcs (ab_state db_live) 0 = Some (ab_source db_live)"
  "adapter (ab_source db_live) = Some db_live" "''transaction'' \<in> set (ops db_live)"
  by (simp_all add: db_live_def)

lemma js_get_own: "h a = Some ob \<Longrightarrow> map_of (props ob) k = Some p \<Longrightarrow> js_get h a k = pvalue p"
  by (simp add: js_get_def lookup_own)

lemma descriptor_members:
  "h D = Some (descriptor_object ps sg) \<Longrightarrow> js_get h D ''properties'' = ps"
  "h D = Some (descriptor_object ps sg) \<Longrightarrow> js_get h D ''settings'' = sg"
  by (simp_all add: js_get_def lookup.simps descriptor_object_def plain_def)

lemma ab_tx_one: "js_get ab_tx_heap (Suc 0) ''A'' = VRef 7"
  using ab_tx_heap_get(4) by simp

lemma member_ok: "v \<noteq> VUndefined \<Longrightarrow> v \<noteq> VNull \<Longrightarrow> \<exists>x. member st v k = Inr x"
  by (cases v) (simp_all add: member_def split: option.splits)

lemma copyModel_store_ok:
  assumes sc: "srcs st schema = Some sc"
    and ok: "js_has (objs st) (models sc) (to_key cn)
      \<or> (md \<noteq> VUndefined \<and> md \<noteq> VNull
          \<and> (isTransaction sc \<or> (\<exists>a. adapter sc = Some a \<and> ''define'' \<in> set (ops a))))"
  shows "\<exists>st'. copyModel_store schema Slave cn md st = Inr st'"
proof (cases "js_has (objs st) (models sc) (to_key cn)")
  case True
  then show ?thesis using sc by (simp add: copyModel_store_def)
next
  case False
  with ok have md: "md \<noteq> VUndefined" "md \<noteq> VNull"
    and fin: "isTransaction sc \<or> (\<exists>a. adapter sc = Some a \<and> ''define'' \<in> set (ops a))"
    by simp_all
  let ?st7 = "st\<lparr>objs := js_set (objs st) (models sc) (to_key cn) (VRef Slave)\<rparr>"
  from member_ok [OF md] obtain ps where ps: "member ?st7 md ''properties'' = Inr ps" by blast
  from member_ok [OF md] obtain sg where sg: "member ?st7 md ''settings'' = Inr sg" by blast
  show ?thesis
    using sc False ps sg fin
    by (auto simp: copyModel_store_def new_object_def alloc_def Let_def adapter_notify_def)
qed

lemma copyModel_ok:
  assumes M: "M < onext st"
    and sc: "srcs st schema = Some sc" "models sc < onext st"
    and ms: "js_get (objs st) M ''schema'' = VSource ms" "srcs st ms = Some msc"
    and pr: "proto_of_val (js_get (objs st) M ''prototype'') = Some pr"
    and reg: "js_has (objs st) (models sc) (to_key (js_get (objs st) M ''modelName''))
      \<or> (js_get (objs st) (definitions msc) (to_key (js_get (objs st) M ''modelName'')) \<noteq> VUndefined
          \<and> js_get (objs st) (definitions msc) (to_key (js_get (objs st) M ''modelName'')) \<noteq> VNull
          \<and> (isTransaction sc \<or> (\<exists>a. adapter sc = Some a \<and> ''define'' \<in> set (ops a))))"
  shows "\<exists>Slave st'. copyModel schema (VRef M) st = Inr (Slave, st')"
proof -
  let ?cn = "js_get (objs st) M ''modelName''"
  let ?md = "js_get (objs st) (definitions msc) (to_key ?cn)"
  let ?st6 = "st\<lparr>objs := (objs st)
                      (onext st \<mapsto> constructor_object (Suc (onext st)) ObjectProto,
                       Suc (Suc (onext st)) \<mapsto> constructor_object (Suc (onext st)) pr,
                       Suc (onext st) \<mapsto>
                         slave_object schema M ?cn (Suc (Suc (onext st)))
                           (js_get (objs st) M ''relations'')),
                    onext := Suc (Suc (Suc (onext st)))\<rparr>"
  have sl: "copyModel_slave schema (VRef M) ?cn st = Inr (Suc (onext st), ?st6)"
    using pr by (simp add: copyModel_slave_eq [OF M])
  have "lookup (objs ?st6) (models sc) (to_key ?cn) = lookup (objs st) (models sc) (to_key ?cn)"
    using sc(2) by (intro lookup_frame) simp
  then have has: "js_has (objs ?st6) (models sc) (to_key ?cn) =
      js_has (objs st) (models sc) (to_key ?cn)"
    by (simp add: js_has_def)
  have sc6: "srcs ?st6 schema = Some sc"
    using sc(1) by simp
  from copyModel_store_ok [where st = ?st6 and cn = ?cn and md = ?md and Slave = "Suc (onext st)",
      OF sc6] reg has
  obtain st' where "copyModel_store schema (Suc (onext st)) ?cn ?md ?st6 = Inr st'"
    by blast
  then have "copyModel schema (VRef M) st = Inr (Suc (onext st), st')"
    using ms sl by (simp add: copyModel_def)
  then show ?thesis by blast
qed

lemma ab_tx_open_fields [simp]:
  "objs (ab_tx_open txa) = ab_heap(14 \<mapsto> empty_object, 15 \<mapsto> empty_object)"
  "onext (ab_tx_open txa) = 16"
  "srcs (ab_tx_open txa) =
     (\<lambda>s. None)(0 \<mapsto> ab_source db_live, 1 \<mapsto> (ab_tx_source txa)\<lparr>has_connect := False\<rparr>)"
  by (simp_all add: ab_tx_open_def)

lemma ab_tx_open_get:
  "js_get (ab_heap(14 \<mapsto> empty_object, 15 \<mapsto> empty_object)) a k = js_get ab_heap a k"
  if "a < 14"
  using that by (intro js_get_frame) simp


section \<open>The claims\<close>

subsection \<open>C1: a DataSource without an adapter\<close>

text \<open>
  C1 says that on a DataSource whose backend name resolves to no adapter every delegated
  operation is a no-op that succeeds: \<^verbatim>\<open>define('User', {name: 'string'})\<close> returns a
  type, and \<^verbatim>\<open>autoupdate(cb)\<close> calls \<open>cb\<close> without an error. The first half holds:
  \<^verbatim>\<open>define\<close> tests \<^verbatim>\<open>if (this.adapter)\<close>. The second does not: \<^verbatim>\<open>autoupdate\<close>
  starts with \<^verbatim>\<open>this.freeze()\<close>, which reads \<^verbatim>\<open>this.adapter.freezeSchema\<close>
  without that test and throws a TypeError; \<open>cb\<close> is never called.
\<close>

theorem autoupdate_without_adapter:
  "DataSource no_loader (Named ''nosuch'') VUndefined init_state = Inr (0, adapterless)
   \<and> map_option adapter (srcs adapterless 0) = Some None
   \<and> define' no_dao 0 ''User'' (VRef (fst user_props)) VUndefined (snd user_props) =
       Inr (VRef 5, adapterless_user)
   \<and> autoupdate 0 (VFun (UserFn 0)) adapterless_user =
       Inl (TypeError ''Cannot read property freezeSchema of undefined'')"
proof (intro conjI)
  show "DataSource no_loader (Named ''nosuch'') VUndefined init_state = Inr (0, adapterless)"
    by (simp add: adapterless_def eval_defs)
  show "map_option adapter (srcs adapterless 0) = Some None"
    by (simp add: adapterless_def eval_defs)
  show "define' no_dao 0 ''User'' (VRef (fst user_props)) VUndefined (snd user_props) =
      Inr (VRef 5, adapterless_user)"
    by (simp add: adapterless_user_def user_props_def adapterless_def eval_more)
  show "autoupdate 0 (VFun (UserFn 0)) adapterless_user =
      Inl (TypeError ''Cannot read property freezeSchema of undefined'')"
    by (simp add: autoupdate_def freeze_def adapterless_user_def user_props_def
        adapterless_def eval_more)
qed

subsection \<open>C2: the descriptors of a transaction\<close>

text \<open>
  C2 says that after \<^verbatim>\<open>transaction()\<close> a change to the contents of the transaction's
  settings object for type \<^verbatim>\<open>A\<close> leaves the contents of the parent's settings object for
  \<^verbatim>\<open>A\<close> as they were. \<^verbatim>\<open>copyModel\<close> builds the transaction's descriptor as
  \<^verbatim>\<open>{properties: md.properties, settings: md.settings}\<close>: the descriptor is new, its two
  members are the parent's own objects. On the DataSource with the types \<^verbatim>\<open>A\<close> and
  \<^verbatim>\<open>B\<close>, the settings of \<^verbatim>\<open>A\<close> are object 3 in the parent's registry and in the
  transaction's, and \<^verbatim>\<open>table = 'x'\<close> assigned through the transaction is read through the
  parent, where \<^verbatim>\<open>table\<close> was undefined.
\<close>

theorem shared_settings_counterexample:
  "transaction 0 (Some db_adapter) (ab_state db_live) = Inr (1, ab_tx_state (Some db_adapter))
   \<and> srcs (ab_tx_state (Some db_adapter)) 1 = Some (ab_tx_source (Some db_adapter))
   \<and> definitions (ab_tx_source (Some db_adapter)) = 15
   \<and> js_get ab_tx_heap 15 ''A'' = VRef 19 \<and> js_get ab_tx_heap 19 ''settings'' = VRef 3
   \<and> srcs (ab_tx_state (Some db_adapter)) 0 = Some (ab_source db_live)
   \<and> definitions (ab_source db_live) = 1
   \<and> js_get ab_tx_heap 1 ''A'' = VRef 7 \<and> js_get ab_tx_heap 7 ''settings'' = VRef 3
   \<and> js_get ab_tx_heap 3 ''table'' = VUndefined
   \<and> js_assign True ab_tx_heap 3 ''table'' (VStr ''x'') =
        Inr (js_set ab_tx_heap 3 ''table'' (VStr ''x''))
   \<and> js_get (js_set ab_tx_heap 3 ''table'' (VStr ''x'')) 1 ''A'' = VRef 7
   \<and> js_get (js_set ab_tx_heap 3 ''table'' (VStr ''x'')) 7 ''settings'' = VRef 3
   \<and> js_get (js_set ab_tx_heap 3 ''table'' (VStr ''x'')) 3 ''table'' = VStr ''x''"
proof -
  have c: "3 \<notin> set (chain ab_tx_heap 1)" "3 \<notin> set (chain ab_tx_heap 7)"
    by (simp_all add: chain.simps ab_tx_old ab_facts descriptor_object_def)
  have o: "js_get (js_set ab_tx_heap 3 ''table'' (VStr ''x'')) 1 ''A'' = VRef 7"
    "js_get (js_set ab_tx_heap 3 ''table'' (VStr ''x'')) 7 ''settings'' = VRef 3"
    using c by (simp_all add: js_get_js_set_other ab_tx_heap_get ab_tx_one)
  have s: "js_get (js_set ab_tx_heap 3 ''table'' (VStr ''x'')) 3 ''table'' = VStr ''x''"
    by (simp add: js_get_js_set_same ab_tx_heap_get ab_tx_old ab_facts)
  show ?thesis
    using o s by (simp add: transaction_ab ab_tx_heap_get ab_tx_one js_assign_def ab_tx_source_def)
qed

text \<open>
  C2 as amended: on a DataSource whose registry is as \<^verbatim>\<open>define\<close> leaves it and whose
  adapter has \<^verbatim>\<open>transaction\<close>, for every declared type \<open>k\<close> with descriptor \<open>pd\<close> in
  the parent, the transaction's \<^verbatim>\<open>definitions[k]\<close> is a new object \<open>D\<close>, not an object
  of the heap before the call and so not \<open>pd\<close>; the parent's entry and \<open>pd\<close> are
  unchanged; assigning to the \<^verbatim>\<open>settings\<close> member of \<open>D\<close> leaves the parent's
  \<^verbatim>\<open>settings\<close> member as it was. The two members of \<open>D\<close> are the values of the
  parent's members: the settings and properties objects themselves are shared.
\<close>

theorem transaction_descriptors:
  assumes wf: "registry_wf st p" and sc: "srcs st p = Some sc"
    and ad: "adapter sc = Some a" "''transaction'' \<in> set (ops a)"
    and k: "k \<in> set (own_keys (objs st) (models sc))"
    and pd: "js_get (objs st) (definitions sc) k = VRef pd"
  shows "\<exists>st' tx D. transaction p txa st = Inr (snext st, st')
      \<and> srcs st' (snext st) = Some tx
      \<and> js_get (objs st') (definitions tx) k = VRef D
      \<and> onext st \<le> D \<and> D \<noteq> pd
      \<and> objs st' D = Some (descriptor_object (js_get (objs st) pd ''properties'')
                              (js_get (objs st) pd ''settings''))
      \<and> js_get (objs st') (definitions sc) k = VRef pd
      \<and> objs st' pd = objs st pd
      \<and> js_get (objs st') D ''settings'' = js_get (objs st') pd ''settings''
      \<and> js_get (objs st') D ''properties'' = js_get (objs st') pd ''properties''
      \<and> js_get (js_set (objs st') D ''settings'' v) pd ''settings'' =
          js_get (objs st) pd ''settings''"
proof -
  let ?ds = "own_keys (objs st) (models sc)"
  let ?tx = "\<lparr>sname = sname sc, settings = settings sc, connected = False, connecting = False,
           adapter = txa, models = onext st, definitions = Suc (onext st),
           isTransaction = True, origin = Some p, has_connect = has_connect sc\<rparr>"
  from transaction_result [OF wf sc ad, of txa] obtain st'
    where r: "transaction p txa st = Inr (snext st, st')"
      and s: "srcs st' = (srcs st)(snext st \<mapsto> ?tx)"
      and inv: "tx_inv (objs st) (onext st) (definitions sc) (onext st) (Suc (onext st)) ?ds st'"
    by blast
  from inv obtain dob
    where old: "\<And>b. b < onext st \<Longrightarrow> objs st' b = objs st b"
      and dob: "objs st' (Suc (onext st)) = Some dob"
      and D: "\<forall>k\<in>set ?ds. \<forall>pd. js_get (objs st) (definitions sc) k = VRef pd \<longrightarrow>
           (\<exists>D. map_of (props dob) k = Some (plain (VRef D)) \<and> onext st \<le> D \<and>
                D \<noteq> onext st \<and> D \<noteq> Suc (onext st) \<and> D < onext st' \<and>
                objs st' D = Some (descriptor_object (js_get (objs st) pd ''properties'')
                                    (js_get (objs st) pd ''settings'')))"
    unfolding tx_inv_def by blast
  from D k pd obtain D where Dk: "map_of (props dob) k = Some (plain (VRef D))"
    and Dn: "onext st \<le> D"
    and Do: "objs st' D = Some (descriptor_object (js_get (objs st) pd ''properties'')
                                    (js_get (objs st) pd ''settings''))"
    by blast
  from wf sc have dn: "definitions sc < onext st"
    by (auto simp: registry_wf_def split: option.splits)
  from wf sc k pd have pn: "pd < onext st"
    by (auto simp: registry_wf_def registered_def own_keys_def list_all_iff
        split: option.splits val.splits)
  have fr: "\<And>a key. a < onext st \<Longrightarrow> js_get (objs st') a key = js_get (objs st) a key"
    using old by (intro js_get_frame) simp
  have g1: "js_get (objs st') (Suc (onext st)) k = VRef D"
    using js_get_own [where h = "objs st'", OF dob Dk] by (simp add: plain_def)
  have ne: "D \<noteq> pd"
    using Dn pn by simp
  have g2: "js_get (objs st') D ''settings'' = js_get (objs st) pd ''settings''"
    "js_get (objs st') D ''properties'' = js_get (objs st) pd ''properties''"
    using Do by (simp_all add: descriptor_members)
  have g3: "js_get (js_set (objs st') D ''settings'' v) pd ''settings'' =
      js_get (objs st') pd ''settings''"
    using Dn pn by (intro js_get_frame) simp
  have a1: "transaction p txa st = Inr (snext st, st') \<and> srcs st' (snext st) = Some ?tx"
    using r s by simp
  have a2: "js_get (objs st') (definitions ?tx) k = VRef D \<and> onext st \<le> D \<and> D \<noteq> pd
      \<and> objs st' D = Some (descriptor_object (js_get (objs st) pd ''properties'')
                              (js_get (objs st) pd ''settings''))"
    using g1 Dn ne Do by simp
  have a3: "js_get (objs st') (definitions sc) k = VRef pd \<and> objs st' pd = objs st pd
      \<and> js_get (objs st') D ''settings'' = js_get (objs st') pd ''settings''
      \<and> js_get (objs st') D ''properties'' = js_get (objs st') pd ''properties''
      \<and> js_get (js_set (objs st') D ''settings'' v) pd ''settings'' =
          js_get (objs st) pd ''settings''"
    using fr [OF dn] fr [OF pn] old [OF pn] pd g2 g3 by simp
  show ?thesis
    using a1 a2 a3 by (intro exI [of _ st'] exI [of _ ?tx] exI [of _ D]) blast
qed

theorem transaction_descriptors_witness:
  "transaction 0 (Some db_adapter) (ab_state db_live) = Inr (1, ab_tx_state (Some db_adapter))
   \<and> js_get ab_tx_heap 15 ''A'' = VRef 19
   \<and> ab_tx_heap 19 = Some (descriptor_object (VRef 2) (VRef 3))
   \<and> js_get ab_tx_heap 1 ''A'' = VRef 7
   \<and> ab_tx_heap 7 = ab_heap 7
   \<and> js_get ab_tx_heap 19 ''settings'' = js_get ab_tx_heap 7 ''settings''
   \<and> js_get (js_set ab_tx_heap 19 ''settings'' (VRef 2)) 7 ''settings'' = VRef 3"
proof -
  have k: "''A'' \<in> set (own_keys (objs (ab_state db_live)) (models (ab_source db_live)))"
    by (simp add: ab_tx_keys)
  have pd: "js_get (objs (ab_state db_live)) (definitions (ab_source db_live)) ''A'' = VRef 7"
    by (simp add: ab_facts)
  from transaction_descriptors [where st = "ab_state db_live" and p = 0
      and sc = "ab_source db_live" and a = db_live and txa = "Some db_adapter" and k = "''A''"
      and pd = 7 and v = "VRef 2", OF registry_wf_ab db_live_source k pd]
  obtain st' tx D where r: "transaction 0 (Some db_adapter) (ab_state db_live) =
        Inr (snext (ab_state db_live), st')"
    and s: "srcs st' (snext (ab_state db_live)) = Some tx"
    and g: "js_get (objs st') (definitions tx) ''A'' = VRef D"
    and o: "objs st' D = Some (descriptor_object
         (js_get (objs (ab_state db_live)) 7 ''properties'')
         (js_get (objs (ab_state db_live)) 7 ''settings''))"
    and p: "js_get (objs st') (definitions (ab_source db_live)) ''A'' = VRef 7"
      "objs st' 7 = objs (ab_state db_live) 7"
      "js_get (objs st') D ''settings'' = js_get (objs st') 7 ''settings''"
      "js_get (js_set (objs st') D ''settings'' (VRef 2)) 7 ''settings'' =
          js_get (objs (ab_state db_live)) 7 ''settings''"
    by blast
  have st': "st' = ab_tx_state (Some db_adapter)"
    using r by (simp add: transaction_ab)
  have tx: "tx = ab_tx_source (Some db_adapter)"
    using s by (simp add: st')
  have D: "D = 19"
    using g by (simp add: st' tx ab_tx_source_def ab_tx_heap_get)
  show ?thesis
    using o p by (simp add: st' D transaction_ab ab_facts ab_tx_heap_get ab_tx_one)
qed

subsection \<open>C3: connect on an adapter without a connect operation\<close>

text \<open>
  C3 says that \<^verbatim>\<open>connect(completion)\<close> on an adapter without a connect operation calls
  the completion on the next tick with no error and leaves \<^verbatim>\<open>connected\<close> and
  \<^verbatim>\<open>connecting\<close> as they were. The code sets \<^verbatim>\<open>connecting = true\<close> before it looks at
  the adapter, and nothing on this path sets it back: on the stub backend, where
  \<^verbatim>\<open>connecting\<close> was false, it is true after the call.
\<close>

theorem connect_flags_counterexample:
  "srcs stub_state 0 = Some stub_source
   \<and> adapter stub_source = Some stub_live
   \<and> ''connect'' \<notin> set (ops stub_live)
   \<and> connecting stub_source = False
   \<and> connect 0 (VFun (UserFn 0)) stub_state =
       Inr (stub_state\<lparr>srcs := (srcs stub_state)(0 \<mapsto> stub_source\<lparr>connecting := True\<rparr>),
                        ticks := [VFun (UserFn 0)]\<rparr>)"
proof -
  have h1: "srcs stub_state 0 = Some stub_source" by (rule stub_state_src)
  have h2: "adapter stub_source = Some stub_live" by (simp add: stub_source_def)
  have h3: "''connect'' \<notin> set (ops stub_live)" by (simp add: stub_live_def)
  have h4: "connecting stub_source = False" by (simp add: stub_source_def)
  have h5: "has_connect stub_source" by (simp add: stub_source_def)
  have h6: "ticks stub_state = []" by (simp add: stub_state_rest)
  have "connect 0 (VFun (UserFn 0)) stub_state =
       Inr (stub_state\<lparr>srcs := (srcs stub_state)(0 \<mapsto> stub_source\<lparr>connecting := True\<rparr>),
                        ticks := [VFun (UserFn 0)]\<rparr>)"
    using h1 h2 h3 h5 h6 by (simp add: connect_def upd_source_Some next_tick_def)
  with h1 h2 h3 h4 show ?thesis by simp
qed

text \<open>
  C3 as amended: on an adapter without a connect operation, \<^verbatim>\<open>connect(cb)\<close> sets
  \<^verbatim>\<open>connecting\<close> to true, leaves \<^verbatim>\<open>connected\<close> and everything else as it was, and
  queues \<open>cb\<close>, without calling it yet; the next tick calls \<open>cb\<close> with no argument (no
  error) and touches neither flag.
\<close>

theorem connect_no_adapter_connect:
  assumes "srcs st s = Some sc" and "has_connect sc" and "adapter sc = Some a"
    and "''connect'' \<notin> set (ops a)" and "cb = VFun (UserFn n)" and "ticks st = []"
  shows "connect s cb st =
           Inr (st\<lparr>srcs := (srcs st)(s \<mapsto> sc\<lparr>connecting := True\<rparr>), ticks := [cb]\<rparr>)
    \<and> run_tick (st\<lparr>srcs := (srcs st)(s \<mapsto> sc\<lparr>connecting := True\<rparr>), ticks := [cb]\<rparr>) =
           Inr (st\<lparr>srcs := (srcs st)(s \<mapsto> sc\<lparr>connecting := True\<rparr>),
                   trace := trace st @ [Invoke cb []]\<rparr>)"
  using assms
  by (simp add: connect_def upd_source_Some next_tick_def run_tick_def log_event_def)

theorem connect_no_adapter_connect_witness:
  "srcs stub_state 0 = Some stub_source \<and> has_connect stub_source
   \<and> adapter stub_source = Some stub_live \<and> ''connect'' \<notin> set (ops stub_live)
   \<and> ticks stub_state = []
   \<and> connect 0 (VFun (UserFn 0)) stub_state =
        Inr (stub_state\<lparr>srcs := (srcs stub_state)(0 \<mapsto> stub_source\<lparr>connecting := True\<rparr>),
                         ticks := [VFun (UserFn 0)]\<rparr>)
   \<and> run_tick (stub_state\<lparr>srcs := (srcs stub_state)(0 \<mapsto> stub_source\<lparr>connecting := True\<rparr>),
                         ticks := [VFun (UserFn 0)]\<rparr>) =
        Inr (stub_state\<lparr>srcs := (srcs stub_state)(0 \<mapsto> stub_source\<lparr>connecting := True\<rparr>),
                         trace := trace stub_state @ [Invoke (VFun (UserFn 0)) []]\<rparr>)"
proof -
  have h1: "srcs stub_state 0 = Some stub_source" by (rule stub_state_src)
  have h2: "has_connect stub_source" by (simp add: stub_source_def)
  have h3: "adapter stub_source = Some stub_live" by (simp add: stub_source_def)
  have h4: "''connect'' \<notin> set (ops stub_live)" by (simp add: stub_live_def)
  have h5: "ticks stub_state = []" by (simp add: stub_state_rest)
  show ?thesis
    using h1 h2 h3 h4 h5 connect_no_adapter_connect [OF h1 h2 h3 h4 refl h5, of 0]
    by simp
qed

subsection \<open>C4: errors that a completion reports\<close>

text \<open>
  C4 says that no operation throws across an asynchronous boundary: an error that a backend
  completion reports reaches the caller only as the error argument of its callback, for
  \<^verbatim>\<open>defineForeignKey\<close> in particular. The completion that \<^verbatim>\<open>defineForeignKey\<close> hands
  to the adapter starts with \<^verbatim>\<open>if (err) throw err\<close> (line 395). On the DataSource with the
  types \<^verbatim>\<open>A\<close> and \<^verbatim>\<open>B\<close>, whose adapter answers later, \<^verbatim>\<open>defineForeignKey\<close>
  returns, and the completion called with the error \<^verbatim>\<open>'boom'\<close> throws it.
\<close>

theorem completion_throws_counterexample:
  "defineForeignKey 0 ''A'' ''userId'' (VStr ''B'') (ab_state db_live) =
     Inr (log_event (Invoke (VBuiltin ''registerProperty'') [VStr ''userId''])
            (log_event (AdapterCall 0 ''defineForeignKey''
               [VStr ''A'', VStr ''userId'', VFun (ForeignKeyDone 0 ''A'' ''userId'')])
               (ab_state db_live)))
   \<and> call_fn (VFun (ForeignKeyDone 0 ''A'' ''userId'')) [VStr ''boom'']
       (log_event (Invoke (VBuiltin ''registerProperty'') [VStr ''userId''])
            (log_event (AdapterCall 0 ''defineForeignKey''
               [VStr ''A'', VStr ''userId'', VFun (ForeignKeyDone 0 ''A'' ''userId'')])
               (ab_state db_live))) =
     Inl (Thrown (VStr ''boom''))"
proof -
  have fa: "fk_args db_live ''A'' ''userId'' (VStr ''B'') (VFun (ForeignKeyDone 0 ''A'' ''userId''))
      = [VStr ''A'', VStr ''userId'', VFun (ForeignKeyDone 0 ''A'' ''userId'')]"
    by (simp add: fk_args_def db_live_def)
  have later: "defineForeignKey 0 ''A'' ''userId'' (VStr ''B'') (ab_state db_live) =
      Inr (log_event (Invoke (VBuiltin ''registerProperty'') [VStr ''userId''])
            (log_event (AdapterCall 0 ''defineForeignKey''
               [VStr ''A'', VStr ''userId'', VFun (ForeignKeyDone 0 ''A'' ''userId'')])
               (ab_state db_live)))"
    using defineForeignKey_later [where st = "ab_state db_live" and s = 0
        and sc = "ab_source db_live"
        and a = db_live and cn = "''A''" and d = 7 and ps = 2 and c = 5
        and rp = "VBuiltin ''registerProperty''" and key = "''userId''" and f = "VStr ''B''"]
    by (simp add: ab_facts fa) (simp add: db_live_def)
  show ?thesis
    by (simp add: later arg_def)
qed

text \<open>
  C4 as amended, for a DataSource or transaction context with an adapter and a callback
  that the caller supplies: when a backend completion reports an error \<open>err\<close>, every
  operation but one delivers it as the argument of that callback and does not throw. The
  completion of \<^verbatim>\<open>connect\<close> calls the callback with \<open>err\<close>; \<^verbatim>\<open>disconnect\<close>,
  \<^verbatim>\<open>automigrate\<close>, \<^verbatim>\<open>autoupdate\<close>, \<^verbatim>\<open>isActual\<close>, \<^verbatim>\<open>discoverModels\<close>,
  \<^verbatim>\<open>discoverModelProperties\<close>, \<^verbatim>\<open>discoverPrimaryKeys\<close>, \<^verbatim>\<open>discoverForeignKeys\<close> and,
  on a transaction context, \<^verbatim>\<open>exec\<close> hand the callback itself to the adapter, so an
  adapter that answers at once with \<open>err\<close> calls it with \<open>err\<close> and the operation
  returns. The one exception is \<^verbatim>\<open>defineForeignKey\<close>: its completion throws \<open>err\<close>, and
  when the adapter answers at once, \<^verbatim>\<open>defineForeignKey\<close> itself throws it.
\<close>

theorem completion_errors:
  assumes sc: "srcs st s = Some sc" and ad: "adapter sc = Some a"
    and err: "truthy err" and cb: "cb = VFun (UserFn n)"
  shows "(\<forall>st'. call_fn cb [err] st' = Inr (log_event (Invoke cb [err]) st'))
    \<and> (\<forall>st'. call_fn (VFun (ConnectDone s cb)) [err] st' = Inr (log_event (Invoke cb [err]) st'))
    \<and> (has_connect sc \<and> ''connect'' \<in> set (ops a)
        \<and> map_of (replies a) ''connect'' = Some [err] \<longrightarrow>
         connect s cb st =
           Inr (st\<lparr>srcs := (srcs st)(s \<mapsto> sc\<lparr>connecting := True\<rparr>),
                   trace := trace st @
                     [AdapterCall s ''connect'' [VFun (ConnectDone s cb)], Invoke cb [err]]\<rparr>))
    \<and> (\<not> isTransaction sc \<and> ''disconnect'' \<in> set (ops a)
        \<and> map_of (replies a) ''disconnect'' = Some [err] \<longrightarrow>
         disconnect s cb st =
           Inr (st\<lparr>srcs := (srcs st)(s \<mapsto> sc\<lparr>connected := False\<rparr>),
                   trace := trace st @ [AdapterCall s ''disconnect'' [cb], Invoke cb [err]]\<rparr>))
    \<and> (\<not> isTransaction sc \<and> ''automigrate'' \<in> set (ops a)
        \<and> map_of (replies a) ''automigrate'' = Some [err] \<longrightarrow>
         automigrate s cb st =
           Inr (st\<lparr>trace := trace st @ freeze_events a s @
                  [AdapterCall s ''automigrate'' [cb], Invoke cb [err]]\<rparr>))
    \<and> (\<not> isTransaction sc \<and> ''autoupdate'' \<in> set (ops a)
        \<and> map_of (replies a) ''autoupdate'' = Some [err] \<longrightarrow>
         autoupdate s cb st =
           Inr (st\<lparr>trace := trace st @ freeze_events a s @
                  [AdapterCall s ''autoupdate'' [cb], Invoke cb [err]]\<rparr>))
    \<and> (\<not> isTransaction sc \<and> ''isActual'' \<in> set (ops a)
        \<and> map_of (replies a) ''isActual'' = Some [err] \<longrightarrow>
         isActual s cb st =
           Inr (st\<lparr>trace := trace st @ freeze_events a s @
                  [AdapterCall s ''isActual'' [cb], Invoke cb [err]]\<rparr>))
    \<and> (\<not> isTransaction sc \<and> ''discoverModels'' \<in> set (ops a)
        \<and> map_of (replies a) ''discoverModels'' = Some [err] \<longrightarrow>
         discoverModels s options cb st =
           Inr (st\<lparr>trace := trace st @ freeze_events a s @
                  [AdapterCall s ''discoverModels'' [options, cb], Invoke cb [err]]\<rparr>))
    \<and> (\<not> isTransaction sc \<and> ''discoverModelProperties'' \<in> set (ops a)
        \<and> map_of (replies a) ''discoverModelProperties'' = Some [err] \<longrightarrow>
         discoverModelProperties s options cb st =
           Inr (st\<lparr>trace := trace st @ freeze_events a s @
                  [AdapterCall s ''discoverModelProperties'' [options, cb], Invoke cb [err]]\<rparr>))
    \<and> (\<not> isTransaction sc \<and> ''discoverPrimaryKeys'' \<in> set (ops a)
        \<and> map_of (replies a) ''discoverPrimaryKeys'' = Some [err] \<longrightarrow>
         discoverPrimaryKeys s owner table cb st =
           Inr (st\<lparr>trace := trace st @ freeze_events a s @
                  [AdapterCall s ''discoverPrimaryKeys'' [owner, table, cb], Invoke cb [err]]\<rparr>))
    \<and> (\<not> isTransaction sc \<and> ''discoverForeignKeys'' \<in> set (ops a)
        \<and> map_of (replies a) ''discoverForeignKeys'' = Some [err] \<longrightarrow>
         discoverForeignKeys s owner table cb st =
           Inr (st\<lparr>trace := trace st @ freeze_events a s @
                  [AdapterCall s ''discoverForeignKeys'' [owner, table, cb], Invoke cb [err]]\<rparr>))
    \<and> (isTransaction sc \<and> ''exec'' \<in> set (ops a)
        \<and> map_of (replies a) ''exec'' = Some [err] \<longrightarrow>
         exec s cb st =
           Inr (st\<lparr>trace := trace st @ [AdapterCall s ''exec'' [cb], Invoke cb [err]]\<rparr>))
    \<and> (\<forall>st'. call_fn (VFun (ForeignKeyDone s cn key)) (err # rest) st' = Inl (Thrown err))
    \<and> (\<not> isTransaction sc \<and> js_get (objs st) (definitions sc) cn = VRef d
        \<and> js_get (objs st) d ''properties'' = VRef ps
        \<and> \<not> truthy (js_get (objs st) ps key)
        \<and> ''defineForeignKey'' \<in> set (ops a)
        \<and> map_of (replies a) ''defineForeignKey'' = Some (err # rest) \<longrightarrow>
         defineForeignKey s cn key f st = Inl (Thrown err))"
proof -
  let ?st1 = "st\<lparr>trace := trace st @ freeze_events a s\<rparr>"
  have u: "\<forall>st'. call_fn cb [err] st' = Inr (log_event (Invoke cb [err]) st')"
    by (simp add: cb)
  have c: "\<forall>st'. call_fn (VFun (ConnectDone s cb)) [err] st' =
      Inr (log_event (Invoke cb [err]) st')"
    using err by (simp add: cb arg_def)
  have fr: "freeze s st = Inr ?st1"
    using sc ad by (rule freeze_live)
  have rq: "adapter_request a s opn (args @ [cb]) ?st1 =
      Inr (st\<lparr>trace := trace st @ freeze_events a s @
             [AdapterCall s opn (args @ [cb]), Invoke cb [err]]\<rparr>)"
    if "map_of (replies a) opn = Some [err]" for opn args
    using that request_user [of a s opn args n ?st1] by (simp add: cb reply_events_def)
  have rq0: "adapter_request a s opn [cb] st' =
      Inr (st'\<lparr>trace := trace st' @ [AdapterCall s opn [cb], Invoke cb [err]]\<rparr>)"
    if "map_of (replies a) opn = Some [err]" for opn st'
    using that request_user [of a s opn "[]" n st'] by (simp add: cb reply_events_def)
  have co: "has_connect sc \<and> ''connect'' \<in> set (ops a)
        \<and> map_of (replies a) ''connect'' = Some [err] \<longrightarrow>
         connect s cb st =
           Inr (st\<lparr>srcs := (srcs st)(s \<mapsto> sc\<lparr>connecting := True\<rparr>),
                   trace := trace st @
                     [AdapterCall s ''connect'' [VFun (ConnectDone s cb)], Invoke cb [err]]\<rparr>)"
    using sc ad err
    by (simp add: connect_def upd_source_Some adapter_request_def log_event_def arg_def Let_def cb)
  have di: "\<not> isTransaction sc \<and> ''disconnect'' \<in> set (ops a)
        \<and> map_of (replies a) ''disconnect'' = Some [err] \<longrightarrow>
         disconnect s cb st =
           Inr (st\<lparr>srcs := (srcs st)(s \<mapsto> sc\<lparr>connected := False\<rparr>),
                   trace := trace st @ [AdapterCall s ''disconnect'' [cb], Invoke cb [err]]\<rparr>)"
    using sc ad by (simp add: disconnect_def upd_source_Some rq0)
  have m: "\<not> isTransaction sc \<and> ''automigrate'' \<in> set (ops a)
        \<and> map_of (replies a) ''automigrate'' = Some [err] \<longrightarrow>
         automigrate s cb st =
           Inr (st\<lparr>trace := trace st @ freeze_events a s @
                  [AdapterCall s ''automigrate'' [cb], Invoke cb [err]]\<rparr>)"
    using sc ad rq [of _ "[]"] by (simp add: automigrate_def fr)
  have up: "\<not> isTransaction sc \<and> ''autoupdate'' \<in> set (ops a)
        \<and> map_of (replies a) ''autoupdate'' = Some [err] \<longrightarrow>
         autoupdate s cb st =
           Inr (st\<lparr>trace := trace st @ freeze_events a s @
                  [AdapterCall s ''autoupdate'' [cb], Invoke cb [err]]\<rparr>)"
    using sc ad rq [of _ "[]"] by (simp add: autoupdate_def fr)
  have i: "\<not> isTransaction sc \<and> ''isActual'' \<in> set (ops a)
        \<and> map_of (replies a) ''isActual'' = Some [err] \<longrightarrow>
         isActual s cb st =
           Inr (st\<lparr>trace := trace st @ freeze_events a s @
                  [AdapterCall s ''isActual'' [cb], Invoke cb [err]]\<rparr>)"
    using sc ad rq [of _ "[]"] by (simp add: isActual_def fr)
  have d1: "\<not> isTransaction sc \<and> ''discoverModels'' \<in> set (ops a)
        \<and> map_of (replies a) ''discoverModels'' = Some [err] \<longrightarrow>
         discoverModels s options cb st =
           Inr (st\<lparr>trace := trace st @ freeze_events a s @
                  [AdapterCall s ''discoverModels'' [options, cb], Invoke cb [err]]\<rparr>)"
    using sc ad rq [of _ "[options]"] by (simp add: discoverModels_def fr)
  have d2: "\<not> isTransaction sc \<and> ''discoverModelProperties'' \<in> set (ops a)
        \<and> map_of (replies a) ''discoverModelProperties'' = Some [err] \<longrightarrow>
         discoverModelProperties s options cb st =
           Inr (st\<lparr>trace := trace st @ freeze_events a s @
                  [AdapterCall s ''discoverModelProperties'' [options, cb], Invoke cb [err]]\<rparr>)"
    using sc ad rq [of _ "[options]"] by (simp add: discoverModelProperties_def fr)
  have d3: "\<not> isTransaction sc \<and> ''discoverPrimaryKeys'' \<in> set (ops a)
        \<and> map_of (replies a) ''discoverPrimaryKeys'' = Some [err] \<longrightarrow>
         discoverPrimaryKeys s owner table cb st =
           Inr (st\<lparr>trace := trace st @ freeze_events a s @
                  [AdapterCall s ''discoverPrimaryKeys'' [owner, table, cb], Invoke cb [err]]\<rparr>)"
    using sc ad rq [of _ "[owner, table]"] by (simp add: discoverPrimaryKeys_def fr)
  have d4: "\<not> isTransaction sc \<and> ''discoverForeignKeys'' \<in> set (ops a)
        \<and> map_of (replies a) ''discoverForeignKeys'' = Some [err] \<longrightarrow>
         discoverForeignKeys s owner table cb st =
           Inr (st\<lparr>trace := trace st @ freeze_events a s @
                  [AdapterCall s ''discoverForeignKeys'' [owner, table, cb], Invoke cb [err]]\<rparr>)"
    using sc ad rq [of _ "[owner, table]"] by (simp add: discoverForeignKeys_def fr)
  have ex: "isTransaction sc \<and> ''exec'' \<in> set (ops a)
        \<and> map_of (replies a) ''exec'' = Some [err] \<longrightarrow>
         exec s cb st =
           Inr (st\<lparr>trace := trace st @ [AdapterCall s ''exec'' [cb], Invoke cb [err]]\<rparr>)"
    using sc ad by (simp add: exec_def rq0)
  have t: "\<forall>st'. call_fn (VFun (ForeignKeyDone s cn key)) (err # rest) st' = Inl (Thrown err)"
    using err by (simp add: arg_def)
  have k: "\<not> isTransaction sc \<and> js_get (objs st) (definitions sc) cn = VRef d
        \<and> js_get (objs st) d ''properties'' = VRef ps
        \<and> \<not> truthy (js_get (objs st) ps key)
        \<and> ''defineForeignKey'' \<in> set (ops a)
        \<and> map_of (replies a) ''defineForeignKey'' = Some (err # rest) \<longrightarrow>
         defineForeignKey s cn key f st = Inl (Thrown err)"
  proof (intro impI, elim conjE)
    assume h: "js_get (objs st) (definitions sc) cn = VRef d"
      "js_get (objs st) d ''properties'' = VRef ps" "\<not> truthy (js_get (objs st) ps key)"
      "''defineForeignKey'' \<in> set (ops a)"
      "map_of (replies a) ''defineForeignKey'' = Some (err # rest)"
    have "adapter_request a s ''defineForeignKey''
        (fk_args a cn key f (VFun (ForeignKeyDone s cn key))) st = Inl (Thrown err)"
      using adapter_request_reply [where a = a and s = s and st = st
          and cb = "VFun (ForeignKeyDone s cn key)", OF h(5) fk_args_snoc] t
      by simp
    then show "defineForeignKey s cn key f st = Inl (Thrown err)"
      using sc ad h(1-4) by (simp add: defineForeignKey_def fk_args_def Let_def split: if_splits)
  qed
  show ?thesis
    by (intro conjI u c co di m up i d1 d2 d3 d4 ex t k)
qed

theorem completion_errors_witness:
  "call_fn (VFun (ConnectDone 0 (VFun (UserFn 0)))) [VStr ''boom''] (ab_state failing_live) =
     Inr (log_event (Invoke (VFun (UserFn 0)) [VStr ''boom'']) (ab_state failing_live))
   \<and> connect 0 (VFun (UserFn 0)) (ab_state failing_live) =
       Inr ((ab_state failing_live)\<lparr>srcs := (srcs (ab_state failing_live))
               (0 \<mapsto> (ab_source failing_live)\<lparr>connecting := True\<rparr>),
          trace := trace (ab_state failing_live) @
          [AdapterCall 0 ''connect'' [VFun (ConnectDone 0 (VFun (UserFn 0)))],
           Invoke (VFun (UserFn 0)) [VStr ''boom'']]\<rparr>)
   \<and> disconnect 0 (VFun (UserFn 0)) (ab_state failing_live) =
       Inr ((ab_state failing_live)\<lparr>srcs := (srcs (ab_state failing_live))
               (0 \<mapsto> (ab_source failing_live)\<lparr>connected := False\<rparr>),
          trace := trace (ab_state failing_live) @
          [AdapterCall 0 ''disconnect'' [VFun (UserFn 0)],
           Invoke (VFun (UserFn 0)) [VStr ''boom'']]\<rparr>)
   \<and> autoupdate 0 (VFun (UserFn 0)) (ab_state failing_live) =
       Inr ((ab_state failing_live)\<lparr>trace := trace (ab_state failing_live) @
          [AdapterCall 0 ''autoupdate'' [VFun (UserFn 0)],
           Invoke (VFun (UserFn 0)) [VStr ''boom'']]\<rparr>)
   \<and> discoverPrimaryKeys 0 (VStr ''o'') (VStr ''t'') (VFun (UserFn 0)) (ab_state failing_live) =
       Inr ((ab_state failing_live)\<lparr>trace := trace (ab_state failing_live) @
          [AdapterCall 0 ''discoverPrimaryKeys'' [VStr ''o'', VStr ''t'', VFun (UserFn 0)],
           Invoke (VFun (UserFn 0)) [VStr ''boom'']]\<rparr>)
   \<and> call_fn (VFun (ForeignKeyDone 0 ''A'' ''userId'')) [VStr ''boom'']
         (ab_state failing_live) = Inl (Thrown (VStr ''boom''))
   \<and> defineForeignKey 0 ''A'' ''userId'' (VStr ''B'') (ab_state failing_live) =
       Inl (Thrown (VStr ''boom''))
   \<and> exec 1 (VFun (UserFn 0)) (ab_tx_state (Some failing_live)) =
       Inr ((ab_tx_state (Some failing_live))\<lparr>trace := trace (ab_tx_state (Some failing_live)) @
          [AdapterCall 1 ''exec'' [VFun (UserFn 0)],
           Invoke (VFun (UserFn 0)) [VStr ''boom'']]\<rparr>)"
proof -
  have ds: "call_fn (VFun (ConnectDone 0 (VFun (UserFn 0)))) [VStr ''boom''] (ab_state failing_live) =
     Inr (log_event (Invoke (VFun (UserFn 0)) [VStr ''boom'']) (ab_state failing_live))
   \<and> connect 0 (VFun (UserFn 0)) (ab_state failing_live) =
       Inr ((ab_state failing_live)\<lparr>srcs := (srcs (ab_state failing_live))
               (0 \<mapsto> (ab_source failing_live)\<lparr>connecting := True\<rparr>),
          trace := trace (ab_state failing_live) @
          [AdapterCall 0 ''connect'' [VFun (ConnectDone 0 (VFun (UserFn 0)))],
           Invoke (VFun (UserFn 0)) [VStr ''boom'']]\<rparr>)
   \<and> disconnect 0 (VFun (UserFn 0)) (ab_state failing_live) =
       Inr ((ab_state failing_live)\<lparr>srcs := (srcs (ab_state failing_live))
               (0 \<mapsto> (ab_source failing_live)\<lparr>connected := False\<rparr>),
          trace := trace (ab_state failing_live) @
          [AdapterCall 0 ''disconnect'' [VFun (UserFn 0)],
           Invoke (VFun (UserFn 0)) [VStr ''boom'']]\<rparr>)
   \<and> autoupdate 0 (VFun (UserFn 0)) (ab_state failing_live) =
       Inr ((ab_state failing_live)\<lparr>trace := trace (ab_state failing_live) @
          [AdapterCall 0 ''autoupdate'' [VFun (UserFn 0)],
           Invoke (VFun (UserFn 0)) [VStr ''boom'']]\<rparr>)
   \<and> discoverPrimaryKeys 0 (VStr ''o'') (VStr ''t'') (VFun (UserFn 0)) (ab_state failing_live) =
       Inr ((ab_state failing_live)\<lparr>trace := trace (ab_state failing_live) @
          [AdapterCall 0 ''discoverPrimaryKeys'' [VStr ''o'', VStr ''t'', VFun (UserFn 0)],
           Invoke (VFun (UserFn 0)) [VStr ''boom'']]\<rparr>)
   \<and> call_fn (VFun (ForeignKeyDone 0 ''A'' ''userId'')) [VStr ''boom'']
         (ab_state failing_live) = Inl (Thrown (VStr ''boom''))
   \<and> defineForeignKey 0 ''A'' ''userId'' (VStr ''B'') (ab_state failing_live) =
       Inl (Thrown (VStr ''boom''))"
    using completion_errors [where st = "ab_state failing_live" and s = 0
        and sc = "ab_source failing_live" and a = failing_live and err = "VStr ''boom''"
        and cb = "VFun (UserFn 0)" and n = 0 and cn = "''A''" and key = "''userId''"
        and rest = "[]" and d = 7 and ps = 2 and f = "VStr ''B''" and owner = "VStr ''o''"
        and table = "VStr ''t''"]
    by (simp add: ab_facts failing_live_def freeze_events_def)
  have tx: "exec 1 (VFun (UserFn 0)) (ab_tx_state (Some failing_live)) =
       Inr ((ab_tx_state (Some failing_live))\<lparr>trace := trace (ab_tx_state (Some failing_live)) @
          [AdapterCall 1 ''exec'' [VFun (UserFn 0)],
           Invoke (VFun (UserFn 0)) [VStr ''boom'']]\<rparr>)"
    using completion_errors [where st = "ab_tx_state (Some failing_live)" and s = 1
        and sc = "ab_tx_source (Some failing_live)" and a = failing_live
        and err = "VStr ''boom''" and cb = "VFun (UserFn 0)" and n = 0]
    by (simp add: ab_tx_source_def failing_live_def)
  show ?thesis
    using ds tx by simp
qed

subsection \<open>C5: the migration and discovery operations\<close>

text \<open>
  C5: on a DataSource with a live adapter, each of \<^verbatim>\<open>automigrate\<close>, \<^verbatim>\<open>autoupdate\<close>,
  \<^verbatim>\<open>isActual\<close>, \<^verbatim>\<open>discoverModels\<close>, \<^verbatim>\<open>discoverModelProperties\<close>,
  \<^verbatim>\<open>discoverPrimaryKeys\<close> and \<^verbatim>\<open>discoverForeignKeys\<close> first freezes (calling the
  adapter's \<^verbatim>\<open>freezeSchema\<close> when it has one), then forwards its arguments and the
  completion to the adapter's operation of the same name when it has one, and otherwise
  calls the completion: with no argument, and for \<^verbatim>\<open>isActual\<close> with
  \<^verbatim>\<open>(null, true)\<close>. It does nothing else and does not throw.
\<close>

theorem discovery_delegate:
  assumes "srcs st s = Some sc" and "adapter sc = Some a" and "cb = VFun (UserFn n)"
  shows "automigrate s cb st =
           Inr (st\<lparr>trace := trace st @ delegate_events a s ''automigrate'' [] [] cb\<rparr>)
    \<and> autoupdate s cb st =
           Inr (st\<lparr>trace := trace st @ delegate_events a s ''autoupdate'' [] [] cb\<rparr>)
    \<and> isActual s cb st =
           Inr (st\<lparr>trace := trace st @
                  delegate_events a s ''isActual'' [] [VNull, VBool True] cb\<rparr>)
    \<and> discoverModels s options cb st =
           Inr (st\<lparr>trace := trace st @
                  delegate_events a s ''discoverModels'' [options] [] cb\<rparr>)
    \<and> discoverModelProperties s options cb st =
           Inr (st\<lparr>trace := trace st @
                  delegate_events a s ''discoverModelProperties'' [options] [] cb\<rparr>)
    \<and> discoverPrimaryKeys s owner table cb st =
           Inr (st\<lparr>trace := trace st @
                  delegate_events a s ''discoverPrimaryKeys'' [owner, table] [] cb\<rparr>)
    \<and> discoverForeignKeys s owner table cb st =
           Inr (st\<lparr>trace := trace st @
                  delegate_events a s ''discoverForeignKeys'' [owner, table] [] cb\<rparr>)"
proof -
  let ?st1 = "st\<lparr>trace := trace st @ freeze_events a s\<rparr>"
  have fr: "freeze s st = Inr ?st1"
    using assms(1,2) by (rule freeze_live)
  have rq: "\<And>opn args. adapter_request a s opn (args @ [cb]) ?st1 =
      Inr (st\<lparr>trace := trace st @ freeze_events a s @
                AdapterCall s opn (args @ [cb]) # reply_events a opn cb\<rparr>)"
    unfolding assms(3) request_user by simp
  have dl: "\<And>dflt. call_fn cb dflt ?st1 =
      Inr (st\<lparr>trace := trace st @ freeze_events a s @ [Invoke cb dflt]\<rparr>)"
    unfolding assms(3) by (simp add: log_event_def)
  have tr: "truthy cb"
    unfolding assms(3) by simp
  show ?thesis
    using rq [of _ "[]"] rq [of _ "[options]"] rq [of _ "[owner, table]"]
    by (simp add: automigrate_def autoupdate_def isActual_def discoverModels_def
        discoverModelProperties_def discoverPrimaryKeys_def discoverForeignKeys_def
        fr assms(1,2) dl tr delegate_events_def)
qed

theorem discovery_delegate_witness:
  "srcs stub_state 0 = Some stub_source \<and> adapter stub_source = Some stub_live
   \<and> isActual 0 (VFun (UserFn 0)) stub_state =
        Inr (stub_state\<lparr>trace := trace stub_state @
               [Invoke (VFun (UserFn 0)) [VNull, VBool True]]\<rparr>)
   \<and> autoupdate 0 (VFun (UserFn 0)) stub_state =
        Inr (stub_state\<lparr>trace := trace stub_state @ [Invoke (VFun (UserFn 0)) []]\<rparr>)"
proof -
  have h1: "srcs stub_state 0 = Some stub_source" by (rule stub_state_src)
  have h2: "adapter stub_source = Some stub_live" by (simp add: stub_source_def)
  have ev: "\<And>opn args dflt cb. delegate_events stub_live 0 opn args dflt cb =
      (if opn \<in> {''define'', ''log'', ''logger''} then [AdapterCall 0 opn (args @ [cb])]
       else [Invoke cb dflt])"
    by (simp add: delegate_events_def freeze_events_def reply_events_def stub_live_def)
  show ?thesis
    using h1 h2 discovery_delegate [OF h1 h2 refl, of 0]
    by (simp add: ev)
qed

subsection \<open>C6: the transaction context\<close>

text \<open>
  C6 says that on every DataSource \<^verbatim>\<open>transaction()\<close> returns a new context with the
  parent's types, and that defining a new type on the context leaves the parent's mappings
  as they were. \<^verbatim>\<open>transaction\<close> calls \<^verbatim>\<open>schema.adapter.transaction()\<close> without a
  test: on the stub backend, which implements only \<^verbatim>\<open>initialize\<close> and \<^verbatim>\<open>define\<close>,
  it throws a TypeError. And the context is an \<^verbatim>\<open>EventEmitter\<close> that is given
  \<^verbatim>\<open>connect\<close> and \<^verbatim>\<open>exec\<close> and no \<^verbatim>\<open>define\<close>: on the DataSource with the types
  \<^verbatim>\<open>A\<close> and \<^verbatim>\<open>B\<close>, \<^verbatim>\<open>define\<close> called on the context throws a TypeError.
\<close>

theorem transaction_unsupported_counterexample:
  "transaction 0 None stub_state = Inl (TypeError ''adapter.transaction is not a function'')
   \<and> transaction 0 (Some db_adapter) (ab_state db_live) =
        Inr (1, ab_tx_state (Some db_adapter))
   \<and> map_option isTransaction (srcs (ab_tx_state (Some db_adapter)) 1) = Some True
   \<and> call_define no_dao 1 ''C'' VUndefined VUndefined (ab_tx_state (Some db_adapter)) =
        Inl (TypeError ''transaction.define is not a function'')"
proof -
  have a: "transaction 0 None stub_state =
      Inl (TypeError ''adapter.transaction is not a function'')"
    by (simp add: transaction_def stub_state_src stub_source_def stub_live_def)
  have b: "map_option isTransaction (srcs (ab_tx_state (Some db_adapter)) 1) = Some True"
    "call_define no_dao 1 ''C'' VUndefined VUndefined (ab_tx_state (Some db_adapter)) =
        Inl (TypeError ''transaction.define is not a function'')"
    by (simp_all add: call_define_def ab_tx_source_def)
  show ?thesis
    using a b transaction_ab by simp
qed

text \<open>
  C6 as amended: on a DataSource whose registry is as \<^verbatim>\<open>define\<close> leaves it, with no
  type named like a member of \<^verbatim>\<open>Object.prototype\<close> (the loop skips a name that \<^verbatim>\<open>in\<close>
  finds in the empty \<^verbatim>\<open>models\<close>): without an adapter, or with an adapter that has no
  \<^verbatim>\<open>transaction\<close>, \<^verbatim>\<open>transaction()\<close> throws a TypeError. With an adapter that has
  \<^verbatim>\<open>transaction\<close> it returns a new context \<open>tx\<close> with \<^verbatim>\<open>isTransaction\<close> true, the
  parent's \<^verbatim>\<open>name\<close> and \<^verbatim>\<open>settings\<close>, \<^verbatim>\<open>connected\<close> and \<^verbatim>\<open>connecting\<close> false,
  the adapter that the parent's adapter returned, and two new objects as \<^verbatim>\<open>models\<close> and
  \<^verbatim>\<open>definitions\<close> whose own keys are the parent's declared type names, in order. Every
  object of the heap before the call is unchanged, the parent's \<^verbatim>\<open>models\<close> and
  \<^verbatim>\<open>definitions\<close> among them, and stays so when an entry is stored in the context's
  \<^verbatim>\<open>models\<close> or \<^verbatim>\<open>definitions\<close> afterwards. \<^verbatim>\<open>define\<close> called on the context throws
  a TypeError: the context has no such member.
\<close>

theorem transaction_context:
  assumes wf: "registry_wf st p" and sc: "srcs st p = Some sc"
  shows "(adapter sc = None \<longrightarrow>
            transaction p txa st =
              Inl (TypeError ''Cannot read property transaction of undefined''))
    \<and> (\<forall>a. adapter sc = Some a \<and> ''transaction'' \<notin> set (ops a) \<longrightarrow>
            transaction p txa st = Inl (TypeError ''adapter.transaction is not a function''))
    \<and> (\<forall>a. adapter sc = Some a \<and> ''transaction'' \<in> set (ops a) \<longrightarrow>
         (\<exists>st' tx. transaction p txa st = Inr (snext st, st')
            \<and> srcs st' = (srcs st)(snext st \<mapsto> tx)
            \<and> isTransaction tx \<and> sname tx = sname sc \<and> settings tx = settings sc
            \<and> \<not> connected tx \<and> \<not> connecting tx \<and> adapter tx = txa \<and> origin tx = Some p
            \<and> onext st \<le> models tx \<and> onext st \<le> definitions tx
            \<and> models tx \<noteq> definitions tx
            \<and> own_keys (objs st') (models tx) = own_keys (objs st) (models sc)
            \<and> own_keys (objs st') (definitions tx) = own_keys (objs st) (models sc)
            \<and> (\<forall>b<onext st. objs st' b = objs st b)
            \<and> (\<forall>b<onext st. \<forall>cn v. js_set (objs st') (models tx) cn v b = objs st b
                  \<and> js_set (objs st') (definitions tx) cn v b = objs st b)
            \<and> (\<forall>da cn ps sg. call_define da (snext st) cn ps sg st' =
                  Inl (TypeError ''transaction.define is not a function''))))"
proof -
  let ?ds = "own_keys (objs st) (models sc)"
  let ?tx = "\<lparr>sname = sname sc, settings = settings sc, connected = False, connecting = False,
           adapter = txa, models = onext st, definitions = Suc (onext st),
           isTransaction = True, origin = Some p, has_connect = has_connect sc\<rparr>"
  have none: "adapter sc = None \<longrightarrow>
      transaction p txa st = Inl (TypeError ''Cannot read property transaction of undefined'')"
    using sc by (simp add: transaction_def)
  have unsupported: "\<forall>a. adapter sc = Some a \<and> ''transaction'' \<notin> set (ops a) \<longrightarrow>
      transaction p txa st = Inl (TypeError ''adapter.transaction is not a function'')"
    using sc by (simp add: transaction_def)
  have supported: "\<exists>st' tx. transaction p txa st = Inr (snext st, st')
            \<and> srcs st' = (srcs st)(snext st \<mapsto> tx)
            \<and> isTransaction tx \<and> sname tx = sname sc \<and> settings tx = settings sc
            \<and> \<not> connected tx \<and> \<not> connecting tx \<and> adapter tx = txa \<and> origin tx = Some p
            \<and> onext st \<le> models tx \<and> onext st \<le> definitions tx
            \<and> models tx \<noteq> definitions tx
            \<and> own_keys (objs st') (models tx) = own_keys (objs st) (models sc)
            \<and> own_keys (objs st') (definitions tx) = own_keys (objs st) (models sc)
            \<and> (\<forall>b<onext st. objs st' b = objs st b)
            \<and> (\<forall>b<onext st. \<forall>cn v. js_set (objs st') (models tx) cn v b = objs st b
                  \<and> js_set (objs st') (definitions tx) cn v b = objs st b)
            \<and> (\<forall>da cn ps sg. call_define da (snext st) cn ps sg st' =
                  Inl (TypeError ''transaction.define is not a function''))"
    if ad: "adapter sc = Some a" "''transaction'' \<in> set (ops a)" for a
  proof -
    from transaction_result [OF wf sc ad, of txa] obtain st'
      where r: "transaction p txa st = Inr (snext st, st')"
        and s: "srcs st' = (srcs st)(snext st \<mapsto> ?tx)"
        and inv: "tx_inv (objs st) (onext st) (definitions sc) (onext st) (Suc (onext st)) ?ds st'"
      by blast
    from inv obtain mob dob
      where old: "\<And>b. b < onext st \<Longrightarrow> objs st' b = objs st b"
        and mob: "objs st' (onext st) = Some mob" "map fst (props mob) = ?ds"
        and dob: "objs st' (Suc (onext st)) = Some dob" "map fst (props dob) = ?ds"
      unfolding tx_inv_def by blast
    have k1: "own_keys (objs st') (onext st) = ?ds" "own_keys (objs st') (Suc (onext st)) = ?ds"
      using mob dob by (simp_all add: own_keys_def)
    have a1: "transaction p txa st = Inr (snext st, st') \<and> srcs st' = (srcs st)(snext st \<mapsto> ?tx)"
      using r s by simp
    have a2: "isTransaction ?tx \<and> sname ?tx = sname sc \<and> settings ?tx = settings sc
        \<and> \<not> connected ?tx \<and> \<not> connecting ?tx \<and> adapter ?tx = txa \<and> origin ?tx = Some p
        \<and> onext st \<le> models ?tx \<and> onext st \<le> definitions ?tx \<and> models ?tx \<noteq> definitions ?tx"
      by simp
    have a3: "own_keys (objs st') (models ?tx) = ?ds \<and> own_keys (objs st') (definitions ?tx) = ?ds
        \<and> (\<forall>b<onext st. objs st' b = objs st b)"
      using k1 old by simp
    have a4: "\<forall>b<onext st. \<forall>cn v. js_set (objs st') (models ?tx) cn v b = objs st b
                  \<and> js_set (objs st') (definitions ?tx) cn v b = objs st b"
      using old by simp
    have a5: "\<forall>da cn ps sg. call_define da (snext st) cn ps sg st' =
                  Inl (TypeError ''transaction.define is not a function'')"
      by (simp add: call_define_def s)
    show ?thesis
      using a1 a2 a3 a4 a5 by (intro exI [of _ st'] exI [of _ ?tx]) blast
  qed
  show ?thesis
    using none unsupported supported by blast
qed

theorem transaction_context_witness:
  "transaction 0 (Some db_adapter) (ab_state db_live) = Inr (1, ab_tx_state (Some db_adapter))
   \<and> srcs (ab_tx_state (Some db_adapter)) 1 = Some (ab_tx_source (Some db_adapter))
   \<and> own_keys ab_tx_heap 14 = [''A'', ''B''] \<and> own_keys ab_tx_heap 15 = [''A'', ''B'']
   \<and> ab_tx_heap 0 = ab_heap 0 \<and> ab_tx_heap 1 = ab_heap 1
   \<and> js_set ab_tx_heap 14 ''C'' (VRef 5) 0 = ab_heap 0
   \<and> js_set ab_tx_heap 15 ''C'' (VRef 7) 1 = ab_heap 1
   \<and> call_define no_dao 1 ''C'' VUndefined VUndefined (ab_tx_state (Some db_adapter)) =
        Inl (TypeError ''transaction.define is not a function'')
   \<and> transaction 0 None (ab_state stub_live) =
        Inl (TypeError ''adapter.transaction is not a function'')"
proof -
  have un: "adapter (ab_source stub_live) = Some stub_live \<and> ''transaction'' \<notin> set (ops stub_live)"
    by (simp add: stub_live_def)
  have stub: "transaction 0 None (ab_state stub_live) =
        Inl (TypeError ''adapter.transaction is not a function'')"
    using transaction_context [where st = "ab_state stub_live" and p = 0
        and sc = "ab_source stub_live" and txa = None, OF registry_wf_ab]
      un by auto
  have su: "adapter (ab_source db_live) = Some db_live \<and> ''transaction'' \<in> set (ops db_live)"
    by (simp add: db_live_def)
  from transaction_context [where st = "ab_state db_live" and p = 0 and sc = "ab_source db_live"
      and txa = "Some db_adapter", OF registry_wf_ab db_live_source(1)] su
  obtain st' tx where r: "transaction 0 (Some db_adapter) (ab_state db_live) =
        Inr (snext (ab_state db_live), st')"
    and s: "srcs st' = (srcs (ab_state db_live))(snext (ab_state db_live) \<mapsto> tx)"
    and o: "\<forall>b<onext (ab_state db_live). \<forall>cn v.
          js_set (objs st') (models tx) cn v b = objs (ab_state db_live) b
          \<and> js_set (objs st') (definitions tx) cn v b = objs (ab_state db_live) b"
    and d: "\<forall>da cn ps sg. call_define da (snext (ab_state db_live)) cn ps sg st' =
                  Inl (TypeError ''transaction.define is not a function'')"
    by blast
  have st': "st' = ab_tx_state (Some db_adapter)"
    using r by (simp add: transaction_ab)
  have "srcs st' 1 = Some tx"
    using s by simp
  then have tx: "tx = ab_tx_source (Some db_adapter)"
    by (simp add: st')
  have e1: "js_set ab_tx_heap 14 ''C'' (VRef 5) 0 = ab_heap 0"
    "js_set ab_tx_heap 15 ''C'' (VRef 7) 1 = ab_heap 1"
    using o [rule_format, of 0 "''C''" "VRef 5"] o [rule_format, of 1 "''C''" "VRef 7"]
    by (simp_all add: st' tx ab_tx_source_def)
  have e2: "call_define no_dao 1 ''C'' VUndefined VUndefined (ab_tx_state (Some db_adapter)) =
        Inl (TypeError ''transaction.define is not a function'')"
    using d [rule_format, of no_dao "''C''" VUndefined VUndefined] by (simp add: st')
  show ?thesis
    using e1 e2 stub by (simp add: transaction_ab ab_tx_keys ab_tx_old)
qed

subsection \<open>C7: defineForeignKey twice\<close>




subsection \<open>C8: tableName\<close>

text \<open>
  C8: for a declared type \<open>t\<close> whose descriptor has a settings object,
  \<^verbatim>\<open>tableName(t)\<close> returns the configured table, or \<open>t\<close> when none is configured, and
  stores it in the settings; a second call returns the same value and changes nothing.
\<close>

theorem tableName_memoized:
  assumes sc: "srcs st s = Some sc"
    and d: "js_get (objs st) (definitions sc) t = VRef d"
    and g: "js_get (objs st) d ''settings'' = VRef g"
    and sep: "g \<notin> set (chain (objs st) (definitions sc))" "g \<notin> set (chain (objs st) d)"
    and v: "v = (if truthy (js_get (objs st) g ''table'') then js_get (objs st) g ''table''
                 else VStr t)"
    and st1: "st1 = st\<lparr>objs := js_set (objs st) g ''table'' v\<rparr>"
  shows "tableName s t st = Inr (v, st1) \<and> tableName s t st1 = Inr (v, st1)
    \<and> (\<not> truthy (js_get (objs st) g ''table'') \<longrightarrow> v = VStr t)"
proof -
  have first: "tableName s t st = Inr (v, st1)"
    using sc d g v st1 by (simp add: tableName_def Let_def)
  have tp: "''table'' \<noteq> ''__proto__''" by simp
  have d1: "js_get (objs st1) (definitions sc) t = VRef d"
    using sep(1) d by (simp add: st1 js_get_js_set_other)
  have g1: "js_get (objs st1) d ''settings'' = VRef g"
    using sep(2) g by (simp add: st1 js_get_js_set_other)
  have t1: "js_get (objs st1) g ''table'' =
      (if can_put (objs st) g ''table'' \<and> objs st g \<noteq> None then v
       else js_get (objs st) g ''table'')"
    by (simp add: st1 js_get_js_set_same [OF tp])
  let ?tb = "js_get (objs st1) g ''table''"
  let ?v' = "if truthy ?tb then ?tb else VStr t"
  have v1: "?v' = v"
    unfolding t1 using v by (auto split: if_splits)
  have idem: "st1\<lparr>objs := js_set (objs st1) g ''table'' v\<rparr> = st1"
    by (simp add: st1 js_set_idem [OF tp])
  have sc1: "srcs st1 s = Some sc"
    using sc by (simp add: st1)
  have "tableName s t st1 = Inr (?v', st1\<lparr>objs := js_set (objs st1) g ''table'' ?v'\<rparr>)"
    by (simp add: tableName_def Let_def sc1 d1 g1)
  then have second: "tableName s t st1 = Inr (v, st1)"
    by (simp only: v1 idem)
  show ?thesis
    using first second v by simp
qed

theorem tableName_memoized_witness:
  "tableName 0 ''A'' (ab_state db_live) =
     Inr (VStr ''A'', (ab_state db_live)\<lparr>objs := js_set ab_heap 3 ''table'' (VStr ''A'')\<rparr>)
   \<and> tableName 0 ''A'' ((ab_state db_live)\<lparr>objs := js_set ab_heap 3 ''table'' (VStr ''A'')\<rparr>) =
     Inr (VStr ''A'', (ab_state db_live)\<lparr>objs := js_set ab_heap 3 ''table'' (VStr ''A'')\<rparr>)
   \<and> js_get (js_set ab_heap 3 ''table'' (VStr ''A'')) 3 ''table'' = VStr ''A''"
  using tableName_memoized [where st = "ab_state db_live" and s = 0 and sc = "ab_source db_live"
      and t = "''A''" and d = 7 and g = 3 and v = "VStr ''A''"
      and ?st1.0 = "(ab_state db_live)\<lparr>objs := js_set ab_heap 3 ''table'' (VStr ''A'')\<rparr>"]
  by (simp add: ab_facts js_get_js_set_same)

subsection \<open>C9: the hidden properties of a copied type\<close>

text \<open>
  C9: whenever \<^verbatim>\<open>copyModel\<close> returns, what it returns is a new function object, not the
  master, with the master as its prototype, and with \<^verbatim>\<open>schema\<close>, \<^verbatim>\<open>modelName\<close> and
  \<^verbatim>\<open>relations\<close> as own properties that are not writable, not enumerable and not
  configurable; their values are the target registry, the master's name and the master's
  relations. An assignment to one of them leaves the heap as it was (and throws in strict
  mode), and \<^verbatim>\<open>for ... in\<close> over the type does not visit them. And \<^verbatim>\<open>copyModel\<close> does
  return when the master is a type of a DataSource, with a prototype, and either its name is
  already in the target's \<^verbatim>\<open>models\<close>, or it has a descriptor and the target is a
  transaction context or has an adapter with \<^verbatim>\<open>define\<close>.
\<close>

theorem copyModel_hidden_properties:
  assumes M: "M < onext st"
    and sc: "srcs st schema = Some sc" "models sc < onext st" "definitions sc < onext st"
    and k: "k = ''schema'' \<or> k = ''modelName'' \<or> k = ''relations''"
  shows "(\<forall>Slave st'. copyModel schema (VRef M) st = Inr (Slave, st') \<longrightarrow>
        Slave = Suc (onext st) \<and> Slave \<noteq> M
      \<and> (\<exists>ob. objs st' Slave = Some ob \<and> oproto ob = ProtoRef M)
      \<and> own_desc (objs st') Slave k =
           Some (hidden (if k = ''schema'' then VSource schema
                         else js_get (objs st) M k))
      \<and> js_assign False (objs st') Slave k v = Inr (objs st')
      \<and> js_assign True (objs st') Slave k v =
           Inl (TypeError ''Cannot assign to read only property'')
      \<and> js_get (objs st') Slave k =
           (if k = ''schema'' then VSource schema else js_get (objs st) M k)
      \<and> k \<notin> set (for_in (objs st') Slave))
    \<and> (\<forall>ms msc pr.
          js_get (objs st) M ''schema'' = VSource ms \<and> srcs st ms = Some msc
        \<and> proto_of_val (js_get (objs st) M ''prototype'') = Some pr
        \<and> (js_has (objs st) (models sc) (to_key (js_get (objs st) M ''modelName''))
            \<or> (js_get (objs st) (definitions msc) (to_key (js_get (objs st) M ''modelName''))
                  \<noteq> VUndefined
                \<and> js_get (objs st) (definitions msc) (to_key (js_get (objs st) M ''modelName''))
                  \<noteq> VNull
                \<and> (isTransaction sc
                    \<or> (\<exists>a. adapter sc = Some a \<and> ''define'' \<in> set (ops a))))) \<longrightarrow>
          (\<exists>Slave st'. copyModel schema (VRef M) st = Inr (Slave, st')))"
proof -
  have part1: "Slave = Suc (onext st) \<and> Slave \<noteq> M
      \<and> (\<exists>ob. objs st' Slave = Some ob \<and> oproto ob = ProtoRef M)
      \<and> own_desc (objs st') Slave k =
           Some (hidden (if k = ''schema'' then VSource schema
                         else js_get (objs st) M k))
      \<and> js_assign False (objs st') Slave k v = Inr (objs st')
      \<and> js_assign True (objs st') Slave k v =
           Inl (TypeError ''Cannot assign to read only property'')
      \<and> js_get (objs st') Slave k =
           (if k = ''schema'' then VSource schema else js_get (objs st) M k)
      \<and> k \<notin> set (for_in (objs st') Slave)"
    if ok: "copyModel schema (VRef M) st = Inr (Slave, st')" for Slave st'
  proof -
    let ?ob = "slave_object schema M (js_get (objs st) M ''modelName'')
                                (Suc (Suc (onext st))) (js_get (objs st) M ''relations'')"
    have S: "Slave = Suc (onext st)"
      using copyModel_Slave [OF ok M sc] by (rule conjunct1)
    have ob: "objs st' Slave = Some ?ob"
      using copyModel_Slave [OF ok M sc] by (rule conjunct2)
    have ne: "Slave \<noteq> M"
      using S M by simp
    have pm: "\<exists>ob. objs st' Slave = Some ob \<and> oproto ob = ProtoRef M"
      using ob by (simp add: slave_object_def)
    have od: "map_of (props ?ob) k =
             Some (hidden (if k = ''schema'' then VSource schema else js_get (objs st) M k))"
      using k by (auto simp: slave_object_def hidden_def)
    have lk: "lookup (objs st') Slave k =
        Data (hidden (if k = ''schema'' then VSource schema else js_get (objs st) M k))"
      using ob od by (rule lookup_own)
    have cp: "\<not> can_put (objs st') Slave k"
      by (simp add: can_put_def lk hidden_def)
    have own: "k \<in> fst ` set (props ?ob)"
      using k by (auto simp: slave_object_def)
    have en: "k \<notin> set (map fst (filter (\<lambda>(k, p). enumerable p) (props ?ob)))"
      using k by (auto simp: slave_object_def plain_def)
    have fi: "k \<notin> set (for_in (objs st') Slave)"
      using ob en own by (subst for_in.simps) (auto simp: slave_object_def split: proto.splits)
    have rest: "own_desc (objs st') Slave k =
             Some (hidden (if k = ''schema'' then VSource schema
                           else js_get (objs st) M k))
      \<and> js_assign False (objs st') Slave k v = Inr (objs st')
      \<and> js_assign True (objs st') Slave k v =
           Inl (TypeError ''Cannot assign to read only property'')
      \<and> js_get (objs st') Slave k =
           (if k = ''schema'' then VSource schema else js_get (objs st) M k)
      \<and> k \<notin> set (for_in (objs st') Slave)"
      using ob od cp fi lk by (simp add: own_desc_def js_assign_def js_get_def hidden_def)
    show ?thesis
      using S ne pm rest by blast
  qed
  have part2: "\<exists>Slave st'. copyModel schema (VRef M) st = Inr (Slave, st')"
    if "js_get (objs st) M ''schema'' = VSource ms" "srcs st ms = Some msc"
      "proto_of_val (js_get (objs st) M ''prototype'') = Some pr"
      "js_has (objs st) (models sc) (to_key (js_get (objs st) M ''modelName''))
            \<or> (js_get (objs st) (definitions msc) (to_key (js_get (objs st) M ''modelName''))
                  \<noteq> VUndefined
                \<and> js_get (objs st) (definitions msc) (to_key (js_get (objs st) M ''modelName''))
                  \<noteq> VNull
                \<and> (isTransaction sc
                    \<or> (\<exists>a. adapter sc = Some a \<and> ''define'' \<in> set (ops a))))"
    for ms msc pr
    using copyModel_ok [OF M sc(1,2) that] .
  show ?thesis
    using part1 part2 by blast
qed

theorem copyModel_hidden_properties_witness:
  "\<exists>st'. copyModel 1 (VRef 5) (ab_tx_open None) = Inr (17, st')
     \<and> (\<exists>ob. objs st' 17 = Some ob \<and> oproto ob = ProtoRef 5)
     \<and> own_desc (objs st') 17 ''schema'' = Some (hidden (VSource 1))
     \<and> js_assign False (objs st') 17 ''schema'' (VSource 0) = Inr (objs st')
     \<and> js_assign True (objs st') 17 ''schema'' (VSource 0) =
         Inl (TypeError ''Cannot assign to read only property'')
     \<and> js_get (objs st') 17 ''schema'' = VSource 1
     \<and> ''schema'' \<notin> set (for_in (objs st') 17)"
proof -
  have h: "(5::nat) < onext (ab_tx_open None)"
    "srcs (ab_tx_open None) 1 = Some ((ab_tx_source None)\<lparr>has_connect := False\<rparr>)"
    "models ((ab_tx_source None)\<lparr>has_connect := False\<rparr>) < onext (ab_tx_open None)"
    "definitions ((ab_tx_source None)\<lparr>has_connect := False\<rparr>) < onext (ab_tx_open None)"
    by (simp_all add: ab_tx_source_def)
  have sch: "''schema'' = ''schema'' \<or> ''schema'' = ''modelName'' \<or> ''schema'' = ''relations''"
    by simp
  note th = copyModel_hidden_properties [where v = "VSource 0", OF h sch]
  have r: "js_get (objs (ab_tx_open None)) 5 ''schema'' = VSource 0
      \<and> srcs (ab_tx_open None) 0 = Some (ab_source db_live)
      \<and> proto_of_val (js_get (objs (ab_tx_open None)) 5 ''prototype'') = Some (ProtoRef 4)
      \<and> (js_has (objs (ab_tx_open None)) (models ((ab_tx_source None)\<lparr>has_connect := False\<rparr>))
          (to_key (js_get (objs (ab_tx_open None)) 5 ''modelName''))
        \<or> (js_get (objs (ab_tx_open None)) (definitions (ab_source db_live))
            (to_key (js_get (objs (ab_tx_open None)) 5 ''modelName'')) \<noteq> VUndefined
          \<and> js_get (objs (ab_tx_open None)) (definitions (ab_source db_live))
            (to_key (js_get (objs (ab_tx_open None)) 5 ''modelName'')) \<noteq> VNull
          \<and> (isTransaction ((ab_tx_source None)\<lparr>has_connect := False\<rparr>)
              \<or> (\<exists>a. adapter ((ab_tx_source None)\<lparr>has_connect := False\<rparr>) = Some a
                    \<and> ''define'' \<in> set (ops a)))))"
    by (simp add: ab_tx_source_def ab_tx_open_get ab_facts)
  from th [THEN conjunct2, rule_format, OF r]
  obtain Slave st' where ok: "copyModel 1 (VRef 5) (ab_tx_open None) = Inr (Slave, st')"
    by blast
  from th [THEN conjunct1, rule_format, OF ok]
  show ?thesis
    using ok by (simp add: ab_tx_open_get ab_facts) blast
qed

subsection \<open>C10: a connect that fails\<close>

text \<open>
  C10 says that after a connect that fails the DataSource stays in the connecting state for
  good, since no code path resets \<^verbatim>\<open>connecting\<close>. The failure path does not, but the
  completion of a later \<^verbatim>\<open>connect\<close> that reports no error does (lines 134-137): on a
  backend whose \<^verbatim>\<open>connect\<close> answers later, a first connect fails and leaves
  \<^verbatim>\<open>connecting\<close> true, a second one succeeds and leaves it false.
\<close>

theorem connecting_reset_counterexample:
  "srcs net_state 0 = Some net_source
   \<and> connect 0 (VFun (UserFn 0)) net_state =
       Inr (net_state\<lparr>srcs := (srcs net_state)(0 \<mapsto> net_source\<lparr>connecting := True\<rparr>),
              trace := trace net_state @
                [AdapterCall 0 ''connect'' [VFun (ConnectDone 0 (VFun (UserFn 0)))]]\<rparr>)
   \<and> call_fn (VFun (ConnectDone 0 (VFun (UserFn 0)))) [VStr ''refused'']
        (net_state\<lparr>srcs := (srcs net_state)(0 \<mapsto> net_source\<lparr>connecting := True\<rparr>),
            trace := trace net_state @
              [AdapterCall 0 ''connect'' [VFun (ConnectDone 0 (VFun (UserFn 0)))]]\<rparr>) =
      Inr (net_state\<lparr>srcs := (srcs net_state)(0 \<mapsto> net_source\<lparr>connecting := True\<rparr>),
            trace := trace net_state @
              [AdapterCall 0 ''connect'' [VFun (ConnectDone 0 (VFun (UserFn 0)))],
               Invoke (VFun (UserFn 0)) [VStr ''refused'']]\<rparr>)
   \<and> connect 0 (VFun (UserFn 0))
        (net_state\<lparr>srcs := (srcs net_state)(0 \<mapsto> net_source\<lparr>connecting := True\<rparr>),
            trace := trace net_state @
              [AdapterCall 0 ''connect'' [VFun (ConnectDone 0 (VFun (UserFn 0)))],
               Invoke (VFun (UserFn 0)) [VStr ''refused'']]\<rparr>) =
      Inr (net_state\<lparr>srcs := (srcs net_state)(0 \<mapsto> net_source\<lparr>connecting := True\<rparr>),
            trace := trace net_state @
              [AdapterCall 0 ''connect'' [VFun (ConnectDone 0 (VFun (UserFn 0)))],
               Invoke (VFun (UserFn 0)) [VStr ''refused''],
               AdapterCall 0 ''connect'' [VFun (ConnectDone 0 (VFun (UserFn 0)))]]\<rparr>)
   \<and> call_fn (VFun (ConnectDone 0 (VFun (UserFn 0)))) []
        (net_state\<lparr>srcs := (srcs net_state)(0 \<mapsto> net_source\<lparr>connecting := True\<rparr>),
            trace := trace net_state @
              [AdapterCall 0 ''connect'' [VFun (ConnectDone 0 (VFun (UserFn 0)))],
               Invoke (VFun (UserFn 0)) [VStr ''refused''],
               AdapterCall 0 ''connect'' [VFun (ConnectDone 0 (VFun (UserFn 0)))]]\<rparr>) =
      Inr (net_state\<lparr>srcs := (srcs net_state)
               (0 \<mapsto> net_source\<lparr>connected := True, connecting := False\<rparr>),
            trace := trace net_state @
              [AdapterCall 0 ''connect'' [VFun (ConnectDone 0 (VFun (UserFn 0)))],
               Invoke (VFun (UserFn 0)) [VStr ''refused''],
               AdapterCall 0 ''connect'' [VFun (ConnectDone 0 (VFun (UserFn 0)))],
               Emit 0 ''connected'' [],
               Invoke (VFun (UserFn 0)) [VUndefined]]\<rparr>)
   \<and> connecting (net_source\<lparr>connected := True, connecting := False\<rparr>) = False"
proof -
  have h: "srcs net_state 0 = Some net_source" by (rule net_state_src)
  have a: "has_connect net_source" "adapter net_source = Some net_live"
    "''connect'' \<in> set (ops net_live)" "map_of (replies net_live) ''connect'' = None"
    by (simp_all add: net_source_def net_live_def)
  show ?thesis
    using h a
    by (simp add: connect_def upd_source_def adapter_request_def log_event_def arg_def Let_def)
qed

text \<open>
  C10 as amended: when the adapter's \<^verbatim>\<open>connect\<close> reports an error, the completion of
  \<^verbatim>\<open>connect(cb)\<close> receives that error, \<^verbatim>\<open>connected\<close> is left as it was, and
  \<^verbatim>\<open>connecting\<close>, which \<^verbatim>\<open>connect\<close> has set to true, is still true afterwards: the
  failure path has no assignment to it. Both ways an adapter can answer are covered: later
  (its completion runs as a step of its own) and before it returns. The flag does not stay
  true for good: a completion that reports no error, in whatever state it runs, sets
  \<^verbatim>\<open>connected\<close> to true and \<^verbatim>\<open>connecting\<close> to false.
\<close>

theorem failed_connect_keeps_connecting:
  assumes "srcs st s = Some sc" and "has_connect sc" and "adapter sc = Some a"
    and "''connect'' \<in> set (ops a)" and "truthy err" and "cb = VFun (UserFn n)"
  shows "(map_of (replies a) ''connect'' = None \<longrightarrow>
            connect s cb st =
              Inr (st\<lparr>srcs := (srcs st)(s \<mapsto> sc\<lparr>connecting := True\<rparr>),
                      trace := trace st @ [AdapterCall s ''connect'' [VFun (ConnectDone s cb)]]\<rparr>)
          \<and> call_fn (VFun (ConnectDone s cb)) [err]
                (st\<lparr>srcs := (srcs st)(s \<mapsto> sc\<lparr>connecting := True\<rparr>),
                    trace := trace st @ [AdapterCall s ''connect'' [VFun (ConnectDone s cb)]]\<rparr>) =
              Inr (st\<lparr>srcs := (srcs st)(s \<mapsto> sc\<lparr>connecting := True\<rparr>),
                      trace := trace st @ [AdapterCall s ''connect'' [VFun (ConnectDone s cb)],
                                           Invoke cb [err]]\<rparr>))
     \<and> (map_of (replies a) ''connect'' = Some [err] \<longrightarrow>
            connect s cb st =
              Inr (st\<lparr>srcs := (srcs st)(s \<mapsto> sc\<lparr>connecting := True\<rparr>),
                      trace := trace st @ [AdapterCall s ''connect'' [VFun (ConnectDone s cb)],
                                           Invoke cb [err]]\<rparr>))
     \<and> (\<forall>st' sc' ok. srcs st' s = Some sc' \<and> \<not> truthy ok \<longrightarrow>
            call_fn (VFun (ConnectDone s cb)) [ok] st' =
              Inr (st'\<lparr>srcs := (srcs st')(s \<mapsto> sc'\<lparr>connected := True, connecting := False\<rparr>),
                       trace := trace st' @ [Emit s ''connected'' [], Invoke cb [ok]]\<rparr>))"
  using assms
  by (simp add: connect_def upd_source_Some adapter_request_def log_event_def arg_def Let_def)

theorem failed_connect_keeps_connecting_witness:
  "srcs net_state 0 = Some net_source \<and> has_connect net_source
   \<and> adapter net_source = Some net_live \<and> ''connect'' \<in> set (ops net_live)
   \<and> truthy (VStr ''refused'') \<and> map_of (replies net_live) ''connect'' = None
   \<and> connecting net_source = False
   \<and> call_fn (VFun (ConnectDone 0 (VFun (UserFn 0)))) [VStr ''refused'']
        (net_state\<lparr>srcs := (srcs net_state)(0 \<mapsto> net_source\<lparr>connecting := True\<rparr>),
            trace := trace net_state @
              [AdapterCall 0 ''connect'' [VFun (ConnectDone 0 (VFun (UserFn 0)))]]\<rparr>) =
      Inr (net_state\<lparr>srcs := (srcs net_state)(0 \<mapsto> net_source\<lparr>connecting := True\<rparr>),
            trace := trace net_state @
              [AdapterCall 0 ''connect'' [VFun (ConnectDone 0 (VFun (UserFn 0)))],
               Invoke (VFun (UserFn 0)) [VStr ''refused'']]\<rparr>)
   \<and> call_fn (VFun (ConnectDone 0 (VFun (UserFn 0)))) [VNull]
        (net_state\<lparr>srcs := (srcs net_state)(0 \<mapsto> net_source\<lparr>connecting := True\<rparr>)\<rparr>) =
      Inr (net_state\<lparr>srcs := (srcs net_state)
               (0 \<mapsto> net_source\<lparr>connected := True, connecting := False\<rparr>),
            trace := trace net_state @
              [Emit 0 ''connected'' [], Invoke (VFun (UserFn 0)) [VNull]]\<rparr>)"
proof -
  have h1: "srcs net_state 0 = Some net_source" by (rule net_state_src)
  have h2: "has_connect net_source" by (simp add: net_source_def)
  have h3: "adapter net_source = Some net_live" by (simp add: net_source_def)
  have h4: "''connect'' \<in> set (ops net_live)" by (simp add: net_live_def)
  have h5: "truthy (VStr ''refused'')" by simp
  have h6: "map_of (replies net_live) ''connect'' = None" by (simp add: net_live_def)
  have h7: "connecting net_source = False" by (simp add: net_source_def)
  note th = failed_connect_keeps_connecting [OF h1 h2 h3 h4 h5 refl, of 0]
  have later: "call_fn (VFun (ConnectDone 0 (VFun (UserFn 0)))) [VNull]
        (net_state\<lparr>srcs := (srcs net_state)(0 \<mapsto> net_source\<lparr>connecting := True\<rparr>)\<rparr>) =
      Inr (net_state\<lparr>srcs := (srcs net_state)
               (0 \<mapsto> net_source\<lparr>connected := True, connecting := False\<rparr>),
            trace := trace net_state @
              [Emit 0 ''connected'' [], Invoke (VFun (UserFn 0)) [VNull]]\<rparr>)"
    using th [THEN conjunct2, THEN conjunct2, rule_format,
        of "net_state\<lparr>srcs := (srcs net_state)(0 \<mapsto> net_source\<lparr>connecting := True\<rparr>)\<rparr>"
           "net_source\<lparr>connecting := True\<rparr>" VNull]
    by simp
  show ?thesis
    using h1 h2 h3 h4 h5 h6 h7 th later
    by simp
qed

end
